(* ===== verification/Prelude.thy ===== *)
theory Prelude
  imports Main "HOL-Library.Word" "HOL-Library.Monad_Syntax"
begin

text \<open>
  What every component theory shares.  The sources are C and C++: values live in fixed-size
  arrays, loops count an index, and an access outside an array is undefined behaviour.  The
  model makes that explicit: an array is a list, every read, write, \<open>memcpy\<close> and
  \<open>memset\<close> is checked, and a call that would leave the array is the value
  \<^const>\<open>None\<close>.  A lemma \<open>f x = Some y\<close> about a model of a C function therefore says
  both that the function computes \<open>y\<close> and that it stays inside its arrays on the way.
  A counting loop is \<open>foldM\<close> over the list of its index values.
\<close>

unbundle bit_operations_syntax

type_synonym u8 = "8 word"
type_synonym u16 = "16 word"
type_synonym u32 = "32 word"
type_synonym u64 = "64 word"

named_theorems arr_simps \<open>characteristic equations of the checked array operations\<close>

section \<open>Checked arrays\<close>

definition arr_get :: "'a list \<Rightarrow> nat \<Rightarrow> 'a option" where
  "arr_get xs i = (if i < length xs then Some (xs ! i) else None)"

definition arr_set :: "'a list \<Rightarrow> nat \<Rightarrow> 'a \<Rightarrow> 'a list option" where
  "arr_set xs i v = (if i < length xs then Some (xs[i := v]) else None)"

text \<open>
  \<open>memcpy dst d src s n\<close> is the C call \<open>memcpy(dst + d, src + s, n)\<close>.  The source is read
  as it was before the call, also where both arguments point into one array.
\<close>

definition memcpy :: "'a list \<Rightarrow> nat \<Rightarrow> 'a list \<Rightarrow> nat \<Rightarrow> nat \<Rightarrow> 'a list option" where
  "memcpy dst d src s n =
     (if d + n \<le> length dst \<and> s + n \<le> length src
      then Some (take d dst @ take n (drop s src) @ drop (d + n) dst) else None)"

definition memset :: "'a list \<Rightarrow> nat \<Rightarrow> 'a \<Rightarrow> nat \<Rightarrow> 'a list option" where
  "memset dst d v n =
     (if d + n \<le> length dst then Some (take d dst @ replicate n v @ drop (d + n) dst) else None)"

text \<open>Access with an \<open>int\<close> index, which may be negative.\<close>

definition arr_get_int :: "'a list \<Rightarrow> int \<Rightarrow> 'a option" where
  "arr_get_int xs i = (if 0 \<le> i then arr_get xs (nat i) else None)"

definition arr_set_int :: "'a list \<Rightarrow> int \<Rightarrow> 'a \<Rightarrow> 'a list option" where
  "arr_set_int xs i v = (if 0 \<le> i then arr_set xs (nat i) v else None)"

text \<open>Arithmetic on \<open>int\<close>: a result outside the range of 32 bits is undefined.\<close>

definition int32 :: "int \<Rightarrow> int option" where
  "int32 x = (if - (2 ^ 31) \<le> x \<and> x < 2 ^ 31 then Some x else None)"

lemma arr_get_ok [simp, arr_simps]: "i < length xs \<Longrightarrow> arr_get xs i = Some (xs ! i)"
  by (simp add: arr_get_def)

lemma arr_get_ub [arr_simps]: "length xs \<le> i \<Longrightarrow> arr_get xs i = None"
  by (simp add: arr_get_def)

lemma arr_set_ok [simp, arr_simps]: "i < length xs \<Longrightarrow> arr_set xs i v = Some (xs[i := v])"
  by (simp add: arr_set_def)

lemma arr_set_ub [arr_simps]: "length xs \<le> i \<Longrightarrow> arr_set xs i v = None"
  by (simp add: arr_set_def)

lemma arr_get_eq_Some [simp]: "arr_get xs i = Some v \<longleftrightarrow> i < length xs \<and> xs ! i = v"
  by (simp add: arr_get_def)

lemma arr_set_eq_Some [simp]: "arr_set xs i v = Some ys \<longleftrightarrow> i < length xs \<and> ys = xs[i := v]"
  by (auto simp: arr_set_def)

lemma memcpy_ok [simp, arr_simps]:
  "d + n \<le> length dst \<Longrightarrow> s + n \<le> length src \<Longrightarrow>
   memcpy dst d src s n = Some (take d dst @ take n (drop s src) @ drop (d + n) dst)"
  by (simp add: memcpy_def)

lemma memset_ok [simp, arr_simps]:
  "d + n \<le> length dst \<Longrightarrow> memset dst d v n = Some (take d dst @ replicate n v @ drop (d + n) dst)"
  by (simp add: memset_def)

lemma memcpy_length: "memcpy dst d src s n = Some r \<Longrightarrow> length r = length dst"
  by (auto simp: memcpy_def split: if_splits)

lemma memset_length: "memset dst d v n = Some r \<Longrightarrow> length r = length dst"
  by (auto simp: memset_def split: if_splits)

section \<open>Counting loops\<close>

text \<open>
  \<open>for (i = a; i < b; i++) s = body(i, s)\<close> is \<open>foldM body [a..<b] s\<close>; a loop that counts down
  runs over \<open>rev [a..<b]\<close>.
\<close>

fun foldM :: "('i \<Rightarrow> 's \<Rightarrow> 's option) \<Rightarrow> 'i list \<Rightarrow> 's \<Rightarrow> 's option" where
  "foldM f [] s = Some s"
| "foldM f (i # is) s = do { s' \<leftarrow> f i s; foldM f is s' }"

lemma foldM_append: "foldM f (xs @ ys) s = do { s' \<leftarrow> foldM f xs s; foldM f ys s' }"
  by (induction xs arbitrary: s) (auto split: Option.bind_splits)

lemma foldM_snocI: "foldM f xs s = Some t \<Longrightarrow> f x t = r \<Longrightarrow> foldM f (xs @ [x]) s = r"
  by (cases r) (simp_all add: foldM_append)

lemma foldM_cong [fundef_cong]:
  assumes "xs = ys" and "s = t" and "\<And>x s. x \<in> set ys \<Longrightarrow> f x s = g x s"
  shows "foldM f xs s = foldM g ys t"
proof -
  have "(\<And>x s. x \<in> set xs \<Longrightarrow> f x s = g x s) \<Longrightarrow> foldM f xs s = foldM g xs s"
    by (induction xs arbitrary: s) (auto split: Option.bind_splits)
  with assms show ?thesis by simp
qed

lemma foldM_Some: "(\<And>x s. x \<in> set xs \<Longrightarrow> f x s = Some (g x s)) \<Longrightarrow> foldM f xs s = Some (fold g xs s)"
  by (induction xs arbitrary: s) auto

lemma foldM_map: "foldM f (map g xs) = foldM (\<lambda>x. f (g x)) xs"
  by (induction xs) (rule ext, simp)+

text \<open>
  A loop with early \<open>return\<close>: the body gives \<open>Inl v\<close> to return \<open>v\<close> and \<open>Inr s\<close> to go on.  \<open>loop_then\<close>
  continues with the code after the loop.
\<close>

fun for_loop :: "('i \<Rightarrow> 's \<Rightarrow> ('r + 's) option) \<Rightarrow> 'i list \<Rightarrow> 's \<Rightarrow> ('r + 's) option" where
  "for_loop f [] s = Some (Inr s)"
| "for_loop f (i # is) s = do { r \<leftarrow> f i s; (case r of Inl v \<Rightarrow> Some (Inl v) | Inr s \<Rightarrow> for_loop f is s) }"

definition loop_then :: "('r + 's) option \<Rightarrow> ('s \<Rightarrow> 'r option) \<Rightarrow> 'r option" where
  "loop_then r k = do { x \<leftarrow> r; (case x of Inl v \<Rightarrow> Some v | Inr s \<Rightarrow> k s) }"

lemma loop_then_simps [simp]:
  "loop_then (Some (Inl v)) k = Some v" "loop_then (Some (Inr s)) k = k s" "loop_then None k = None"
  by (simp_all add: loop_then_def)

lemma loop_then_if [simp]:
  "loop_then (if P then x else y) k = (if P then loop_then x k else loop_then y k)"
  by simp

lemma loop_then_search:
  "loop_then (Some (if P then Inl v else Inr s)) k = (if P then Some v else k s)"
  by simp

text \<open>A loop \<open>for (...) if (P i) return v;\<close> without state of its own.\<close>

definition scan :: "('i \<Rightarrow> bool option) \<Rightarrow> 'i list \<Rightarrow> 'r \<Rightarrow> ('r + unit) option" where
  "scan P is v = for_loop (\<lambda>i _. do { b \<leftarrow> P i; Some (if b then Inl v else Inr ()) }) is ()"

lemma for_loop_search:
  "(\<And>i. i \<in> set is \<Longrightarrow> f i () = Some (if p i then Inl v else Inr ())) \<Longrightarrow>
   for_loop f is () = Some (if \<exists>i\<in>set is. p i then Inl v else Inr ())"
  by (induction "is") auto

lemma scan_eq:
  "(\<And>i. i \<in> set is \<Longrightarrow> P i = Some (p i)) \<Longrightarrow>
   scan P is v = Some (if \<exists>i\<in>set is. p i then Inl v else Inr ())"
  unfolding scan_def by (rule for_loop_search) simp

text \<open>The same search from the last index down, where the value returned depends on the index.\<close>

lemma for_loop_search_down:
  assumes "\<And>i. i < n \<Longrightarrow> f i () = Some (if p i then Inl (g i) else Inr ())"
  shows "for_loop f (rev [0..<n]) () =
    Some (if \<exists>i<n. p i then Inl (g (Max {i. i < n \<and> p i})) else Inr ())"
  using assms
proof (induction n)
  case (Suc n)
  show ?case
  proof (cases "p n")
    case True
    then have "Max {i. i < Suc n \<and> p i} = n" by (intro Max_eqI) auto
    then show ?thesis using True Suc.prems by auto
  next
    case False
    then have "{i. i < Suc n \<and> p i} = {i. i < n \<and> p i}" by (auto simp: less_Suc_eq)
    then show ?thesis using False Suc by (auto simp: less_Suc_eq)
  qed
qed simp

lemma for_loop_search_up:
  assumes "\<And>i. m \<le> i \<Longrightarrow> i < n \<Longrightarrow> f i () = Some (if p i then Inl (g i) else Inr ())"
  shows "for_loop f [m..<n] () =
    Some (if \<exists>i. m \<le> i \<and> i < n \<and> p i then Inl (g (LEAST i. m \<le> i \<and> i < n \<and> p i)) else Inr ())"
  using assms
proof (induction "n - m" arbitrary: m)
  case (Suc d)
  then have mn: "m < n" by simp
  then have upt: "[m..<n] = m # [Suc m..<n]" by (simp add: upt_conv_Cons)
  show ?case
  proof (cases "p m")
    case True
    then have "(LEAST i. m \<le> i \<and> i < n \<and> p i) = m" using mn by (intro Least_equality) auto
    moreover have "\<exists>i. m \<le> i \<and> i < n \<and> p i" using True mn by blast
    ultimately show ?thesis using True mn Suc.prems by (simp add: upt)
  next
    case False
    then have eq: "(m \<le> i \<and> i < n \<and> p i) \<longleftrightarrow> (Suc m \<le> i \<and> i < n \<and> p i)" for i
      by (metis Suc_leI le_neq_implies_less Suc_leD)
    have "for_loop f [m..<n] () = for_loop f [Suc m..<n] ()" using False Suc by (simp add: upt)
    then show ?thesis using Suc by (simp only: eq)
  qed
qed auto

lemma for_loop_append:
  "for_loop f (xs @ ys) s =
    do { r \<leftarrow> for_loop f xs s; (case r of Inl v \<Rightarrow> Some (Inl v) | Inr s \<Rightarrow> for_loop f ys s) }"
  by (induction xs arbitrary: s) (auto split: Option.bind_split sum.split)

lemma for_loop_map: "for_loop f (map g xs) s = for_loop (\<lambda>x. f (g x)) xs s"
  by (induction xs arbitrary: s) (auto split: Option.bind_split sum.split)

text \<open>The invariant rule of an upward loop: every pass is defined and keeps the invariant.\<close>

lemma for_upto_rule:
  assumes "a \<le> b" and "P a s"
    and "\<And>i s. a \<le> i \<Longrightarrow> i < b \<Longrightarrow> P i s \<Longrightarrow> \<exists>s'. f i s = Some s' \<and> P (Suc i) s'"
  shows "\<exists>s'. foldM f [a..<b] s = Some s' \<and> P b s'"
  using assms
proof (induction "b - a" arbitrary: a s)
  case 0
  then show ?case by auto
next
  case (Suc n)
  then have "a < b" by simp
  with Suc.prems obtain s' where s': "f a s = Some s'" "P (Suc a) s'"
    by blast
  have "\<exists>t. foldM f [Suc a..<b] s' = Some t \<and> P b t"
    using Suc \<open>a < b\<close> s' by (intro Suc.hyps) auto
  with s' \<open>a < b\<close> show ?case by (simp add: upt_conv_Cons)
qed

text \<open>A loop that fills \<open>t[0..n)\<close> from computed values, one per index.\<close>

lemma foldM_fill:
  assumes "n \<le> length t" and "\<And>i. i < n \<Longrightarrow> g i = Some (h i)"
  shows "foldM (\<lambda>i t. do { v \<leftarrow> g i; arr_set t i v }) [0..<n] t = Some (map h [0..<n] @ drop n t)"
  using assms
proof (induction n)
  case 0
  then show ?case by simp
next
  case (Suc n)
  then have "foldM (\<lambda>i t. do { v \<leftarrow> g i; arr_set t i v }) [0..<n] t = Some (map h [0..<n] @ drop n t)"
    by simp
  moreover have "drop n t = t ! n # drop (Suc n) t"
    using Suc.prems by (simp add: Cons_nth_drop_Suc)
  ultimately show ?case
    using Suc.prems by (simp add: foldM_append list_update_append)
qed

section \<open>Lists cut into blocks\<close>

lemma length_4E:
  assumes "length v = 4"
  obtains a b c d where "v = [a, b, c, d]"
  using assms by (auto simp: numeral_eq_Suc length_Suc_conv)

function chunks :: "nat \<Rightarrow> 'a list \<Rightarrow> 'a list list" where
  "chunks n xs = (if n = 0 \<or> length xs < n then [] else take n xs # chunks n (drop n xs))"
  by pat_completeness auto
termination
  by (relation "measure (\<lambda>(n, xs). length xs)") auto

declare chunks.simps [simp del]

lemma chunks_short: "length xs < n \<Longrightarrow> chunks n xs = []"
  by (simp add: chunks.simps)

lemma chunks_append: "0 < n \<Longrightarrow> length b = n \<Longrightarrow> chunks n (b @ xs) = b # chunks n xs"
  by (simp add: chunks.simps [of n "b @ xs"])

lemma length_in_chunks: "b \<in> set (chunks n xs) \<Longrightarrow> length b = n"
  by (induction n xs rule: chunks.induct) (subst (asm) (2) chunks.simps, auto split: if_splits)

lemma chunks_append_dvd:
  assumes "0 < n" and "n dvd length xs"
  shows "chunks n (xs @ ys) = chunks n xs @ chunks n ys"
  using assms
proof (induction n xs rule: chunks.induct)
  case (1 n xs)
  show ?case
  proof (cases "length xs < n")
    case True
    with "1.prems" have "xs = []"
      by (auto dest: dvd_imp_le)
    then show ?thesis using "1.prems" by (simp add: chunks_short)
  next
    case False
    then have "n dvd length (drop n xs)"
      using "1.prems" by (simp add: dvd_diff_nat)
    with False "1" have "chunks n (drop n xs @ ys) = chunks n (drop n xs) @ chunks n ys"
      by simp
    with False "1.prems"(1) show ?thesis
      by (simp add: chunks.simps [of n "xs @ ys"] chunks.simps [of n xs])
  qed
qed

lemma concat_chunks: "0 < n \<Longrightarrow> n dvd length xs \<Longrightarrow> concat (chunks n xs) = xs"
proof (induction n xs rule: chunks.induct)
  case (1 n xs)
  show ?case
  proof (cases "length xs < n")
    case True
    with "1.prems" have "xs = []"
      by (auto dest: dvd_imp_le)
    then show ?thesis using "1.prems" by (simp add: chunks_short)
  next
    case False
    with "1" have "concat (chunks n (drop n xs)) = drop n xs"
      by (simp add: dvd_diff_nat)
    with False "1.prems" show ?thesis
      by (simp add: chunks.simps [of n xs])
  qed
qed

lemma chunks_conv_map:
  assumes "0 < n"
  shows "chunks n xs = map (\<lambda>k. take n (drop (n * k) xs)) [0..<length xs div n]"
  using assms
proof (induction n xs rule: chunks.induct)
  case (1 n xs)
  show ?case
  proof (cases "length xs < n")
    case True
    then show ?thesis by (simp add: chunks_short)
  next
    case False
    then have "length xs div n = Suc (length (drop n xs) div n)"
      using "1.prems" by (simp add: le_div_geq)
    moreover have "chunks n (drop n xs) = map (\<lambda>k. take n (drop (n * k) (drop n xs))) [0..<length (drop n xs) div n]"
      using False "1" by simp
    ultimately show ?thesis
      using False "1.prems" by (simp add: chunks.simps [of n xs] map_Suc_upt [symmetric] upt_conv_Cons
          add.commute del: upt_Suc)
  qed
qed

lemma foldM_fill_at:
  assumes "off + n \<le> length t"
  shows "foldM (\<lambda>i t. arr_set t (off + i) (h i)) [0..<n] t = Some (take off t @ map h [0..<n] @ drop (off + n) t)"
  using assms
proof (induction n)
  case (Suc n)
  then have "foldM (\<lambda>i t. arr_set t (off + i) (h i)) [0..<n] t = Some (take off t @ map h [0..<n] @ drop (off + n) t)"
    by simp
  then show ?case using Suc.prems
    by (simp add: foldM_append list_update_append Cons_nth_drop_Suc [symmetric, of "off + n"])
qed simp

lemma chunks_Cons: "0 < n \<Longrightarrow> n \<le> length xs \<Longrightarrow> chunks n xs = take n xs # chunks n (drop n xs)"
  using chunks_append [of n "take n xs" "drop n xs"] by simp

lemma length_take_blocks: "length (take (n * (length xs div n)) xs) = n * (length xs div n)"
  by (simp only: length_take min_absorb2 times_div_less_eq_dividend)

lemma chunks_full_blocks: "0 < n \<Longrightarrow> chunks n (take (n * (length xs div n)) xs) = chunks n xs"
  using chunks_append_dvd [of n "take (n * (length xs div n)) xs" "drop (n * (length xs div n)) xs"]
    chunks_short [of "drop (n * (length xs div n)) xs" n]
  by (simp add: length_take_blocks minus_mult_div_eq_mod del: length_take)

lemma arr_set_snoc: "length xs = n \<Longrightarrow> arr_set (xs @ [z]) n v = Some (xs @ [v])"
  by (simp add: list_update_append)

lemma table_ranges_mono:
  "\<forall>k \<in> set t. k < n \<Longrightarrow> n \<le> m \<Longrightarrow> \<forall>k \<in> set t. k < (m :: nat)"
  by auto

text \<open>The range of 32-bit words.\<close>

lemma unat_u32_less: "unat (w :: u32) < 4294967296"
  using unsigned_less [of w] by simp

lemma drop_bit_8_less: "w \<noteq> 0 \<Longrightarrow> unat (drop_bit 8 w) < unat (w :: u32)"
proof -
  assume "w \<noteq> 0"
  then have "0 < unat w" by (simp add: unat_gt_0)
  then have "unat w div 2 ^ 8 < unat w" by (intro div_less_dividend) simp_all
  then show ?thesis by (simp only: unat_drop_bit_eq drop_bit_eq_div [of 8 "unat w"])
qed

text \<open>A function folded over the full blocks of a list; an incomplete last block is left out.\<close>

definition iterate_blocks :: "('s \<Rightarrow> 'b list \<Rightarrow> 's) \<Rightarrow> nat \<Rightarrow> 's \<Rightarrow> 'b list \<Rightarrow> 's" where
  "iterate_blocks f n s xs = fold (\<lambda>b s. f s b) (chunks n xs) s"

text \<open>
  What a streaming hash relies on of its block transformation: on a valid chaining state and at
  least one block of input it is defined, computes \<open>compress\<close> of the first block and gives a
  valid state again.
\<close>

locale block_transform =
  fixes transform :: "'s \<Rightarrow> 'b list \<Rightarrow> 's option"
    and compress :: "'s \<Rightarrow> 'b list \<Rightarrow> 's"
    and valid :: "'s \<Rightarrow> bool"
    and n :: nat
  assumes block_size: "0 < n"
    and transform_compress: "valid s \<Longrightarrow> n \<le> length b \<Longrightarrow> transform s b = Some (compress s (take n b))"
    and valid_compress: "valid s \<Longrightarrow> length b = n \<Longrightarrow> valid (compress s b)"
begin

lemma absorb_short: "length xs < n \<Longrightarrow> iterate_blocks compress n s xs = s"
  by (simp add: iterate_blocks_def chunks_short)

lemma absorb_append:
  "n dvd length xs \<Longrightarrow>
   iterate_blocks compress n s (xs @ ys) = iterate_blocks compress n (iterate_blocks compress n s xs) ys"
  using block_size by (simp add: iterate_blocks_def chunks_append_dvd)

lemma absorb_append_short:
  "n dvd length xs \<Longrightarrow> length ys < n \<Longrightarrow>
   iterate_blocks compress n s (xs @ ys) = iterate_blocks compress n s xs"
  by (simp add: absorb_append absorb_short)

lemma absorb_block: "length b = n \<Longrightarrow> iterate_blocks compress n s b = compress s b"
  using block_size chunks_append [of n b "[]"]
  by (simp add: iterate_blocks_def chunks_short)

lemma valid_absorb: "valid s \<Longrightarrow> valid (iterate_blocks compress n s xs)"
proof -
  have "valid s \<Longrightarrow> (\<forall>b \<in> set bs. length b = n) \<Longrightarrow> valid (fold (\<lambda>b s. compress s b) bs s)" for bs
    by (induction bs arbitrary: s) (auto simp: valid_compress)
  then show "valid s \<Longrightarrow> valid (iterate_blocks compress n s xs)"
    by (auto simp: iterate_blocks_def dest: length_in_chunks)
qed

lemma transform_absorb:
  "valid s \<Longrightarrow> n \<le> length b \<Longrightarrow> transform s b = Some (iterate_blocks compress n s (take n b))"
  by (simp add: transform_compress absorb_block)

end

text \<open>
  Rounds of a block cipher that undo themselves: a round after an exchange of the halves takes back the round before
  it.  Then running the rounds with the keys in reverse order decrypts.
\<close>

locale reversible_rounds =
  fixes step :: "'k \<Rightarrow> 's \<Rightarrow> 's" and exchange :: "'s \<Rightarrow> 's" and key :: "'k \<Rightarrow> bool" and ok :: "'s \<Rightarrow> bool"
  assumes step_exchange: "key k \<Longrightarrow> ok x \<Longrightarrow> step k (exchange (step k x)) = exchange x"
    and exchange_exchange: "exchange (exchange x) = x"
    and ok_step: "key k \<Longrightarrow> ok x \<Longrightarrow> ok (step k x)"
begin

lemma ok_steps: "\<forall>k \<in> set ks. key k \<Longrightarrow> ok x \<Longrightarrow> ok (fold step ks x)"
  by (induction ks arbitrary: x) (auto simp: ok_step)

lemma steps_inverse: "\<forall>k \<in> set ks. key k \<Longrightarrow> ok x \<Longrightarrow> fold step (rev ks) (exchange (fold step ks x)) = exchange x"
  by (induction ks arbitrary: x) (simp_all add: ok_step step_exchange)

lemma cipher_inverse:
  "\<forall>k \<in> set ks. key k \<Longrightarrow> ok x \<Longrightarrow> exchange (fold step (rev ks) (exchange (fold step ks x))) = x"
  by (simp add: steps_inverse exchange_exchange)

end

end
