(* ===== verification/Thread_Pool.thy ===== *)
theory Thread_Pool
  imports Prelude "HOL-Library.Multiset"
begin

text \<open>
  Model of the class \<open>CHatchThreadSimplePool\<close> of \<open>hatchNet-V100R001C01/hatchThreadPool.cpp\<close>: the queue of
  runners, its critical section, the semaphore that counts them, the event that ends the threads, the
  loop of the pool threads and the calls \<open>hatchPush\<close> and \<open>hatchEnd\<close> that other threads make.  Threads
  interleave between any two operations on shared objects.  The synchronisation objects follow their
  documented behaviour: a semaphore is a count with a maximum, an event stays set, a wait for several
  objects reports the first that is signalled, and a wait for no object or more than 64 fails at once.
  The handles are valid, so no other wait fails.  What \<open>Run\<close> does is the runner's; a runner that pushes
  others makes calls like any other thread.
\<close>

section \<open>State\<close>

text \<open>A runner is a pointer; 0 is \<open>NULL\<close>.\<close>

type_synonym runner = nat

datatype EventIndex = Semaphore_Runner | End_Thread | Event_NULL

text \<open>Where a pool thread is in \<open>hatchThreadProc\<close>, with the value of the local variable it holds.\<close>

datatype thread_pc =
    Waiting \<comment> \<open>in \<open>hatchWaitObject\<close>\<close>
  | Entering \<comment> \<open>in \<open>hatchPop\<close>, before the critical section\<close>
  | Popping \<comment> \<open>inside the critical section, before the list is read\<close>
  | Leaving runner
  | Got runner \<comment> \<open>\<open>hatchPop\<close> has returned\<close>
  | Running runner
  | Ended

text \<open>Where a calling thread is in \<open>hatchPush\<close> or \<open>hatchEnd\<close>.\<close>

datatype caller_pc =
    PushEnter runner
  | PushBack runner
  | PushLeave
  | PushRelease
  | EndSet
  | EndWait
  | Returned
  | Crashed

datatype owner = Worker nat | Caller nat

record simple_pool =
  m_listRunner :: "runner list"
  cs_owner :: "owner option"
  m_semaphore :: nat
  m_event :: bool
  threads :: "thread_pc list"
  m_iThreadCount :: "nat option" \<comment> \<open>\<open>None\<close> while it is uninitialised\<close>
  callers :: "caller_pc list"

text \<open>What has happened so far, for the properties only.\<close>

record pool_history = simple_pool +
  pushed :: "runner list"
  popped :: "runner list"
  started :: "runner list"
  lost :: nat

section \<open>Synchronisation objects\<close>

definition SEMAPHORE_MAX_COUNT :: nat where "SEMAPHORE_MAX_COUNT = 0x8ff"

text \<open>On a semaphore created with the maximum \<open>iMax\<close> that now has the count \<open>cnt\<close>.\<close>

definition hatchReleaseSemaphore :: "nat \<Rightarrow> nat \<Rightarrow> nat \<Rightarrow> int \<times> nat" where
  "hatchReleaseSemaphore iMax iStep cnt =
     (if cnt + iStep > iMax then (- 1, cnt) else (0, cnt + iStep))"

text \<open>\<open>WaitForMultipleObjects(2, {event, semaphore}, FALSE, INFINITE)\<close>; \<open>None\<close> while it blocks.\<close>

definition hatchWaitObject :: "('a simple_pool_scheme) \<Rightarrow> (EventIndex \<times> 'a simple_pool_scheme) option" where
  "hatchWaitObject s =
     (if m_event s then Some (End_Thread, s)
      else if 0 < m_semaphore s then Some (Semaphore_Runner, s\<lparr>m_semaphore := m_semaphore s - 1\<rparr>)
      else None)"

text \<open>\<open>hatchWaitThreadEnd\<close>: \<open>None\<close> while it blocks.\<close>

definition hatchWaitThreadEnd :: "('a simple_pool_scheme) \<Rightarrow> caller_pc option" where
  "hatchWaitThreadEnd s =
     (case m_iThreadCount s of
        None \<Rightarrow> Some Crashed
      | Some n \<Rightarrow>
          if n = 0 \<or> 64 < n then Some Returned
          else if list_all (\<lambda>pc. pc = Ended) (threads s) then Some Returned
          else None)"

section \<open>Initialisation\<close>

text \<open>Which of the objects the system could create.\<close>

record os_result =
  semaphore_created :: bool
  event_created :: bool
  thread_created :: "nat \<Rightarrow> bool"

fun init_threads :: "(nat \<Rightarrow> bool) \<Rightarrow> nat \<Rightarrow> nat \<Rightarrow> int \<times> thread_pc list" where
  "init_threads ok i 0 = (0, [])"
| "init_threads ok i (Suc n) =
     (if ok i then let (ret, ts) = init_threads ok (Suc i) n in (ret, Waiting # ts) else (- 1, []))"

definition empty_pool :: pool_history where
  "empty_pool = \<lparr> m_listRunner = [], cs_owner = None, m_semaphore = 0, m_event = False, threads = [],
     m_iThreadCount = None, callers = [], pushed = [], popped = [], started = [], lost = 0 \<rparr>"

definition hatchInitialize :: "os_result \<Rightarrow> nat \<Rightarrow> int \<times> pool_history" where
  "hatchInitialize os threadCount =
     (if \<not> semaphore_created os then (- 1, empty_pool)
      else if \<not> event_created os then (- 1, empty_pool)
      else
        let (ret, ts) = init_threads (thread_created os) 0 threadCount in
        if ret < 0 then (ret, empty_pool\<lparr>threads := ts\<rparr>)
        else (ret, empty_pool\<lparr>threads := ts, m_iThreadCount := Some threadCount\<rparr>))"

section \<open>Steps\<close>

definition go_thread :: "nat \<Rightarrow> thread_pc \<Rightarrow> pool_history \<Rightarrow> pool_history" where
  "go_thread i pc s = s\<lparr>threads := (threads s)[i := pc]\<rparr>"

definition go_caller :: "nat \<Rightarrow> caller_pc \<Rightarrow> pool_history \<Rightarrow> pool_history" where
  "go_caller i pc s = s\<lparr>callers := (callers s)[i := pc]\<rparr>"

text \<open>What \<open>hatchPop\<close> does inside the critical section.\<close>

definition hatchPop_take :: "pool_history \<Rightarrow> runner \<times> pool_history" where
  "hatchPop_take s =
     (case m_listRunner s of
        [] \<Rightarrow> (0, s)
      | r # rs \<Rightarrow> (r, s\<lparr>m_listRunner := rs, popped := popped s @ [r]\<rparr>))"

text \<open>One operation of pool thread \<open>i\<close>; \<open>None\<close> when it is blocked or has ended.\<close>

definition hatchThreadProc :: "nat \<Rightarrow> pool_history \<Rightarrow> pool_history option" where
  "hatchThreadProc i s =
     (if length (threads s) \<le> i then None
      else case threads s ! i of
        Waiting \<Rightarrow>
          (case hatchWaitObject s of
             None \<Rightarrow> None
           | Some (Semaphore_Runner, s) \<Rightarrow> Some (go_thread i Entering s)
           | Some (End_Thread, s) \<Rightarrow> Some (go_thread i Ended s)
           | Some (Event_NULL, s) \<Rightarrow> Some (go_thread i Ended s))
      | Entering \<Rightarrow>
          if cs_owner s = None then Some (go_thread i Popping (s\<lparr>cs_owner := Some (Worker i)\<rparr>)) else None
      | Popping \<Rightarrow>
          (let (r, t) = hatchPop_take s in Some (go_thread i (Leaving r) t))
      | Leaving r \<Rightarrow> Some (go_thread i (Got r) (s\<lparr>cs_owner := None\<rparr>))
      | Got r \<Rightarrow>
          if r \<noteq> 0 then Some (go_thread i (Running r) (s\<lparr>started := started s @ [r]\<rparr>))
          else Some (go_thread i Waiting s)
      | Running r \<Rightarrow> Some (go_thread i Waiting s)
      | Ended \<Rightarrow> None)"

text \<open>One operation of the thread that makes call \<open>i\<close>.\<close>

definition call_step :: "nat \<Rightarrow> pool_history \<Rightarrow> pool_history option" where
  "call_step i s =
     (if length (callers s) \<le> i then None
      else case callers s ! i of
        PushEnter r \<Rightarrow>
          if cs_owner s = None then Some (go_caller i (PushBack r) (s\<lparr>cs_owner := Some (Caller i)\<rparr>)) else None
      | PushBack r \<Rightarrow>
          Some (go_caller i PushLeave (s\<lparr>m_listRunner := m_listRunner s @ [r], pushed := pushed s @ [r]\<rparr>))
      | PushLeave \<Rightarrow> Some (go_caller i PushRelease (s\<lparr>cs_owner := None\<rparr>))
      | PushRelease \<Rightarrow>
          (let (ret, cnt) = hatchReleaseSemaphore SEMAPHORE_MAX_COUNT 1 (m_semaphore s) in
           Some (go_caller i Returned (s\<lparr>m_semaphore := cnt, lost := lost s + (if ret < 0 then 1 else 0)\<rparr>)))
      | EndSet \<Rightarrow> Some (go_caller i EndWait (s\<lparr>m_event := True\<rparr>))
      | EndWait \<Rightarrow>
          (case hatchWaitThreadEnd s of None \<Rightarrow> None | Some pc \<Rightarrow> Some (go_caller i pc s))
      | Returned \<Rightarrow> None
      | Crashed \<Rightarrow> None)"

definition hatchPush :: "runner \<Rightarrow> pool_history \<Rightarrow> pool_history" where
  "hatchPush r s = s\<lparr>callers := callers s @ [PushEnter r]\<rparr>"

definition hatchEnd :: "pool_history \<Rightarrow> pool_history" where
  "hatchEnd s = s\<lparr>callers := callers s @ [EndSet]\<rparr>"

text \<open>The steps of calls and pool threads, and with new calls.\<close>

inductive work :: "pool_history \<Rightarrow> pool_history \<Rightarrow> bool" where
  thread: "hatchThreadProc i s = Some t \<Longrightarrow> work s t"
| call: "call_step i s = Some t \<Longrightarrow> work s t"

inductive pool_step :: "pool_history \<Rightarrow> pool_history \<Rightarrow> bool" where
  work: "work s t \<Longrightarrow> pool_step s t"
| push: "pool_step s (hatchPush r s)"
| endpool: "pool_step s (hatchEnd s)"

inductive reachable :: "nat \<Rightarrow> pool_history \<Rightarrow> bool" where
  start: "hatchInitialize os n = (0, s) \<Longrightarrow> reachable n s"
| next_step: "reachable n s \<Longrightarrow> pool_step s t \<Longrightarrow> reachable n t"

inductive_cases work_cases: "work s t"
inductive_cases pool_step_cases: "pool_step s t"

text \<open>A run given by the order in which the threads get to act.\<close>

datatype pool_action = Thread_Acts nat | Call_Acts nat | Push_Called runner | End_Called

fun run_schedule :: "pool_action list \<Rightarrow> pool_history \<Rightarrow> pool_history option" where
  "run_schedule [] s = Some s"
| "run_schedule (Thread_Acts i # as) s = do { t \<leftarrow> hatchThreadProc i s; run_schedule as t }"
| "run_schedule (Call_Acts i # as) s = do { t \<leftarrow> call_step i s; run_schedule as t }"
| "run_schedule (Push_Called r # as) s = run_schedule as (hatchPush r s)"
| "run_schedule (End_Called # as) s = run_schedule as (hatchEnd s)"

end
