(* ===== verification/Thread_Pool_Correct.thy ===== *)
theory Thread_Pool_Correct
  imports Thread_Pool
begin

text \<open>
  What the thread pool guarantees under every interleaving: mutual exclusion, no wasted wake-up, first in
  first out, every runner started once, all work finished, and an orderly end.
\<close>

section \<open>Invariant\<close>

text \<open>Inside the critical section.\<close>

fun in_section :: "thread_pc \<Rightarrow> bool" where
  "in_section Popping = True"
| "in_section (Leaving r) = True"
| "in_section _ = False"

fun call_in_section :: "caller_pc \<Rightarrow> bool" where
  "call_in_section (PushBack r) = True"
| "call_in_section PushLeave = True"
| "call_in_section _ = False"

text \<open>Threads that have taken a count of the semaphore and not yet a runner, and calls that have added
  a runner and not yet a count.\<close>

fun will_pop :: "thread_pc \<Rightarrow> nat" where
  "will_pop Entering = 1"
| "will_pop Popping = 1"
| "will_pop _ = 0"

fun will_release :: "caller_pc \<Rightarrow> nat" where
  "will_release PushLeave = 1"
| "will_release PushRelease = 1"
| "will_release _ = 0"

text \<open>The runner a thread has taken and not yet started.\<close>

fun in_hand :: "thread_pc \<Rightarrow> runner multiset" where
  "in_hand (Leaving r) = (if r = 0 then {#} else {#r#})"
| "in_hand (Got r) = (if r = 0 then {#} else {#r#})"
| "in_hand _ = {#}"

definition mutual_exclusion :: "pool_history \<Rightarrow> bool" where
  "mutual_exclusion s \<longleftrightarrow>
     (\<forall>i. i < length (threads s) \<longrightarrow> (in_section (threads s ! i) \<longleftrightarrow> cs_owner s = Some (Worker i))) \<and>
     (\<forall>i. i < length (callers s) \<longrightarrow> (call_in_section (callers s ! i) \<longleftrightarrow> cs_owner s = Some (Caller i))) \<and>
     (\<forall>i. cs_owner s = Some (Worker i) \<longrightarrow> i < length (threads s)) \<and>
     (\<forall>i. cs_owner s = Some (Caller i) \<longrightarrow> i < length (callers s))"

definition counts_agree :: "pool_history \<Rightarrow> bool" where
  "counts_agree s \<longleftrightarrow>
     m_semaphore s + sum_list (map will_pop (threads s)) + sum_list (map will_release (callers s)) + lost s =
       length (m_listRunner s) \<and>
     m_semaphore s \<le> SEMAPHORE_MAX_COUNT \<and>
     (0 < lost s \<longrightarrow> SEMAPHORE_MAX_COUNT < length (pushed s))"

definition jobs_accounted :: "pool_history \<Rightarrow> bool" where
  "jobs_accounted s \<longleftrightarrow>
     pushed s = popped s @ m_listRunner s \<and>
     filter_mset (\<lambda>r. r \<noteq> 0) (mset (popped s)) = mset (started s) + sum_list (map in_hand (threads s))"

definition ending :: "nat \<Rightarrow> pool_history \<Rightarrow> bool" where
  "ending n s \<longleftrightarrow>
     length (threads s) = n \<and> m_iThreadCount s = Some n \<and>
     ((Ended \<in> set (threads s) \<or> EndWait \<in> set (callers s)) \<longrightarrow> m_event s) \<and>
     Crashed \<notin> set (callers s)"

definition pool_inv :: "nat \<Rightarrow> pool_history \<Rightarrow> bool" where
  "pool_inv n s \<longleftrightarrow> mutual_exclusion s \<and> counts_agree s \<and> jobs_accounted s \<and> ending n s"

section \<open>Weights\<close>

text \<open>An upper bound on the steps that are left without new calls.\<close>

fun thread_weight :: "thread_pc \<Rightarrow> nat" where
  "thread_weight Waiting = 1"
| "thread_weight Entering = 7"
| "thread_weight Popping = 6"
| "thread_weight (Leaving r) = 5"
| "thread_weight (Got r) = 4"
| "thread_weight (Running r) = 3"
| "thread_weight Ended = 0"

fun call_weight :: "caller_pc \<Rightarrow> nat" where
  "call_weight (PushEnter r) = 11"
| "call_weight (PushBack r) = 10"
| "call_weight PushLeave = 9"
| "call_weight PushRelease = 8"
| "call_weight EndSet = 2"
| "call_weight EndWait = 1"
| "call_weight Returned = 0"
| "call_weight Crashed = 0"

definition pool_weight :: "pool_history \<Rightarrow> nat" where
  "pool_weight s = 7 * m_semaphore s + sum_list (map thread_weight (threads s)) + sum_list (map call_weight (callers s))"

section \<open>An example state\<close>

text \<open>Two runners pushed; one thread is starting the first while the other is about to take the second.\<close>

definition busy_pool :: "pool_history option" where
  "busy_pool = run_schedule
     [Push_Called 5, Call_Acts 0, Call_Acts 0, Call_Acts 0, Call_Acts 0,
      Push_Called 6, Thread_Acts 1, Thread_Acts 1, Thread_Acts 1, Thread_Acts 1,
      Call_Acts 1, Call_Acts 1, Call_Acts 1, Call_Acts 1, Thread_Acts 0, Thread_Acts 0]
     (empty_pool\<lparr>threads := [Waiting, Waiting], m_iThreadCount := Some 2\<rparr>)"

section \<open>Relations that run down\<close>

text \<open>Steps that make a weight smaller end, whatever order they are taken in.\<close>

locale decreasing_steps =
  fixes step :: "'s \<Rightarrow> 's \<Rightarrow> bool" and weight :: "'s \<Rightarrow> nat"
  assumes decreases: "step s t \<Longrightarrow> weight t < weight s"
begin

lemma no_endless_run: "\<not> (\<forall>i. step (f i) (f (Suc i)))"
proof
  assume "\<forall>i. step (f i) (f (Suc i))"
  then have "\<forall>i. (f (Suc i), f i) \<in> measure weight" using decreases by simp
  then show False using wf_measure [of weight] unfolding wf_iff_no_infinite_down_chain by blast
qed

lemma reaches_end: "\<exists>t. step\<^sup>*\<^sup>* s t \<and> (\<nexists>u. step t u)"
proof (induction "weight s" arbitrary: s rule: less_induct)
  case less
  then show ?case by (metis converse_rtranclp_into_rtranclp rtranclp.rtrancl_refl decreases)
qed

end

section \<open>Every step keeps the invariant\<close>

lemma sum_list_update:
  fixes f :: "'a \<Rightarrow> 'b :: comm_monoid_add"
  assumes "i < length xs"
  shows "\<exists>R. sum_list (map f xs) = R + f (xs ! i) \<and> (\<forall>x. sum_list (map f (xs[i := x])) = R + f x)"
proof -
  let ?R = "sum_list (map f (take i xs)) + sum_list (map f (drop (Suc i) xs))"
  have "sum_list (map f xs) = ?R + f (xs ! i)"
    by (subst id_take_nth_drop [OF assms]) (simp add: ac_simps)
  moreover have "sum_list (map f (xs[i := x])) = ?R + f x" for x
    by (simp add: upd_conv_take_nth_drop [OF assms] ac_simps)
  ultimately show ?thesis by blast
qed

lemmas step_defs = hatchThreadProc_def hatchPop_take_def call_step_def go_thread_def go_caller_def hatchWaitObject_def
  hatchWaitThreadEnd_def hatchReleaseSemaphore_def

lemma thread_index: "hatchThreadProc i s = Some t \<Longrightarrow> i < length (threads s)"
  by (simp add: hatchThreadProc_def split: if_splits)

lemma call_index: "call_step i s = Some t \<Longrightarrow> i < length (callers s)"
  by (simp add: call_step_def split: if_splits)

lemma mutual_exclusion_thread:
  assumes "mutual_exclusion s" "hatchThreadProc i s = Some t"
  shows "mutual_exclusion t"
proof -
  have "in_section (threads s ! i) \<longleftrightarrow> cs_owner s = Some (Worker i)"
    using assms(1) thread_index [OF assms(2)] by (simp add: mutual_exclusion_def)
  then show ?thesis
    using assms unfolding mutual_exclusion_def
    by (cases "threads s ! i") (auto simp: step_defs nth_list_update split: if_splits list.splits)
qed

lemma mutual_exclusion_call:
  assumes "mutual_exclusion s" "call_step i s = Some t"
  shows "mutual_exclusion t"
proof -
  have "call_in_section (callers s ! i) \<longleftrightarrow> cs_owner s = Some (Caller i)"
    using assms(1) call_index [OF assms(2)] by (simp add: mutual_exclusion_def)
  then show ?thesis
    using assms unfolding mutual_exclusion_def
    by (cases "callers s ! i") (auto simp: step_defs nth_list_update split: if_splits option.splits)
qed

lemma popping_nonempty:
  assumes "counts_agree s" "i < length (threads s)" "threads s ! i = Popping"
  shows "m_listRunner s \<noteq> []"
proof -
  obtain R where "sum_list (map will_pop (threads s)) = R + 1"
    using sum_list_update [OF assms(2), of will_pop] assms(3) by auto
  then show ?thesis using assms(1) by (auto simp: counts_agree_def)
qed

lemma counts_agree_thread:
  assumes "counts_agree s" "hatchThreadProc i s = Some t"
  shows "counts_agree t"
proof -
  obtain R where "sum_list (map will_pop (threads s)) = R + will_pop (threads s ! i)"
      "\<And>pc. sum_list (map will_pop ((threads s)[i := pc])) = R + will_pop pc"
    using sum_list_update [OF thread_index [OF assms(2)], of will_pop] by auto
  then show ?thesis
    using assms popping_nonempty [of s i]
    by (cases "threads s ! i") (auto simp: counts_agree_def step_defs split: if_splits list.splits)
qed

lemma counts_agree_call:
  assumes "counts_agree s" "jobs_accounted s" "call_step i s = Some t"
  shows "counts_agree t"
proof -
  obtain R where "sum_list (map will_release (callers s)) = R + will_release (callers s ! i)"
      "\<And>pc. sum_list (map will_release ((callers s)[i := pc])) = R + will_release pc"
    using sum_list_update [OF call_index [OF assms(3)], of will_release] by auto
  then show ?thesis
    using assms
    by (cases "callers s ! i")
      (auto simp: counts_agree_def jobs_accounted_def ending_def step_defs split: if_splits option.splits)
qed

lemma jobs_accounted_thread:
  assumes "counts_agree s" "jobs_accounted s" "hatchThreadProc i s = Some t"
  shows "jobs_accounted t"
proof -
  obtain R where "sum_list (map in_hand (threads s)) = R + in_hand (threads s ! i)"
      "\<And>pc. sum_list (map in_hand ((threads s)[i := pc])) = R + in_hand pc"
    using sum_list_update [OF thread_index [OF assms(3)], of in_hand] by auto
  then show ?thesis
    using assms(2,3) popping_nonempty [OF assms(1) thread_index [OF assms(3)]]
    by (cases "threads s ! i") (auto simp: jobs_accounted_def step_defs split: if_splits list.splits)
qed

lemma jobs_accounted_call:
  "jobs_accounted s \<Longrightarrow> call_step i s = Some t \<Longrightarrow> jobs_accounted t"
  by (auto simp: jobs_accounted_def step_defs split: if_splits caller_pc.splits option.splits)

lemma ending_thread: "ending n s \<Longrightarrow> hatchThreadProc i s = Some t \<Longrightarrow> ending n t"
  by (auto simp: ending_def step_defs split: if_splits thread_pc.splits list.splits dest!: subsetD [OF set_update_subset_insert])

lemma ending_call: "ending n s \<Longrightarrow> call_step i s = Some t \<Longrightarrow> ending n t"
  by (auto simp: ending_def step_defs split: if_splits caller_pc.splits option.splits dest!: subsetD [OF set_update_subset_insert])

lemma pool_inv_work: "pool_inv n s \<Longrightarrow> work s t \<Longrightarrow> pool_inv n t"
  unfolding pool_inv_def
  by (erule work_cases)
    (blast dest: mutual_exclusion_thread counts_agree_thread jobs_accounted_thread ending_thread,
     blast dest: mutual_exclusion_call counts_agree_call jobs_accounted_call ending_call)

lemma pool_inv_push: "pool_inv n s \<Longrightarrow> pool_inv n (hatchPush r s)"
  by (auto simp: pool_inv_def hatchPush_def mutual_exclusion_def counts_agree_def jobs_accounted_def ending_def
      nth_append less_Suc_eq)

lemma pool_inv_end: "pool_inv n s \<Longrightarrow> pool_inv n (hatchEnd s)"
  by (auto simp: pool_inv_def hatchEnd_def mutual_exclusion_def counts_agree_def jobs_accounted_def ending_def
      nth_append less_Suc_eq)

lemma init_threads_ok: "init_threads ok i n = (ret, ts) \<Longrightarrow> 0 \<le> ret \<Longrightarrow> ret = 0 \<and> ts = replicate n Waiting"
  by (induction n arbitrary: i ret ts) (auto split: if_splits prod.splits)

lemma hatchInitialize_ok:
  "hatchInitialize os n = (0, s) \<Longrightarrow> s = empty_pool\<lparr>threads := replicate n Waiting, m_iThreadCount := Some n\<rparr>"
  by (auto simp: hatchInitialize_def split: if_splits prod.splits dest: init_threads_ok)

lemma sum_list_replicate_0: "sum_list (replicate n (0 :: 'a :: comm_monoid_add)) = 0"
  by (induction n) simp_all

lemma pool_inv_start: "hatchInitialize os n = (0, s) \<Longrightarrow> pool_inv n s"
  by (auto dest!: hatchInitialize_ok simp: pool_inv_def empty_pool_def mutual_exclusion_def counts_agree_def
      jobs_accounted_def ending_def sum_list_replicate_0)

lemma reachable_inv: "reachable n s \<Longrightarrow> pool_inv n s"
  by (induction rule: reachable.induct)
    (auto intro: pool_inv_start pool_inv_work pool_inv_push pool_inv_end elim!: pool_step_cases)

section \<open>Work ends\<close>

lemma thread_weight_decreases:
  assumes "hatchThreadProc i s = Some t"
  shows "pool_weight t < pool_weight s"
proof -
  obtain R where "sum_list (map thread_weight (threads s)) = R + thread_weight (threads s ! i)"
      "\<And>pc. sum_list (map thread_weight ((threads s)[i := pc])) = R + thread_weight pc"
    using sum_list_update [OF thread_index [OF assms], of thread_weight] by auto
  then show ?thesis
    using assms by (cases "threads s ! i") (auto simp: pool_weight_def step_defs split: if_splits list.splits)
qed

lemma call_weight_decreases:
  assumes "call_step i s = Some t"
  shows "pool_weight t < pool_weight s"
proof -
  obtain R where "sum_list (map call_weight (callers s)) = R + call_weight (callers s ! i)"
      "\<And>pc. sum_list (map call_weight ((callers s)[i := pc])) = R + call_weight pc"
    using sum_list_update [OF call_index [OF assms], of call_weight] by auto
  then show ?thesis
    using assms by (cases "callers s ! i") (auto simp: pool_weight_def step_defs split: if_splits option.splits)
qed

lemma weight_decreases: "work s t \<Longrightarrow> pool_weight t < pool_weight s"
  by (auto elim!: work_cases intro: thread_weight_decreases call_weight_decreases)

interpretation pool: decreasing_steps work pool_weight
  by unfold_locales (rule weight_decreases)

lemma pool_inv_works: "work\<^sup>*\<^sup>* s t \<Longrightarrow> pool_inv n s \<Longrightarrow> pool_inv n t"
  by (induction rule: rtranclp_induct) (auto intro: pool_inv_work)

section \<open>Nothing is left to do only when all is done\<close>

lemma section_free:
  assumes "pool_inv n s" "\<nexists>t. work s t"
  shows "cs_owner s = None"
proof (cases "cs_owner s")
  case (Some w)
  show ?thesis
  proof (cases w)
    case (Worker i)
    then have "i < length (threads s)" "in_section (threads s ! i)"
      using assms(1) Some by (auto simp: pool_inv_def mutual_exclusion_def)
    then have "\<exists>t. hatchThreadProc i s = Some t"
      by (cases "threads s ! i") (auto simp: hatchThreadProc_def split: list.splits prod.splits)
    then show ?thesis using assms(2) work.thread by blast
  next
    case (Caller i)
    then have "i < length (callers s)" "call_in_section (callers s ! i)"
      using assms(1) Some by (auto simp: pool_inv_def mutual_exclusion_def)
    then have "\<exists>t. call_step i s = Some t"
      by (cases "callers s ! i") (auto simp: call_step_def)
    then show ?thesis using assms(2) work.call by blast
  qed
qed

lemma stuck_threads:
  assumes "pool_inv n s" "\<nexists>t. work s t" "pc \<in> set (threads s)"
  shows "pc = (if m_event s then Ended else Waiting)" "\<not> m_event s \<Longrightarrow> m_semaphore s = 0"
proof -
  obtain i where i: "i < length (threads s)" "threads s ! i = pc" using assms(3) by (auto simp: in_set_conv_nth)
  have none: "hatchThreadProc i s = None" using assms(2) work.thread by (cases "hatchThreadProc i s") auto
  have "Ended \<in> set (threads s) \<Longrightarrow> m_event s" using assms(1) by (simp add: pool_inv_def ending_def)
  with none i assms(3) section_free [OF assms(1,2)]
  show "pc = (if m_event s then Ended else Waiting)" "\<not> m_event s \<Longrightarrow> m_semaphore s = 0"
    by (cases pc; auto simp: step_defs split: if_splits list.splits)+
qed

lemma stuck_calls:
  assumes "pool_inv n s" "\<nexists>t. work s t" "pc \<in> set (callers s)"
  shows "pc = Returned"
proof -
  obtain i where i: "i < length (callers s)" "callers s ! i = pc" using assms(3) by (auto simp: in_set_conv_nth)
  have none: "call_step i s = None" using assms(2) work.call by (cases "call_step i s") auto
  have "pc \<noteq> Crashed" "pc = EndWait \<Longrightarrow> m_event s" "m_iThreadCount s = Some n"
    using assms(1,3) by (auto simp: pool_inv_def ending_def)
  moreover have "m_event s \<Longrightarrow> list_all (\<lambda>pc. pc = Ended) (threads s)"
    using stuck_threads(1) [OF assms(1,2)] by (auto simp: list_all_iff)
  ultimately show ?thesis
    using none i section_free [OF assms(1,2)]
    by (cases pc) (auto simp: step_defs split: if_splits)
qed

lemma all_done:
  assumes "pool_inv n s" "\<nexists>t. work s t" "0 < n" "\<not> m_event s"
  shows "length (m_listRunner s) = lost s" "filter_mset (\<lambda>r. r \<noteq> 0) (mset (popped s)) = mset (started s)"
proof -
  have threads: "threads s = replicate n Waiting"
    using assms(1,4) stuck_threads(1) [OF assms(1,2)] by (auto simp: pool_inv_def ending_def intro!: replicate_eqI)
  then have sem: "m_semaphore s = 0" using stuck_threads(2) [OF assms(1,2), of Waiting] assms(3,4) by simp
  have calls: "callers s = replicate (length (callers s)) Returned"
    using stuck_calls [OF assms(1,2)] by (auto intro!: replicate_eqI)
  have "sum_list (map will_release (callers s)) = 0"
    by (subst calls) (simp add: sum_list_replicate_0)
  then show "length (m_listRunner s) = lost s"
    using assms(1) sem by (simp add: pool_inv_def counts_agree_def threads sum_list_replicate_0 del: sum_list_eq_0_iff)
  show "filter_mset (\<lambda>r. r \<noteq> 0) (mset (popped s)) = mset (started s)"
    using assms(1) by (simp add: pool_inv_def jobs_accounted_def threads sum_list_replicate_0)
qed

section \<open>Runs\<close>

lemma reachable_schedule: "run_schedule as s = Some t \<Longrightarrow> reachable n s \<Longrightarrow> reachable n t"
proof (induction as s rule: run_schedule.induct)
  case (2 i as s)
  then show ?case by (auto split: bind_splits intro: reachable.next_step pool_step.work work.thread)
next
  case (3 i as s)
  then show ?case by (auto split: bind_splits intro: reachable.next_step pool_step.work work.call)
qed (auto intro: reachable.next_step pool_step.push pool_step.endpool)

lemma bind_weak_cong: "x = y \<Longrightarrow> Option.bind x f = Option.bind y f"
  by simp

lemma start_reachable:
  "reachable n (empty_pool\<lparr>threads := replicate n Waiting, m_iThreadCount := Some n\<rparr>)"
proof -
  have "init_threads (\<lambda>_. True) i n = (0, replicate n Waiting)" for i by (induction n arbitrary: i) simp_all
  then have "hatchInitialize \<lparr> semaphore_created = True, event_created = True, thread_created = \<lambda>_. True \<rparr> n =
      (0, empty_pool\<lparr>threads := replicate n Waiting, m_iThreadCount := Some n\<rparr>)"
    by (simp add: hatchInitialize_def)
  then show ?thesis by (rule reachable.start)
qed

lemma busy_pool_state:
  "busy_pool = Some \<lparr> m_listRunner = [6], cs_owner = Some (Worker 0), m_semaphore = 0, m_event = False,
     threads = [Popping, Got 5], m_iThreadCount = Some 2, callers = [Returned, Returned],
     pushed = [5, 6], popped = [5], started = [], lost = 0 \<rparr>"
  by (simp add: busy_pool_def empty_pool_def step_defs hatchPush_def SEMAPHORE_MAX_COUNT_def cong: bind_weak_cong)

lemma busy_pool_reachable: "busy_pool = Some s \<Longrightarrow> reachable 2 s"
proof -
  assume "busy_pool = Some s"
  moreover have "replicate 2 Waiting = [Waiting, Waiting]" by (simp add: numeral_2_eq_2)
  ultimately show ?thesis
    using start_reachable [of 2] unfolding busy_pool_def by (simp only: reachable_schedule)
qed

lemma mutual_exclusion_count:
  assumes "mutual_exclusion s"
  shows "length (filter in_section (threads s)) + length (filter call_in_section (callers s)) \<le> 1"
proof -
  let ?T = "{i. i < length (threads s) \<and> in_section (threads s ! i)}"
  let ?C = "{i. i < length (callers s) \<and> call_in_section (callers s ! i)}"
  have "?T = (case cs_owner s of Some (Worker i) \<Rightarrow> {i} | _ \<Rightarrow> {})" "?C = (case cs_owner s of Some (Caller i) \<Rightarrow> {i} | _ \<Rightarrow> {})"
    using assms by (auto simp: mutual_exclusion_def split: option.splits owner.splits)
  then have "card ?T + card ?C \<le> 1" by (auto split: option.splits owner.splits)
  then show ?thesis by (simp only: length_filter_conv_card)
qed

lemma popped_after_end:
  "hatchThreadProc i s = Some t \<Longrightarrow> m_event s \<Longrightarrow> counts_agree s \<Longrightarrow>
    length (popped t) + sum_list (map will_pop (threads t)) = length (popped s) + sum_list (map will_pop (threads s))"
proof -
  assume a: "hatchThreadProc i s = Some t" "m_event s" "counts_agree s"
  obtain R where "sum_list (map will_pop (threads s)) = R + will_pop (threads s ! i)"
      "\<And>pc. sum_list (map will_pop ((threads s)[i := pc])) = R + will_pop pc"
    using sum_list_update [OF thread_index [OF a(1)], of will_pop] by auto
  then show ?thesis
    using a popping_nonempty [OF a(3) thread_index [OF a(1)]]
    by (cases "threads s ! i") (auto simp: step_defs split: if_splits list.splits)
qed

lemma call_keeps_popped: "call_step i s = Some t \<Longrightarrow> popped t = popped s \<and> threads t = threads s"
  by (auto simp: step_defs split: if_splits caller_pc.splits option.splits)

lemma event_stays: "work s t \<Longrightarrow> m_event s \<Longrightarrow> m_event t"
  by (erule work_cases)
    (auto simp: step_defs split: if_splits thread_pc.splits caller_pc.splits list.splits option.splits)

lemma works_after_end:
  "work\<^sup>*\<^sup>* s t \<Longrightarrow> pool_inv n s \<Longrightarrow> m_event s \<Longrightarrow> m_event t \<and>
    length (popped t) + sum_list (map will_pop (threads t)) = length (popped s) + sum_list (map will_pop (threads s))"
proof (induction rule: rtranclp_induct)
  case (step t u)
  then have t: "m_event t" "counts_agree t"
    using pool_inv_works [of s t n] by (auto simp: pool_inv_def)
  moreover have "length (popped u) + sum_list (map will_pop (threads u)) = length (popped t) + sum_list (map will_pop (threads t))"
    using step.hyps(2) t by (auto elim!: work_cases dest: popped_after_end call_keeps_popped)
  ultimately show ?case using step event_stays by simp
qed simp

lemma ended_frozen: "pool_step\<^sup>*\<^sup>* s t \<Longrightarrow> set (threads s) \<subseteq> {Ended} \<Longrightarrow> threads t = threads s \<and> started t = started s"
proof (induction rule: rtranclp_induct)
  case (step t u)
  then have "set (threads t) \<subseteq> {Ended}" by simp
  then have "threads t ! i = Ended" if "i < length (threads t)" for i
    using nth_mem [OF that] by blast
  then have "hatchThreadProc i t = None" for i by (simp add: hatchThreadProc_def)
  then have "threads u = threads t \<and> started u = started t"
    using step.hyps(2)
    by (auto elim!: pool_step_cases work_cases simp: hatchPush_def hatchEnd_def step_defs
        split: if_splits caller_pc.splits option.splits)
  then show ?case using step by simp
qed simp

text \<open>
  C1. In every state the pool can reach from a successful initialisation, under every interleaving of
  pool threads and calls: at most one thread is inside the critical section; a pool thread that has
  passed the semaphore finds the list nonempty, so no wake-up is wasted; the runners taken from the
  list are those pushed, in the order they were pushed; and each of them other than \<open>NULL\<close> has been
  started once or is in the hands of exactly one pool thread.
\<close>

theorem pool_runs_each_once:
  assumes "reachable n s"
  shows "length (filter in_section (threads s)) + length (filter call_in_section (callers s)) \<le> 1 \<and>
    (Popping \<in> set (threads s) \<longrightarrow> m_listRunner s \<noteq> []) \<and>
    pushed s = popped s @ m_listRunner s \<and>
    filter_mset (\<lambda>r. r \<noteq> 0) (mset (popped s)) = mset (started s) + sum_list (map in_hand (threads s))"
proof -
  have inv: "pool_inv n s" using assms by (rule reachable_inv)
  then have "Popping \<in> set (threads s) \<longrightarrow> m_listRunner s \<noteq> []"
    using popping_nonempty [of s] by (auto simp: pool_inv_def in_set_conv_nth)
  with inv mutual_exclusion_count [of s] show ?thesis by (simp add: pool_inv_def jobs_accounted_def)
qed

theorem pool_runs_each_once_witness:
  "\<exists>s. reachable 2 s \<and> threads s = [Popping, Got 5] \<and> m_listRunner s \<noteq> [] \<and> pushed s = popped s @ m_listRunner s"
proof -
  obtain s where s: "busy_pool = Some s" "threads s = [Popping, Got 5]" using busy_pool_state by simp
  then have "reachable 2 s" by (simp only: busy_pool_reachable)
  with s pool_runs_each_once [of 2 s] show ?thesis by auto
qed

text \<open>
  C2. A pool with at least one thread finishes its work.  From every reachable state, if no new calls are
  made and every runner returns, the threads can not go on forever and come to a state where nothing
  more can happen.  In every such state, unless \<open>hatchEnd\<close> was called, all calls have returned, as many
  runners are left in the list as releases of the semaphore have failed, and when no more than 2303
  runners were ever pushed none has failed and the runners started are exactly those pushed, each as
  often as it was pushed.
\<close>

theorem pool_finishes_work:
  assumes "reachable n s" "0 < n"
  shows "(\<nexists>f. f 0 = s \<and> (\<forall>i. work (f i) (f (Suc i)))) \<and>
    (\<exists>t. work\<^sup>*\<^sup>* s t \<and> (\<nexists>u. work t u)) \<and>
    (\<forall>t. work\<^sup>*\<^sup>* s t \<and> (\<nexists>u. work t u) \<and> \<not> m_event t \<longrightarrow>
      set (callers t) \<subseteq> {Returned} \<and> length (m_listRunner t) = lost t \<and>
      (length (pushed t) \<le> 2303 \<longrightarrow> mset (started t) = filter_mset (\<lambda>r. r \<noteq> 0) (mset (pushed t))))"
proof (intro conjI allI impI)
  show "\<nexists>f. f 0 = s \<and> (\<forall>i. work (f i) (f (Suc i)))" using pool.no_endless_run by blast
  show "\<exists>t. work\<^sup>*\<^sup>* s t \<and> (\<nexists>u. work t u)" by (rule pool.reaches_end)
  fix t assume t: "work\<^sup>*\<^sup>* s t \<and> (\<nexists>u. work t u) \<and> \<not> m_event t"
  then have inv: "pool_inv n t" using pool_inv_works reachable_inv [OF assms(1)] by blast
  show "set (callers t) \<subseteq> {Returned}" using stuck_calls [OF inv] t by auto
  show left: "length (m_listRunner t) = lost t" using all_done(1) [OF inv _ assms(2)] t by blast
  assume "length (pushed t) \<le> 2303"
  then have "m_listRunner t = []" using inv left by (auto simp: pool_inv_def counts_agree_def SEMAPHORE_MAX_COUNT_def)
  then have "pushed t = popped t" using inv by (simp add: pool_inv_def jobs_accounted_def)
  then show "mset (started t) = filter_mset (\<lambda>r. r \<noteq> 0) (mset (pushed t))"
    using all_done(2) [OF inv _ assms(2)] t by simp
qed

theorem pool_finishes_work_witness:
  "\<exists>s t. reachable 2 s \<and> threads s = [Popping, Got 5] \<and> work\<^sup>*\<^sup>* s t \<and> (\<nexists>u. work t u)"
proof -
  obtain s where s: "busy_pool = Some s" "threads s = [Popping, Got 5]" using busy_pool_state by simp
  then have "reachable 2 s" by (simp only: busy_pool_reachable)
  with s pool_finishes_work [of 2 s] show ?thesis by auto
qed

text \<open>
  C3. After \<open>hatchEnd\<close> has set the event, the threads take the runners they have already been woken
  for, one each, and no more: when nothing more can happen, all threads have ended, all calls have
  returned, and runners left in the list are never started, whatever is called afterwards.
\<close>

theorem pool_end_stops_threads:
  assumes "reachable n s" "m_event s" "work\<^sup>*\<^sup>* s t" "\<nexists>u. work t u"
  shows "threads t = replicate n Ended \<and> set (callers t) \<subseteq> {Returned} \<and>
    length (popped t) = length (popped s) + sum_list (map will_pop (threads s)) \<and>
    (\<forall>u. pool_step\<^sup>*\<^sup>* t u \<longrightarrow> started u = started t)"
proof -
  have inv: "pool_inv n t" using pool_inv_works assms(3) reachable_inv [OF assms(1)] by blast
  have after: "m_event t" "length (popped t) + sum_list (map will_pop (threads t)) =
      length (popped s) + sum_list (map will_pop (threads s))"
    using works_after_end [OF assms(3) reachable_inv [OF assms(1)] assms(2)] by auto
  have threads: "threads t = replicate n Ended"
    using inv after(1) stuck_threads(1) [OF inv assms(4)] by (auto simp: pool_inv_def ending_def intro!: replicate_eqI)
  moreover have "set (callers t) \<subseteq> {Returned}" using stuck_calls [OF inv assms(4)] by auto
  moreover have "\<forall>u. pool_step\<^sup>*\<^sup>* t u \<longrightarrow> started u = started t"
  proof (intro allI impI)
    fix u assume "pool_step\<^sup>*\<^sup>* t u"
    moreover have "set (threads t) \<subseteq> {Ended}" unfolding threads by auto
    ultimately show "started u = started t" using ended_frozen by simp
  qed
  moreover have "length (popped t) = length (popped s) + sum_list (map will_pop (threads s))"
    using after(2) by (simp add: threads sum_list_replicate_0)
  ultimately show ?thesis by blast
qed

theorem pool_end_stops_threads_witness:
  "\<exists>s t. reachable 2 s \<and> m_event s \<and> m_listRunner s = [6] \<and> work\<^sup>*\<^sup>* s t \<and> (\<nexists>u. work t u) \<and>
     threads t = replicate 2 Ended \<and> length (popped t) = 2"
proof -
  obtain b where b: "busy_pool = Some b" using busy_pool_state by simp
  let ?s = "\<lparr> m_listRunner = [6], cs_owner = Some (Worker 0), m_semaphore = 0, m_event = True,
     threads = [Popping, Got 5], m_iThreadCount = Some 2, callers = [Returned, Returned, EndWait],
     pushed = [5, 6], popped = [5], started = [], lost = 0 \<rparr>"
  have "run_schedule [End_Called, Call_Acts 2] b = Some ?s"
    using b unfolding busy_pool_state option.inject
    by (rule subst) (simp add: step_defs hatchEnd_def cong: bind_weak_cong)
  then have s: "reachable 2 ?s" using busy_pool_reachable [OF b] reachable_schedule by blast
  obtain t where t: "work\<^sup>*\<^sup>* ?s t" "\<nexists>u. work t u" using pool.reaches_end by blast
  have "threads t = replicate 2 Ended" "length (popped t) = 2"
    using conjunct1 [OF pool_end_stops_threads [OF s _ t]]
      conjunct1 [OF conjunct2 [OF conjunct2 [OF pool_end_stops_threads [OF s _ t]]]] by simp_all
  then show ?thesis using s t by (intro exI [of _ ?s] exI [of _ t]) simp
qed

end
