(* ===== verification/Machine_Words.thy ===== *)
theory Machine_Words
  imports Prelude
begin

text \<open>
  Words in byte memory.  The flag \<open>be\<close> is true on a big-endian machine (\<open>WORDS_BIGENDIAN\<close>).
\<close>

section \<open>Words and bytes\<close>

definition word_of_bytes :: "bool \<Rightarrow> u8 \<Rightarrow> u8 \<Rightarrow> u8 \<Rightarrow> u8 \<Rightarrow> u32" where
  "word_of_bytes be b0 b1 b2 b3 =
     (if be then push_bit 24 (ucast b0) OR push_bit 16 (ucast b1) OR push_bit 8 (ucast b2) OR ucast b3
      else ucast b0 OR push_bit 8 (ucast b1) OR push_bit 16 (ucast b2) OR push_bit 24 (ucast b3))"

text \<open>The \<open>uint32\<close> at byte offset \<open>p\<close> of an array.\<close>

definition fetch :: "bool \<Rightarrow> u8 list \<Rightarrow> nat \<Rightarrow> u32 option" where
  "fetch be k p = do {
     b0 \<leftarrow> arr_get k p; b1 \<leftarrow> arr_get k (p + 1); b2 \<leftarrow> arr_get k (p + 2); b3 \<leftarrow> arr_get k (p + 3);
     Some (word_of_bytes be b0 b1 b2 b3) }"

definition bytes32 :: "bool \<Rightarrow> u32 \<Rightarrow> u8 list" where
  "bytes32 be w = (let bs = map (\<lambda>i. ucast (drop_bit (8 * i) w)) [0..<4] in if be then rev bs else bs)"

definition word_at :: "bool \<Rightarrow> u8 list \<Rightarrow> u32" where
  "word_at be xs = word_of_bytes be (xs ! 0) (xs ! 1) (xs ! 2) (xs ! 3)"

section \<open>Lemmas\<close>

lemma bit_u8: "bit (b :: u8) n \<Longrightarrow> n < 8"
  using bit_imp_le_length [of b n] by simp

lemma sum_bytes_or:
  fixes b0 b1 b2 b3 :: u8
  shows "(ucast b0 :: u32) + push_bit 8 (ucast b1) + push_bit 16 (ucast b2) + push_bit 24 (ucast b3) =
    ucast b0 OR push_bit 8 (ucast b1) OR push_bit 16 (ucast b2) OR push_bit 24 (ucast b3)"
proof -
  have 1: "(ucast b0 :: u32) + push_bit 8 (ucast b1) = ucast b0 OR push_bit 8 (ucast b1)"
    by (rule disjunctive_add_eq_or) (auto intro!: bit_eqI simp: bit_simps dest!: bit_u8)
  have 2: "(ucast b0 OR push_bit 8 (ucast b1) :: u32) + push_bit 16 (ucast b2) =
      (ucast b0 OR push_bit 8 (ucast b1)) OR push_bit 16 (ucast b2)"
    by (rule disjunctive_add_eq_or) (auto intro!: bit_eqI simp: bit_simps dest!: bit_u8)
  have 3: "((ucast b0 OR push_bit 8 (ucast b1)) OR push_bit 16 (ucast b2) :: u32) + push_bit 24 (ucast b3) =
      ((ucast b0 OR push_bit 8 (ucast b1)) OR push_bit 16 (ucast b2)) OR push_bit 24 (ucast b3)"
    by (rule disjunctive_add_eq_or) (auto intro!: bit_eqI simp: bit_simps dest!: bit_u8)
  show ?thesis unfolding 1 2 3 by (simp only: or.assoc)
qed

lemma word_of_bytes_sum:
  "word_of_bytes be b0 b1 b2 b3 =
    (if be then push_bit 24 (ucast b0) + push_bit 16 (ucast b1) + push_bit 8 (ucast b2) + ucast b3
     else ucast b0 + push_bit 8 (ucast b1) + push_bit 16 (ucast b2) + push_bit 24 (ucast b3))"
  using sum_bytes_or [of b0 b1 b2 b3] sum_bytes_or [of b3 b2 b1 b0]
  by (simp add: word_of_bytes_def ac_simps)

lemma fetch_eq: "p + 4 \<le> length k \<Longrightarrow> fetch be k p = Some (word_at be (drop p k))"
  by (simp add: fetch_def word_at_def)

lemma word_at_take: "4 \<le> n \<Longrightarrow> word_at be (take n xs) = word_at be xs"
  by (simp add: word_at_def)

lemma word_at_bytes32: "word_at be (bytes32 be w) = w"
proof -
  have "ucast (ucast w :: u8) OR push_bit 8 (ucast (ucast (drop_bit 8 w) :: u8)) OR
      push_bit 16 (ucast (ucast (drop_bit 16 w) :: u8)) OR
      push_bit 24 (ucast (ucast (drop_bit 24 w) :: u8)) = (w :: u32)"
    (is "?l = w")
  proof (rule bit_word_eqI)
    fix n assume "n < LENGTH(32)"
    then have "n < 8 \<or> 8 \<le> n \<and> n < 16 \<or> 16 \<le> n \<and> n < 24 \<or> 24 \<le> n \<and> n < 32" by auto
    then show "bit ?l n \<longleftrightarrow> bit w n" by (elim disjE) (auto simp: bit_simps)
  qed
  then show ?thesis
    by (cases be) (simp_all add: bytes32_def word_at_def word_of_bytes_def upt_rec ac_simps)
qed

lemma length_bytes32 [simp]: "length (bytes32 be w) = 4"
  by (simp add: bytes32_def Let_def)

end
