(* ===== verification/Chat_Server.thy ===== *)
theory Chat_Server
  imports Thread_Pool Machine_Words
begin

text \<open>
  Model of the chat server of \<open>hatchNet-V100R001C01\<close>: the user list of \<open>hatchUserInfo.cpp\<close>, the message lists of
  \<open>hatchServices.cpp\<close>, the server protocol of \<open>hatchProtocol.cpp\<close> and one round of each of the three loops that
  receive, process and send packets (\<open>hatchNet.cpp\<close>, \<open>hatchServices.cpp\<close>), for \<open>SERVICES_TYPE\<close> 0.

  Messages live in a heap, because a handler hands its message on, changes it or deletes it; \<open>None\<close> is an access to a
  deleted message, past the end of a packet or of the user list, or a string that does not fit.  \<open>new\<close> throws when
  memory runs out, so its tests for \<open>NULL\<close> never succeed.  The critical section of the user list is the number of
  times its thread has entered it; only the processing thread of the server uses it.  Leaving it without having
  entered it is an error of the Windows API, after which entering it may block for ever: that is \<open>None\<close> as well.  A user is on the list or belongs to the handler that
  deletes it, so users are values.
\<close>

section \<open>Data\<close>

datatype UserStatus = User_Login | User_Online | User_Hide | User_Busy | User_NULL

record sockaddr_in =
  sin_family :: u16
  sin_port :: u16
  sin_addr :: u32
  sin_zero :: "u8 list"

text \<open>The uninitialised status of a new user is \<open>None\<close>.\<close>

record CHatchUserInfo =
  m_userIPAddr :: u32
  m_userPort :: u32
  m_sUserName :: "u8 list"
  m_eUserStatus :: "UserStatus option"
  m_ulIndex :: u32

text \<open>
  \<open>MsgSt\<close>, packed, with the size of its block in bytes.  A packet may end before the last fields; those are then
  outside the block.  What follows the user name is a text or the address of an update.
\<close>

record MsgSt =
  m_iSize :: nat
  m_msgFromAddr :: sockaddr_in
  m_protocolType :: u32
  m_chMsgSize :: u32
  m_msgSize :: u32
  m_msgType :: u32
  m_msgUserName :: "u8 list"
  m_msgRest :: "u8 list"

type_synonym msg_ptr = nat

record chat_server =
  g_vectUserList :: "CHatchUserInfo list"
  user_cs :: nat
  g_msgRecvList :: "msg_ptr list"
  g_msgRecvsemaphore :: nat
  g_msgSendList :: "msg_ptr list"
  g_msgSendsemaphore :: nat
  heap :: "msg_ptr \<rightharpoonup> MsgSt"
  next_ptr :: msg_ptr
  sent :: "MsgSt list" \<comment> \<open>the packets given to the network\<close>

definition USERNAME_MAX_LENGTH :: nat where "USERNAME_MAX_LENGTH = 32"
definition NET_READ_MESSAGE_LIST_MAX_LENGTH :: nat where "NET_READ_MESSAGE_LIST_MAX_LENGTH = 0x100"
definition NET_SEND_MESSAGE_LIST_MAX_LENGTH :: nat where "NET_SEND_MESSAGE_LIST_MAX_LENGTH = 0x100"
definition PTL_LMT :: u32 where "PTL_LMT = 1"
definition PTL_CHAT :: u32 where "PTL_CHAT = 2"
definition Login_type :: u32 where "Login_type = 1"
definition Update_type :: u32 where "Update_type = 2"
definition Status_type :: u32 where "Status_type = 3"
definition Text_type :: u32 where "Text_type = 4"
definition Logout_type :: u32 where "Logout_type = 5"
definition BackSyn_type :: u32 where "BackSyn_type = 6"
definition AF_INET :: u16 where "AF_INET = 2"

text \<open>Offsets of the ends of fields in the packed structure, and its parts.\<close>

definition end_protocolType :: nat where "end_protocolType = 24"
definition end_msgType :: nat where "end_msgType = 36"
definition end_msgUserName :: nat where "end_msgUserName = 68"
definition sizeof_UpdateDown :: nat where "sizeof_UpdateDown = 56"
definition Update_Offset :: nat where "Update_Offset = 28"

definition str_server :: "u8 list" where "str_server = map of_char ''server''"
definition str_error :: "u8 list" where "str_error = map of_char ''error''"

section \<open>Strings and the heap\<close>

definition c_string :: "u8 list \<Rightarrow> u8 list option" where
  "c_string a = (if 0 \<in> set a then Some (takeWhile (\<lambda>b. b \<noteq> 0) a) else None)"

text \<open>\<open>strcpy_s(dst, USERNAME_MAX_LENGTH, src)\<close>: a string that does not fit ends the program.\<close>

definition strcpy_s :: "u8 list \<Rightarrow> u8 list \<Rightarrow> u8 list option" where
  "strcpy_s dst src =
     (if length src < USERNAME_MAX_LENGTH then Some (src @ 0 # drop (length src + 1) dst) else None)"

definition read_to :: "nat \<Rightarrow> MsgSt \<Rightarrow> unit option" where
  "read_to n msg = (if n \<le> m_iSize msg then Some () else None)"

definition msg_name :: "MsgSt \<Rightarrow> u8 list option" where
  "msg_name msg = do { read_to end_msgUserName msg; c_string (m_msgUserName msg) }"

definition new_msg :: "MsgSt \<Rightarrow> chat_server \<Rightarrow> msg_ptr \<times> chat_server" where
  "new_msg msg s = (next_ptr s, s\<lparr>heap := (heap s)(next_ptr s \<mapsto> msg), next_ptr := next_ptr s + 1\<rparr>)"

definition delete_msg :: "msg_ptr \<Rightarrow> chat_server \<Rightarrow> chat_server option" where
  "delete_msg p s = (if heap s p = None then None else Some (s\<lparr>heap := (heap s)(p := None)\<rparr>))"

definition set_msg_name :: "msg_ptr \<Rightarrow> u8 list \<Rightarrow> chat_server \<Rightarrow> chat_server option" where
  "set_msg_name p name s = do {
     msg \<leftarrow> heap s p;
     read_to end_msgUserName msg;
     field \<leftarrow> strcpy_s (m_msgUserName msg) name;
     Some (s\<lparr>heap := (heap s)(p \<mapsto> msg\<lparr>m_msgUserName := field\<rparr>)\<rparr>) }"

section \<open>Users\<close>

definition new_user :: CHatchUserInfo where
  "new_user = \<lparr> m_userIPAddr = 0, m_userPort = 0, m_sUserName = replicate USERNAME_MAX_LENGTH 0,
     m_eUserStatus = None, m_ulIndex = - 1 \<rparr>"

definition hatchSetUserName :: "u8 list \<Rightarrow> CHatchUserInfo \<Rightarrow> CHatchUserInfo option" where
  "hatchSetUserName name u = do { f \<leftarrow> strcpy_s (m_sUserName u) name; Some (u\<lparr>m_sUserName := f\<rparr>) }"

definition hatchGetUserName :: "CHatchUserInfo \<Rightarrow> u8 list option" where
  "hatchGetUserName u = c_string (m_sUserName u)"

definition enter_users :: "chat_server \<Rightarrow> chat_server" where
  "enter_users s = s\<lparr>user_cs := user_cs s + 1\<rparr>"

definition leave_users :: "chat_server \<Rightarrow> chat_server option" where
  "leave_users s = (if user_cs s = 0 then None else Some (s\<lparr>user_cs := user_cs s - 1\<rparr>))"

text \<open>An iterator is an index; the end is the length of the list.\<close>

fun locate_from :: "u8 list \<Rightarrow> CHatchUserInfo list \<Rightarrow> nat \<Rightarrow> nat option" where
  "locate_from name [] i = Some i"
| "locate_from name (u # us) i = do {
     uName \<leftarrow> hatchGetUserName u;
     if uName = name then Some i else locate_from name us (i + 1) }"

definition hatchLocateUser :: "u8 list option \<Rightarrow> chat_server \<Rightarrow> (nat \<times> chat_server) option" where
  "hatchLocateUser name s = do {
     let s = enter_users s;
     (case name of
        None \<Rightarrow> if g_vectUserList s = [] then None else do { s \<leftarrow> leave_users s; Some (1, s) }
      | Some name \<Rightarrow> do { i \<leftarrow> locate_from name (g_vectUserList s) 0; s \<leftarrow> leave_users s; Some (i, s) }) }"

definition hatchPushUser :: "CHatchUserInfo \<Rightarrow> chat_server \<Rightarrow> (int \<times> chat_server) option" where
  "hatchPushUser user s = do {
     uName \<leftarrow> hatchGetUserName user;
     (ite, s) \<leftarrow> hatchLocateUser (Some uName) s;
     let s = enter_users s;
     if ite \<noteq> length (g_vectUserList s) then do { s \<leftarrow> leave_users s; Some (- 1, s) }
     else do { s \<leftarrow> leave_users (s\<lparr>g_vectUserList := g_vectUserList s @ [user]\<rparr>); Some (0, s) } }"

definition hatchPopUser :: "u8 list option \<Rightarrow> chat_server \<Rightarrow> (CHatchUserInfo option \<times> chat_server) option" where
  "hatchPopUser name s = do {
     (ite, s) \<leftarrow> hatchLocateUser name s;
     let s = enter_users s;
     let users = g_vectUserList s;
     let (tmpUser, s) = (if ite \<noteq> length users
       then (Some (users ! ite), s\<lparr>g_vectUserList := take ite users @ drop (ite + 1) users\<rparr>) else (None, s));
     s \<leftarrow> leave_users s;
     Some (tmpUser, s) }"

definition hatchIsUserInList :: "u8 list option \<Rightarrow> chat_server \<Rightarrow> (int \<times> chat_server) option" where
  "hatchIsUserInList name s = do {
     (ite, s) \<leftarrow> hatchLocateUser name s;
     let s = enter_users s;
     (ret, s) \<leftarrow> (if ite \<noteq> length (g_vectUserList s) then do { s \<leftarrow> leave_users s; Some (1, s) } else Some (0, s));
     s \<leftarrow> leave_users s;
     Some (ret, s) }"

section \<open>Message lists\<close>

definition hatchPushReadMsgList :: "msg_ptr \<Rightarrow> chat_server \<Rightarrow> int \<times> chat_server" where
  "hatchPushReadMsgList p s =
     (let (ret, cnt) = hatchReleaseSemaphore NET_READ_MESSAGE_LIST_MAX_LENGTH 1 (g_msgRecvsemaphore s) in
      (ret, if ret = 0 then s\<lparr>g_msgRecvsemaphore := cnt, g_msgRecvList := g_msgRecvList s @ [p]\<rparr> else s))"

definition hatchPushSendMsgList :: "msg_ptr \<Rightarrow> chat_server \<Rightarrow> int \<times> chat_server" where
  "hatchPushSendMsgList p s =
     (let (ret, cnt) = hatchReleaseSemaphore NET_SEND_MESSAGE_LIST_MAX_LENGTH 1 (g_msgSendsemaphore s) in
      (ret, if ret = 0 then s\<lparr>g_msgSendsemaphore := cnt, g_msgSendList := g_msgSendList s @ [p]\<rparr> else s))"

text \<open>\<open>front\<close> and \<open>pop\<close> of an empty queue are undefined.\<close>

definition hatchPopReadMsgList :: "chat_server \<Rightarrow> (msg_ptr \<times> chat_server) option" where
  "hatchPopReadMsgList s =
     (case g_msgRecvList s of [] \<Rightarrow> None | p # ps \<Rightarrow> Some (p, s\<lparr>g_msgRecvList := ps\<rparr>))"

definition hatchPopSendMsgList :: "chat_server \<Rightarrow> (msg_ptr \<times> chat_server) option" where
  "hatchPopSendMsgList s =
     (case g_msgSendList s of [] \<Rightarrow> None | p # ps \<Rightarrow> Some (p, s\<lparr>g_msgSendList := ps\<rparr>))"

text \<open>The copies for the users from \<open>ite\<close> on.\<close>

fun push_group :: "msg_ptr \<Rightarrow> CHatchUserInfo list \<Rightarrow> chat_server \<Rightarrow> chat_server option" where
  "push_group p [] s = Some s"
| "push_group p (u # us) s = do {
     msg \<leftarrow> heap s p;
     let (q, s) = new_msg (msg\<lparr>m_msgFromAddr := (m_msgFromAddr msg)
       \<lparr>sin_addr := m_userIPAddr u, sin_port := ucast (m_userPort u), sin_family := AF_INET\<rparr>\<rparr>) s;
     let (ret, s) = hatchPushSendMsgList q s;
     s \<leftarrow> (if ret = 0 then Some s else delete_msg q s);
     push_group p us s }"

definition hatchPushSendMsgGroup :: "msg_ptr \<Rightarrow> chat_server \<Rightarrow> (int \<times> chat_server) option" where
  "hatchPushSendMsgGroup p s = do {
     let s = enter_users s;
     if g_vectUserList s = [] then None
     else do {
       s \<leftarrow> push_group p (drop 1 (g_vectUserList s)) s;
       s \<leftarrow> delete_msg p s;
       s \<leftarrow> leave_users s;
       Some (0, s) } }"

section \<open>The server protocol\<close>

definition bytes16 :: "u16 \<Rightarrow> u8 list" where
  "bytes16 w = [ucast w, ucast (drop_bit 8 w)]"

definition addr_bytes :: "sockaddr_in \<Rightarrow> u8 list" where
  "addr_bytes a = bytes16 (sin_family a) @ bytes16 (sin_port a) @ bytes32 False (sin_addr a) @ sin_zero a"

text \<open>
  The update for the other users.  The name of the local structure \<open>updateDown\<close> is copied into \<open>stack\<close>, what the
  uninitialised array holds; the source makes this copy at the start of \<open>hatchMsgLogin\<close>, where it fails for the same
  names as the copy into the new user.  The address is read from the message again, after it was put on the send list.
\<close>

definition login_update :: "u8 list \<Rightarrow> msg_ptr \<Rightarrow> sockaddr_in \<Rightarrow> u8 list \<Rightarrow> chat_server \<Rightarrow> (int \<times> chat_server) option" where
  "login_update uName p userAddr stack s = do {
     name \<leftarrow> strcpy_s stack uName;
     msg \<leftarrow> heap s p;
     let (q, s) = new_msg \<lparr> m_iSize = sizeof_UpdateDown + Update_Offset, m_msgFromAddr = m_msgFromAddr msg,
       m_protocolType = PTL_CHAT, m_chMsgSize = 0, m_msgSize = of_nat sizeof_UpdateDown, m_msgType = Update_type,
       m_msgUserName = name, m_msgRest = addr_bytes userAddr \<rparr> s;
     hatchPushSendMsgGroup q s }"

text \<open>
  \<open>hatchMsgLogin\<close> up to the point where the answer is on the send list.  The result is \<open>Inl\<close> the value returned, or \<open>Inr\<close>
  what the rest of the function uses.
\<close>

definition login_answer ::
    "msg_ptr \<Rightarrow> chat_server \<Rightarrow> ((int + u8 list \<times> sockaddr_in) \<times> chat_server) option" where
  "login_answer p s = do {
     msg \<leftarrow> heap s p;
     uName \<leftarrow> msg_name msg;
     let userAddr = m_msgFromAddr msg;
     user \<leftarrow> hatchSetUserName uName
       (new_user\<lparr>m_userIPAddr := sin_addr userAddr, m_userPort := ucast (sin_port userAddr)\<rparr>);
     (ret, s) \<leftarrow> hatchPushUser user s;
     if ret < 0 then do {
       s \<leftarrow> set_msg_name p str_error s;
       let (_, s) = hatchPushSendMsgList p s;
       Some (Inl (- 1), s) }
     else do {
       s \<leftarrow> set_msg_name p str_server s;
       let (ret, s) = hatchPushSendMsgList p s;
       if ret < 0 then do {
         (_, s) \<leftarrow> hatchPopUser (Some uName) s;
         s \<leftarrow> delete_msg p s;
         Some (Inl ret, s) }
       else Some (Inr (uName, userAddr), s) } }"

definition hatchMsgLogin :: "u8 list \<Rightarrow> msg_ptr \<Rightarrow> chat_server \<Rightarrow> (int \<times> chat_server) option" where
  "hatchMsgLogin stack p s = do {
     (r, s) \<leftarrow> login_answer p s;
     (case r of
        Inl ret \<Rightarrow> Some (ret, s)
      | Inr (uName, userAddr) \<Rightarrow> login_update uName p userAddr stack s) }"

definition hatchMsgUpdate :: "msg_ptr \<Rightarrow> chat_server \<Rightarrow> (int \<times> chat_server) option" where
  "hatchMsgUpdate p s = do {
     msg \<leftarrow> heap s p;
     name \<leftarrow> msg_name msg;
     (ret, s) \<leftarrow> hatchIsUserInList (Some name) s;
     s \<leftarrow> (if ret = 0 then set_msg_name p str_error s else Some s);
     let (_, s) = hatchPushSendMsgList p s;
     Some (0, s) }"

text \<open>\<open>hatchMsgLogout\<close> from \<open>//pop user\<close> on, after the name was found in the list.\<close>

definition logout_user :: "u8 list \<Rightarrow> msg_ptr \<Rightarrow> chat_server \<Rightarrow> (int \<times> chat_server) option" where
  "logout_user name p s = do {
     (_, s) \<leftarrow> hatchPopUser (Some name) s;
     msg \<leftarrow> heap s p;
     let (q, s) = new_msg msg s;
     let (ret, s) = hatchPushSendMsgList q s;
     s \<leftarrow> (if ret < 0 then delete_msg q s else Some s);
     hatchPushSendMsgGroup p s }"

definition hatchMsgLogout :: "msg_ptr \<Rightarrow> chat_server \<Rightarrow> (int \<times> chat_server) option" where
  "hatchMsgLogout p s = do {
     msg \<leftarrow> heap s p;
     name \<leftarrow> msg_name msg;
     (ret, s) \<leftarrow> hatchIsUserInList (Some name) s;
     if ret = 0 then do { s \<leftarrow> delete_msg p s; Some (0, s) }
     else logout_user name p s }"

text \<open>The server keeps the empty \<open>hatchMsgText\<close> and \<open>hatchMsgBackSyn\<close>, and \<open>Status_type\<close> has no handler.\<close>

definition hatchMsgProc :: "u8 list \<Rightarrow> msg_ptr \<Rightarrow> chat_server \<Rightarrow> (int \<times> chat_server) option" where
  "hatchMsgProc stack p s = do {
     msg \<leftarrow> heap s p;
     read_to end_protocolType msg;
     if m_protocolType msg = PTL_CHAT then do {
       read_to end_msgType msg;
       let ty = m_msgType msg;
       if ty = Login_type then hatchMsgLogin stack p s
       else if ty = Update_type then hatchMsgUpdate p s
       else if ty = Status_type then Some (0, s)
       else if ty = Text_type then Some (0, s)
       else if ty = BackSyn_type then Some (0, s)
       else if ty = Logout_type then hatchMsgLogout p s
       else Some (- 1, s) }
     else if m_protocolType msg = PTL_LMT then Some (0, s)
     else Some (- 1, s) }"

section \<open>The three loops\<close>

text \<open>A packet arrives; \<open>msg\<close> is the block that holds it.\<close>

definition packet_recv :: "MsgSt \<Rightarrow> chat_server \<Rightarrow> chat_server option" where
  "packet_recv msg s = do {
     let (p, s) = new_msg msg s;
     let (ret, s) = hatchPushReadMsgList p s;
     if ret < 0 then delete_msg p s else Some s }"

text \<open>One round of \<open>hatchPacketProc\<close> and of \<open>hatchPacketSendProc\<close>, when the semaphore lets them go on.\<close>

definition packet_proc :: "u8 list \<Rightarrow> chat_server \<Rightarrow> chat_server option" where
  "packet_proc stack s = do {
     let s = s\<lparr>g_msgRecvsemaphore := g_msgRecvsemaphore s - 1\<rparr>;
     (p, s) \<leftarrow> hatchPopReadMsgList s;
     (_, s) \<leftarrow> hatchMsgProc stack p s;
     Some s }"

definition packet_send :: "chat_server \<Rightarrow> chat_server option" where
  "packet_send s = do {
     let s = s\<lparr>g_msgSendsemaphore := g_msgSendsemaphore s - 1\<rparr>;
     (p, s) \<leftarrow> hatchPopSendMsgList s;
     msg \<leftarrow> heap s p;
     delete_msg p (s\<lparr>sent := sent s @ [msg]\<rparr>) }"

text \<open>\<open>hatchInitialize\<close>: the first user is the server itself, at 192.168.2.1 and port 50681 in network byte order.\<close>

definition empty_server :: chat_server where
  "empty_server = \<lparr> g_vectUserList = [], user_cs = 0, g_msgRecvList = [], g_msgRecvsemaphore = 0, g_msgSendList = [],
     g_msgSendsemaphore = 0, heap = Map.empty, next_ptr = 1, sent = [] \<rparr>"

definition hatchInitialize_server :: "(int \<times> chat_server) option" where
  "hatchInitialize_server = do {
     user \<leftarrow> hatchSetUserName str_server (new_user\<lparr>m_ulIndex := 0, m_userIPAddr := 0x0102A8C0, m_userPort := 0xF9C5,
       m_eUserStatus := Some User_Online\<rparr>);
     hatchPushUser user empty_server }"

end
