(* ===== verification/Chat_Server_Correct.thy ===== *)
theory Chat_Server_Correct
  imports Chat_Server
begin

text \<open>
  Correctness of the chat server: an invariant of the user list, the message lists and the heap that every round of
  the receiving, processing and sending loops keeps, the message lists as bounded queues, the directory of users as
  an abstract specification that processing a packet refines, and the inputs and interleavings for which the server
  fails.
\<close>

section \<open>Invariant\<close>

definition user_name :: "CHatchUserInfo \<Rightarrow> u8 list" where
  "user_name u = takeWhile (\<lambda>b. b \<noteq> 0) (m_sUserName u)"

definition names :: "chat_server \<Rightarrow> u8 list list" where
  "names s = map user_name (g_vectUserList s)"

definition users_ok :: "chat_server \<Rightarrow> bool" where
  "users_ok s \<longleftrightarrow> (\<forall>u \<in> set (g_vectUserList s). 0 \<in> set (m_sUserName u)) \<and> distinct (names s) \<and>
     g_vectUserList s \<noteq> [] \<and> user_name (hd (g_vectUserList s)) = str_server \<and> user_cs s = 0"

text \<open>A packet whose handler finds the fields it reads, with a user name that ends inside its field.\<close>

definition good_msg :: "MsgSt \<Rightarrow> bool" where
  "good_msg m \<longleftrightarrow> end_protocolType \<le> m_iSize m \<and>
     (m_protocolType m = PTL_CHAT \<longrightarrow> end_msgUserName \<le> m_iSize m \<and> length (m_msgUserName m) = USERNAME_MAX_LENGTH \<and>
       0 \<in> set (m_msgUserName m))"

definition msgs_ok :: "chat_server \<Rightarrow> bool" where
  "msgs_ok s \<longleftrightarrow> distinct (g_msgRecvList s @ g_msgSendList s) \<and>
     (\<forall>p \<in> set (g_msgRecvList s). \<exists>m. heap s p = Some m \<and> good_msg m) \<and>
     (\<forall>p \<in> set (g_msgSendList s). heap s p \<noteq> None) \<and>
     (\<forall>p. heap s p \<noteq> None \<longrightarrow> p < next_ptr s) \<and>
     g_msgRecvsemaphore s = length (g_msgRecvList s) \<and> length (g_msgRecvList s) \<le> NET_READ_MESSAGE_LIST_MAX_LENGTH \<and>
     g_msgSendsemaphore s = length (g_msgSendList s) \<and> length (g_msgSendList s) \<le> NET_SEND_MESSAGE_LIST_MAX_LENGTH"

definition chat_inv :: "chat_server \<Rightarrow> bool" where
  "chat_inv s \<longleftrightarrow> users_ok s \<and> msgs_ok s"

text \<open>A message that a handler holds: it is allocated and on no list.\<close>

definition held :: "msg_ptr \<Rightarrow> MsgSt \<Rightarrow> chat_server \<Rightarrow> bool" where
  "held p m s \<longleftrightarrow> heap s p = Some m \<and> p \<notin> set (g_msgRecvList s) \<and> p \<notin> set (g_msgSendList s)"

text \<open>Handling a message does not change these parts of the state by itself.\<close>

definition same_users :: "chat_server \<Rightarrow> chat_server \<Rightarrow> bool" where
  "same_users s t \<longleftrightarrow> g_vectUserList t = g_vectUserList s \<and> user_cs t = user_cs s"

section \<open>The directory of users and the runs of the server\<close>

abbreviation the_name :: "MsgSt \<Rightarrow> u8 list" where
  "the_name m \<equiv> takeWhile (\<lambda>b. b \<noteq> 0) (m_msgUserName m)"

definition user_map :: "CHatchUserInfo list \<Rightarrow> u8 list \<rightharpoonup> u32 \<times> u32" where
  "user_map us = map_of (map (\<lambda>u. (user_name u, m_userIPAddr u, m_userPort u)) us)"

definition directory :: "chat_server \<Rightarrow> u8 list \<rightharpoonup> u32 \<times> u32" where
  "directory s = user_map (g_vectUserList s)"

definition send_full :: "chat_server \<Rightarrow> bool" where
  "send_full s \<longleftrightarrow> NET_SEND_MESSAGE_LIST_MAX_LENGTH \<le> g_msgSendsemaphore s"

text \<open>
  The packets whose handler finds their user in the list with \<open>hatchIsUserInList\<close>, which then leaves the critical
  section twice.
\<close>

definition asks_listed :: "MsgSt \<Rightarrow> chat_server \<Rightarrow> bool" where
  "asks_listed m s \<longleftrightarrow> m_protocolType m = PTL_CHAT \<and> (m_msgType m = Update_type \<or> m_msgType m = Logout_type) \<and>
     the_name m \<in> set (names s)"

text \<open>What a packet does to the directory of users, as the protocol describes it, when its user is not looked up.\<close>

definition directory_spec :: "bool \<Rightarrow> MsgSt \<Rightarrow> (u8 list \<rightharpoonup> u32 \<times> u32) \<Rightarrow> u8 list \<rightharpoonup> u32 \<times> u32" where
  "directory_spec full m d =
     (if m_protocolType m = PTL_CHAT \<and> m_msgType m = Login_type \<and> the_name m \<notin> dom d \<and> \<not> full
      then d(the_name m \<mapsto> (sin_addr (m_msgFromAddr m), ucast (sin_port (m_msgFromAddr m)))) else d)"

inductive chat_step :: "chat_server \<Rightarrow> chat_server \<Rightarrow> bool" where
  receive: "good_msg m \<Longrightarrow> packet_recv m s = Some t \<Longrightarrow> chat_step s t"
| process: "0 < g_msgRecvsemaphore s \<Longrightarrow> packet_proc stack s = Some t \<Longrightarrow> chat_step s t"
| send: "0 < g_msgSendsemaphore s \<Longrightarrow> packet_send s = Some t \<Longrightarrow> chat_step s t"

inductive chat_reachable :: "chat_server \<Rightarrow> bool" where
  start: "hatchInitialize_server = Some (0, s) \<Longrightarrow> chat_reachable s"
| next_packet: "chat_reachable s \<Longrightarrow> chat_step s t \<Longrightarrow> chat_reachable t"

text \<open>Two packets from the address 10.0.0.5: ann logs in, and somebody logs out the server.\<close>

definition example_packet :: "u32 \<Rightarrow> u8 list \<Rightarrow> MsgSt" where
  "example_packet ty name = \<lparr> m_iSize = 69, m_msgFromAddr = \<lparr> sin_family = AF_INET, sin_port = 0x1234,
     sin_addr = 0x0500000A, sin_zero = replicate 8 0 \<rparr>, m_protocolType = PTL_CHAT, m_chMsgSize = 0, m_msgSize = 41,
     m_msgType = ty, m_msgUserName = name @ replicate (32 - length name) 0, m_msgRest = [0] \<rparr>"

definition login_ann :: MsgSt where "login_ann = example_packet Login_type (map of_char ''ann'')"
definition logout_server :: MsgSt where "logout_server = example_packet Logout_type str_server"

text \<open>Calling an operation of a message list again and again.\<close>

primrec push_all :: "('p \<Rightarrow> 's \<Rightarrow> int \<times> 's) \<Rightarrow> 'p list \<Rightarrow> 's \<Rightarrow> int list \<times> 's" where
  "push_all push [] s = ([], s)"
| "push_all push (p # ps) s = (let (r, s) = push p s; (rs, s) = push_all push ps s in (r # rs, s))"

primrec pop_all :: "('s \<Rightarrow> ('p \<times> 's) option) \<Rightarrow> nat \<Rightarrow> 's \<Rightarrow> ('p list \<times> 's) option" where
  "pop_all pop 0 s = Some ([], s)"
| "pop_all pop (Suc n) s = do { (p, s) \<leftarrow> pop s; (ps, s) \<leftarrow> pop_all pop n s; Some (p # ps, s) }"

section \<open>The message lists\<close>

text \<open>
  The contract of a message list: a queue whose semaphore counts its messages up to a limit.  A push beyond the limit
  is refused and changes nothing.
\<close>

locale message_list =
  fixes push :: "'p \<Rightarrow> 's \<Rightarrow> int \<times> 's" and pop :: "'s \<Rightarrow> ('p \<times> 's) option"
    and content :: "'s \<Rightarrow> 'p list" and count :: "'s \<Rightarrow> nat" and limit :: nat
  assumes push_room: "count s < limit \<Longrightarrow>
      \<exists>t. push p s = (0, t) \<and> content t = content s @ [p] \<and> count t = count s + 1"
    and push_full: "limit \<le> count s \<Longrightarrow> push p s = (- 1, s)"
    and pop_front: "content s = p # ps \<Longrightarrow> \<exists>t. pop s = Some (p, t) \<and> content t = ps \<and> count t = count s"
begin

lemma push_all_full: "limit \<le> count s \<Longrightarrow> push_all push ps s = (replicate (length ps) (- 1), s)"
  by (induction ps) (simp_all add: push_full)

lemma push_all_content:
  "count s = length (content s) \<Longrightarrow> length (content s) \<le> limit \<Longrightarrow>
    \<exists>t. push_all push ps s = (replicate (min (limit - length (content s)) (length ps)) 0 @
        replicate (length ps - (limit - length (content s))) (- 1), t) \<and>
      content t = content s @ take (limit - length (content s)) ps"
proof (induction ps arbitrary: s)
  case (Cons p ps)
  show ?case
  proof (cases "count s < limit")
    case True
    then obtain t where t: "push p s = (0, t)" "content t = content s @ [p]" "count t = count s + 1" using push_room by blast
    then have "limit - length (content s) = Suc (limit - length (content t))" using True Cons.prems by simp
    then show ?thesis using Cons.IH [of t] t True Cons.prems by auto
  next
    case False
    then show ?thesis using Cons.prems push_all_full [of s "p # ps"] by simp
  qed
qed simp

lemma pop_all_content: "content s = ps @ qs \<Longrightarrow> \<exists>t. pop_all pop (length ps) s = Some (ps, t) \<and> content t = qs"
proof (induction ps arbitrary: s)
  case (Cons p ps)
  then obtain t where "pop s = Some (p, t)" "content t = ps @ qs" using pop_front [of s p "ps @ qs"] by auto
  then show ?case using Cons.IH [of t] by auto
qed simp

lemma first_in_first_out:
  assumes "count s = length (content s)" "length (content s) \<le> limit"
  shows "\<exists>t u. push_all push ps s = (replicate (min (limit - length (content s)) (length ps)) 0 @
        replicate (length ps - (limit - length (content s))) (- 1), t) \<and>
      pop_all pop (length (content t)) t = Some (content s @ take (limit - length (content s)) ps, u) \<and> content u = []"
  using push_all_content [OF assms, of ps] pop_all_content [of _ _ "[]"] by fastforce

end

interpretation recv_list: message_list hatchPushReadMsgList hatchPopReadMsgList g_msgRecvList g_msgRecvsemaphore
    NET_READ_MESSAGE_LIST_MAX_LENGTH
  by unfold_locales (auto simp: hatchPushReadMsgList_def hatchPopReadMsgList_def hatchReleaseSemaphore_def)

interpretation send_list: message_list hatchPushSendMsgList hatchPopSendMsgList g_msgSendList g_msgSendsemaphore
    NET_SEND_MESSAGE_LIST_MAX_LENGTH
  by unfold_locales (auto simp: hatchPushSendMsgList_def hatchPopSendMsgList_def hatchReleaseSemaphore_def)

section \<open>Strings\<close>

lemma c_string_Some: "c_string a = Some n \<longleftrightarrow> 0 \<in> set a \<and> n = takeWhile (\<lambda>b. b \<noteq> 0) a"
  by (auto simp: c_string_def)

lemma c_string_length: "0 \<in> set a \<Longrightarrow> length (takeWhile (\<lambda>b. b \<noteq> 0) a) < length a" for a :: "u8 list"
  by (induction a) auto

lemma no_zero: "0 \<notin> set (takeWhile (\<lambda>b. b \<noteq> 0) a)" for a :: "u8 list"
  by (auto dest: set_takeWhileD)

lemma strcpy_s_ok:
  assumes "length src < USERNAME_MAX_LENGTH" "0 \<notin> set src"
  shows "\<exists>f. strcpy_s dst src = Some f \<and> 0 \<in> set f \<and> takeWhile (\<lambda>b. b \<noteq> 0) f = src"
proof -
  have "takeWhile (\<lambda>b. b \<noteq> 0) (src @ 0 # xs) = src" for xs
    using assms(2) by (induction src) auto
  then show ?thesis using assms(1) by (auto simp: strcpy_s_def)
qed

lemma strcpy_s_length:
  "strcpy_s dst src = Some f \<Longrightarrow> length dst = USERNAME_MAX_LENGTH \<Longrightarrow> length f = USERNAME_MAX_LENGTH"
  by (auto simp: strcpy_s_def split: if_splits)

lemma str_consts [simp]: "length str_server < USERNAME_MAX_LENGTH" "length str_error < USERNAME_MAX_LENGTH"
  "0 \<notin> set str_server" "0 \<notin> set str_error"
  by (simp_all add: str_server_def str_error_def USERNAME_MAX_LENGTH_def)

section \<open>The user list\<close>

lemma locate_from_eq:
  "\<forall>u \<in> set us. 0 \<in> set (m_sUserName u) \<Longrightarrow>
    locate_from n us i = Some (i + length (takeWhile (\<lambda>u. user_name u \<noteq> n) us))"
  by (induction us arbitrary: i) (auto simp: hatchGetUserName_def c_string_def user_name_def)

lemma locate_end: "length (takeWhile (\<lambda>u. f u \<noteq> n) us) = length us \<longleftrightarrow> n \<notin> set (map f us)"
  by (induction us) auto

lemma leave_enter [simp]: "leave_users (enter_users s) = Some s"
  by (simp add: leave_users_def enter_users_def)

lemma enter_fields [simp]: "g_vectUserList (enter_users s) = g_vectUserList s"
  by (simp add: enter_users_def)

lemma hatchLocateUser_eq:
  "users_ok s \<Longrightarrow> hatchLocateUser (Some n) s = Some (length (takeWhile (\<lambda>u. user_name u \<noteq> n) (g_vectUserList s)), s)"
  by (simp add: hatchLocateUser_def locate_from_eq users_ok_def)

lemma remove_located:
  assumes "distinct (map f us)" "n \<in> set (map f us)"
  shows "take (length (takeWhile (\<lambda>u. f u \<noteq> n) us)) us @ drop (Suc (length (takeWhile (\<lambda>u. f u \<noteq> n) us))) us =
    filter (\<lambda>u. f u \<noteq> n) us"
  using assms
proof (induction us)
  case (Cons u us)
  show ?case
  proof (cases "f u = n")
    case True
    then have "n \<notin> f ` set us" using Cons.prems by auto
    then have "filter (\<lambda>u. f u \<noteq> n) us = us" by (auto simp: filter_id_conv)
    then show ?thesis using True by simp
  qed (use Cons in auto)
qed simp

lemma hatchPushUser_eq:
  assumes "users_ok s" "0 \<in> set (m_sUserName u)"
  shows "hatchPushUser u s =
    Some (if user_name u \<in> set (names s) then (- 1, s) else (0, s\<lparr>g_vectUserList := g_vectUserList s @ [u]\<rparr>))"
proof -
  have "hatchGetUserName u = Some (user_name u)" using assms(2) by (simp add: hatchGetUserName_def c_string_def user_name_def)
  then show ?thesis
    using hatchLocateUser_eq [OF assms(1), of "user_name u"] locate_end [of user_name "user_name u" "g_vectUserList s"]
    by (auto simp: hatchPushUser_def names_def) (simp_all add: leave_users_def enter_users_def)
qed

lemma hatchPopUser_eq:
  assumes "users_ok s" "n \<in> set (names s)"
  shows "\<exists>u. hatchPopUser (Some n) s = Some (Some u, s\<lparr>g_vectUserList := filter (\<lambda>u. user_name u \<noteq> n) (g_vectUserList s)\<rparr>)"
  using hatchLocateUser_eq [OF assms(1), of n] locate_end [of user_name n "g_vectUserList s"] assms
    remove_located [of user_name "g_vectUserList s" n]
  by (auto simp: hatchPopUser_def names_def users_ok_def leave_users_def enter_users_def Let_def)

lemma hatchIsUserInList_eq:
  "users_ok s \<Longrightarrow> hatchIsUserInList (Some n) s = (if n \<in> set (names s) then None else Some (0, s))"
  using hatchLocateUser_eq [of s n] locate_end [of user_name n "g_vectUserList s"]
  by (auto simp: hatchIsUserInList_def names_def leave_users_def enter_users_def users_ok_def Let_def)

section \<open>Messages\<close>

lemma new_msg_ok:
  assumes "msgs_ok s" "new_msg m s = (q, t)"
  shows "msgs_ok t" "held q m t" "same_users s t" "held p m' s \<Longrightarrow> held p m' t"
proof -
  have fresh: "heap s (next_ptr s) = None" using assms(1) by (auto simp: msgs_ok_def)
  then have "next_ptr s \<notin> set (g_msgRecvList s)" "next_ptr s \<notin> set (g_msgSendList s)"
    using assms(1) by (auto simp: msgs_ok_def)
  with fresh assms show "msgs_ok t" "held q m t" "same_users s t" "held p m' s \<Longrightarrow> held p m' t"
    by (auto simp: new_msg_def msgs_ok_def held_def same_users_def less_Suc_eq)
qed

lemma delete_msg_ok:
  assumes "msgs_ok s" "held p m s"
  shows "\<exists>t. delete_msg p s = Some t \<and> msgs_ok t \<and> same_users s t \<and> (\<forall>q m'. q \<noteq> p \<longrightarrow> held q m' s \<longrightarrow> held q m' t)"
  using assms by (auto simp: delete_msg_def msgs_ok_def held_def same_users_def)

lemma push_send_ok:
  assumes "msgs_ok s" "held p m s"
  shows "hatchPushSendMsgList p s =
      (if g_msgSendsemaphore s < NET_SEND_MESSAGE_LIST_MAX_LENGTH
       then (0, s\<lparr>g_msgSendsemaphore := g_msgSendsemaphore s + 1, g_msgSendList := g_msgSendList s @ [p]\<rparr>)
       else (- 1, s))"
    and "msgs_ok (snd (hatchPushSendMsgList p s))" "same_users s (snd (hatchPushSendMsgList p s))"
    and "q \<noteq> p \<Longrightarrow> held q m' s \<Longrightarrow> held q m' (snd (hatchPushSendMsgList p s))"
  using assms
  by (auto simp: hatchPushSendMsgList_def hatchReleaseSemaphore_def msgs_ok_def held_def same_users_def)

lemma dom_directory: "dom (directory s) = set (names s)"
  by (simp add: directory_def user_map_def names_def dom_map_of_conv_image_fst image_image)

lemma user_map_snoc:
  "user_name u \<notin> user_name ` set us \<Longrightarrow> user_map (us @ [u]) = (user_map us)(user_name u \<mapsto> (m_userIPAddr u, m_userPort u))"
  by (induction us) (auto simp: user_map_def fun_eq_iff)

lemma user_map_filter: "user_map (filter (\<lambda>u. user_name u \<noteq> n) us) = (user_map us)(n := None)"
  by (induction us) (auto simp: user_map_def fun_eq_iff)

lemma cs_fields [simp]:
  "msgs_ok (s\<lparr>user_cs := c\<rparr>) = msgs_ok s" "held p m (s\<lparr>user_cs := c\<rparr>) = held p m s"
  "msgs_ok (s\<lparr>g_vectUserList := us\<rparr>) = msgs_ok s" "held p m (s\<lparr>g_vectUserList := us\<rparr>) = held p m s"
  by (simp_all add: msgs_ok_def held_def)

lemma enter_leave_ok [simp]:
  "msgs_ok (enter_users s) = msgs_ok s" "held p m (enter_users s) = held p m s"
  by (simp_all add: enter_users_def)

lemma same_users_trans: "same_users s t \<Longrightarrow> same_users t u \<Longrightarrow> same_users s u"
  by (simp add: same_users_def)

lemma same_users_ok: "same_users s t \<Longrightarrow> users_ok s \<Longrightarrow> users_ok t" "same_users s t \<Longrightarrow> directory t = directory s"
  by (simp_all add: same_users_def users_ok_def names_def directory_def)

lemma push_group_ok:
  "msgs_ok s \<Longrightarrow> held p m s \<Longrightarrow> \<exists>t. push_group p us s = Some t \<and> msgs_ok t \<and> held p m t \<and> same_users s t"
proof (induction us arbitrary: s)
  case Nil
  then show ?case by (simp add: same_users_def)
next
  case (Cons u us)
  let ?m = "m\<lparr>m_msgFromAddr := (m_msgFromAddr m)
    \<lparr>sin_addr := m_userIPAddr u, sin_port := ucast (m_userPort u), sin_family := AF_INET\<rparr>\<rparr>"
  obtain q s1 where new: "new_msg ?m s = (q, s1)" by (cases "new_msg ?m s")
  note s1 = new_msg_ok [OF Cons.prems(1) new] 
  have p1: "held p m s1" using s1(4) Cons.prems(2) .
  have "q \<noteq> p" using s1(2) p1 new Cons.prems by (auto simp: held_def new_msg_def msgs_ok_def)
  obtain ret s2 where push: "hatchPushSendMsgList q s1 = (ret, s2)" by (cases "hatchPushSendMsgList q s1")
  have s2: "msgs_ok s2" "same_users s1 s2" "held p m s2"
    using push_send_ok(2,3) [OF s1(1,2)] push_send_ok(4) [OF s1(1,2) \<open>q \<noteq> p\<close> [symmetric] p1] push by simp_all
  have "\<exists>s3. (if ret = 0 then Some s2 else delete_msg q s2) = Some s3 \<and> msgs_ok s3 \<and> same_users s s3 \<and> held p m s3"
  proof (cases "ret = 0")
    case True
    then show ?thesis using s2 s1(3) same_users_trans by auto
  next
    case False
    then have "s2 = s1" using push push_send_ok(1) [OF s1(1,2)] by (auto split: if_splits)
    then show ?thesis using False delete_msg_ok [OF s1(1,2)] s1(3) p1 \<open>q \<noteq> p\<close> same_users_trans by auto
  qed
  then obtain s3 where s3: "(if ret = 0 then Some s2 else delete_msg q s2) = Some s3" "msgs_ok s3" "same_users s s3" "held p m s3"
    by blast
  obtain t where "push_group p us s3 = Some t" "msgs_ok t" "held p m t" "same_users s3 t"
    using Cons.IH [OF s3(2,4)] by blast
  moreover have "heap s p = Some m" using Cons.prems(2) by (simp add: held_def)
  ultimately show ?case using new push s3 same_users_trans by auto
qed

lemma group_ok:
  assumes "msgs_ok s" "held p m s" "g_vectUserList s \<noteq> []"
  shows "\<exists>t. hatchPushSendMsgGroup p s = Some (0, t) \<and> msgs_ok t \<and> same_users s t"
proof -
  obtain t where t: "push_group p (drop 1 (g_vectUserList s)) (enter_users s) = Some t" "msgs_ok t" "held p m t"
      "same_users (enter_users s) t"
    using push_group_ok [of "enter_users s" p m] assms by auto
  obtain u where "delete_msg p t = Some u" "msgs_ok u" "same_users t u" using delete_msg_ok [OF t(2,3)] by blast
  then show ?thesis
    using t assms(3) by (auto simp: hatchPushSendMsgGroup_def same_users_def enter_users_def leave_users_def)
qed

lemma set_msg_name_ok:
  assumes "msgs_ok s" "held p m s" "end_msgUserName \<le> m_iSize m" "length str < USERNAME_MAX_LENGTH" "0 \<notin> set str"
  shows "\<exists>t m'. set_msg_name p str s = Some t \<and> msgs_ok t \<and> held p m' t \<and> same_users s t \<and>
    g_msgSendsemaphore t = g_msgSendsemaphore s"
proof -
  obtain f where "strcpy_s (m_msgUserName m) str = Some f" using strcpy_s_ok [OF assms(4,5)] by blast
  then show ?thesis
    using assms by (auto simp: set_msg_name_def held_def read_to_def msgs_ok_def same_users_def)
qed

section \<open>The handlers\<close>

lemma good_name:
  assumes "good_msg m" "m_protocolType m = PTL_CHAT"
  shows "msg_name m = Some (the_name m)" "length (the_name m) < USERNAME_MAX_LENGTH" "end_msgUserName \<le> m_iSize m"
  using assms c_string_length [of "m_msgUserName m"]
  by (auto simp: good_msg_def msg_name_def read_to_def c_string_def)

lemma login_update_ok:
  assumes "chat_inv s" "heap s p \<noteq> None" "length n < USERNAME_MAX_LENGTH" "0 \<notin> set n"
  shows "\<exists>t. login_update n p a stack s = Some (0, t) \<and> chat_inv t \<and> directory t = directory s"
proof -
  obtain f where f: "strcpy_s stack n = Some f" using strcpy_s_ok [OF assms(3,4)] by blast
  obtain m where m: "heap s p = Some m" using assms(2) by blast
  let ?u = "\<lparr> m_iSize = sizeof_UpdateDown + Update_Offset, m_msgFromAddr = m_msgFromAddr m,
       m_protocolType = PTL_CHAT, m_chMsgSize = 0, m_msgSize = of_nat sizeof_UpdateDown, m_msgType = Update_type,
       m_msgUserName = f, m_msgRest = addr_bytes a \<rparr>"
  obtain q s1 where new: "new_msg ?u s = (q, s1)" by (cases "new_msg ?u s")
  note s1 = new_msg_ok [OF _ new]
  have "g_vectUserList s1 \<noteq> []" using assms(1) s1(3) by (auto simp: chat_inv_def users_ok_def same_users_def)
  then obtain t where "hatchPushSendMsgGroup q s1 = Some (0, t)" "msgs_ok t" "same_users s1 t"
    using group_ok [of s1 q] s1(1,2) assms(1) by (auto simp: chat_inv_def)
  then show ?thesis
    using f m new s1(3) assms(1) same_users_ok [of s t] same_users_trans [of s s1 t]
    by (auto simp: login_update_def chat_inv_def)
qed

lemma users_ok_snoc:
  assumes "users_ok s" "0 \<in> set (m_sUserName u)" "user_name u \<notin> set (names s)"
  shows "users_ok (s\<lparr>g_vectUserList := g_vectUserList s @ [u]\<rparr>)"
    and "directory (s\<lparr>g_vectUserList := g_vectUserList s @ [u]\<rparr>) = (directory s)(user_name u \<mapsto> (m_userIPAddr u, m_userPort u))"
  using assms by (auto simp: users_ok_def names_def directory_def user_map_snoc)

lemma users_ok_filter:
  assumes "users_ok s" "n \<noteq> str_server"
  shows "users_ok (s\<lparr>g_vectUserList := filter (\<lambda>u. user_name u \<noteq> n) (g_vectUserList s)\<rparr>)"
    and "directory (s\<lparr>g_vectUserList := filter (\<lambda>u. user_name u \<noteq> n) (g_vectUserList s)\<rparr>) = (directory s)(n := None)"
proof -
  obtain u us where "g_vectUserList s = u # us" "user_name u = str_server"
    using assms(1) by (cases "g_vectUserList s") (auto simp: users_ok_def)
  then show "users_ok (s\<lparr>g_vectUserList := filter (\<lambda>u. user_name u \<noteq> n) (g_vectUserList s)\<rparr>)"
    using assms by (auto simp: users_ok_def names_def distinct_map_filter)
  show "directory (s\<lparr>g_vectUserList := filter (\<lambda>u. user_name u \<noteq> n) (g_vectUserList s)\<rparr>) = (directory s)(n := None)"
    by (simp add: directory_def user_map_filter)
qed

lemma push_send_inv:
  assumes "chat_inv s" "held p m s"
  shows "chat_inv (snd (hatchPushSendMsgList p s))" "directory (snd (hatchPushSendMsgList p s)) = directory s"
  using push_send_ok(2,3) [of s p m] same_users_ok assms by (auto simp: chat_inv_def)

lemma login_rejected:
  assumes "chat_inv s" "held p m s" "good_msg m" "m_protocolType m = PTL_CHAT" "the_name m \<in> set (names s)"
  shows "\<exists>t. login_answer p s = Some (Inl (- 1), t) \<and> chat_inv t \<and> directory t = directory s"
proof -
  let ?new = "new_user\<lparr>m_userIPAddr := sin_addr (m_msgFromAddr m), m_userPort := ucast (sin_port (m_msgFromAddr m))\<rparr>"
  note name = good_name [OF assms(3,4)]
  obtain f where f: "strcpy_s (m_sUserName ?new) (the_name m) = Some f" "0 \<in> set f" "takeWhile (\<lambda>b. b \<noteq> 0) f = the_name m"
    using strcpy_s_ok [OF name(2) no_zero] by blast
  let ?u = "?new\<lparr>m_sUserName := f\<rparr>"
  have u: "hatchSetUserName (the_name m) ?new = Some ?u" using f(1) by (simp only: hatchSetUserName_def Option.bind.bind_lunit)
  have push: "hatchPushUser ?u s = Some (- 1, s)"
    using hatchPushUser_eq [of s ?u] assms(1,5) f by (simp add: chat_inv_def user_name_def)
  obtain t m' where t: "set_msg_name p str_error s = Some t" "msgs_ok t" "held p m' t" "same_users s t"
    using set_msg_name_ok [of s p m str_error] assms(1,2) name(3) by (auto simp: chat_inv_def)
  then have inv: "chat_inv t" "directory t = directory s" using assms(1) same_users_ok [of s t] by (auto simp: chat_inv_def)
  have "login_answer p s = Some (Inl (- 1), snd (hatchPushSendMsgList p t))"
    using assms(2) name(1) u push t(1)
    by (simp add: login_answer_def held_def Let_def split_beta)
  then show ?thesis using push_send_inv [OF inv(1) t(3)] inv(2) by simp
qed

lemma login_accepted:
  assumes "chat_inv s" "held p m s" "good_msg m" "m_protocolType m = PTL_CHAT" "the_name m \<notin> set (names s)"
  shows "\<exists>r t. login_answer p s = Some (r, t) \<and> chat_inv t \<and>
    (if send_full s then (\<exists>i. r = Inl i) \<and> directory t = directory s
     else r = Inr (the_name m, m_msgFromAddr m) \<and> p \<in> set (g_msgSendList t) \<and>
       g_msgSendList t = g_msgSendList s @ [p] \<and>
       directory t = (directory s)(the_name m \<mapsto> (sin_addr (m_msgFromAddr m), ucast (sin_port (m_msgFromAddr m)))))"
proof -
  let ?new = "new_user\<lparr>m_userIPAddr := sin_addr (m_msgFromAddr m), m_userPort := ucast (sin_port (m_msgFromAddr m))\<rparr>"
  note name = good_name [OF assms(3,4)]
  obtain f where f: "strcpy_s (m_sUserName ?new) (the_name m) = Some f" "0 \<in> set f" "takeWhile (\<lambda>b. b \<noteq> 0) f = the_name m"
    using strcpy_s_ok [OF name(2) no_zero] by blast
  let ?u = "?new\<lparr>m_sUserName := f\<rparr>"
  let ?s = "s\<lparr>g_vectUserList := g_vectUserList s @ [?u]\<rparr>"
  have u: "hatchSetUserName (the_name m) ?new = Some ?u" using f(1) by (simp only: hatchSetUserName_def Option.bind.bind_lunit)
  have un: "user_name ?u = the_name m" using f(3) by (simp add: user_name_def)
  have push: "hatchPushUser ?u s = Some (0, ?s)"
    using hatchPushUser_eq [of s ?u] assms(1,5) f(2) un by (simp add: chat_inv_def)
  have s1: "users_ok ?s" "directory ?s = (directory s)(the_name m \<mapsto> (sin_addr (m_msgFromAddr m), ucast (sin_port (m_msgFromAddr m))))"
    using users_ok_snoc [of s ?u] assms(1,5) f(2) un by (simp_all add: chat_inv_def)
  obtain t m' where t: "set_msg_name p str_server ?s = Some t" "msgs_ok t" "held p m' t" "same_users ?s t"
      "g_msgSendsemaphore t = g_msgSendsemaphore ?s"
    using set_msg_name_ok [of ?s p m str_server] assms(1,2) name(3) by (auto simp: chat_inv_def)
  have inv: "chat_inv t" "directory t = directory ?s" using t(2,4) s1(1) same_users_ok [of ?s t] by (auto simp: chat_inv_def)
  have lists: "g_msgSendList t = g_msgSendList s" using t(1) by (auto simp: set_msg_name_def split: bind_splits)
  show ?thesis
  proof (cases "send_full s")
    case False
    then have ps: "hatchPushSendMsgList p t =
        (0, t\<lparr>g_msgSendsemaphore := g_msgSendsemaphore t + 1, g_msgSendList := g_msgSendList t @ [p]\<rparr>)"
      using push_send_ok(1) [OF t(2,3)] t(5) by (simp add: send_full_def)
    let ?t = "snd (hatchPushSendMsgList p t)"
    have "login_answer p s = Some (Inr (the_name m, m_msgFromAddr m), ?t)"
      using assms(2) name(1) u push t(1) ps by (simp add: login_answer_def held_def Let_def)
    moreover have "chat_inv ?t" "directory ?t = directory ?s" using push_send_inv [OF inv(1) t(3)] inv(2) by simp_all
    ultimately show ?thesis using False s1(2) ps lists by simp
  next
    case True
    then have ps: "hatchPushSendMsgList p t = (- 1, t)"
      using push_send_ok(1) [OF t(2,3)] t(5) by (simp add: send_full_def)
    have users: "g_vectUserList t = g_vectUserList s @ [?u]" using t(4) by (simp add: same_users_def)
    then have "the_name m \<in> set (names t)" using un by (simp add: names_def)
    then obtain w where pop: "hatchPopUser (Some (the_name m)) t =
        Some (Some w, t\<lparr>g_vectUserList := filter (\<lambda>u. user_name u \<noteq> the_name m) (g_vectUserList t)\<rparr>)"
      using hatchPopUser_eq [of t] inv(1) by (auto simp: chat_inv_def)
    have "filter (\<lambda>u. user_name u \<noteq> the_name m) (g_vectUserList t) = g_vectUserList s"
      using assms(5) un by (force simp: users names_def filter_id_conv)
    then have pop': "hatchPopUser (Some (the_name m)) t = Some (Some w, t\<lparr>g_vectUserList := g_vectUserList s\<rparr>)"
      using pop by simp
    let ?t = "t\<lparr>g_vectUserList := g_vectUserList s\<rparr>"
    have "msgs_ok ?t" "held p m' ?t" using t(2,3) by simp_all
    then obtain v where v: "delete_msg p ?t = Some v" "msgs_ok v" "same_users ?t v" using delete_msg_ok by blast
    then have "users_ok v" "directory v = directory s"
      using assms(1) t(4) by (simp_all add: chat_inv_def users_ok_def names_def same_users_def directory_def)
    moreover have "login_answer p s = Some (Inl (- 1), v)"
      using assms(2) name(1) u push t(1) ps pop' v(1) by (simp add: login_answer_def held_def Let_def)
    ultimately show ?thesis using True v(2) by (simp add: chat_inv_def)
  qed
qed

lemma hatchMsgLogin_ok:
  assumes "chat_inv s" "held p m s" "good_msg m" "m_protocolType m = PTL_CHAT"
  shows "\<exists>r t. hatchMsgLogin stack p s = Some (r, t) \<and> chat_inv t \<and>
    directory t = (if the_name m \<in> dom (directory s) \<or> send_full s then directory s
      else (directory s)(the_name m \<mapsto> (sin_addr (m_msgFromAddr m), ucast (sin_port (m_msgFromAddr m)))))"
proof (cases "the_name m \<in> set (names s)")
  case True
  then show ?thesis
    using login_rejected [OF assms] by (auto simp: hatchMsgLogin_def dom_directory)
next
  case False
  then obtain r t where t: "login_answer p s = Some (r, t)" "chat_inv t"
      "if send_full s then (\<exists>i. r = Inl i) \<and> directory t = directory s
       else r = Inr (the_name m, m_msgFromAddr m) \<and> p \<in> set (g_msgSendList t) \<and>
         g_msgSendList t = g_msgSendList s @ [p] \<and>
         directory t = (directory s)(the_name m \<mapsto> (sin_addr (m_msgFromAddr m), ucast (sin_port (m_msgFromAddr m))))"
    using login_accepted [OF assms] by blast
  show ?thesis
  proof (cases "send_full s")
    case True
    then show ?thesis using t by (auto simp: hatchMsgLogin_def)
  next
    case not_full: False
    then have "heap t p \<noteq> None" using t(2,3) by (auto simp: chat_inv_def msgs_ok_def)
    then obtain v where "login_update (the_name m) p (m_msgFromAddr m) stack t = Some (0, v)" "chat_inv v" "directory v = directory t"
      using login_update_ok [OF t(2)] good_name(2) [OF assms(3,4)] no_zero by blast
    then show ?thesis
      using t not_full False by (auto simp: hatchMsgLogin_def dom_directory)
  qed
qed

lemma hatchMsgUpdate_ok:
  assumes "chat_inv s" "held p m s" "good_msg m" "m_protocolType m = PTL_CHAT"
  shows "if the_name m \<in> set (names s) then hatchMsgUpdate p s = None
    else \<exists>t. hatchMsgUpdate p s = Some (0, t) \<and> chat_inv t \<and> directory t = directory s"
proof -
  note name = good_name [OF assms(3,4)]
  obtain t m' where t: "set_msg_name p str_error s = Some t" "msgs_ok t" "held p m' t" "same_users s t"
    using set_msg_name_ok [of s p m str_error] assms(1,2) name(3) by (auto simp: chat_inv_def)
  then have inv: "chat_inv t" "directory t = directory s" using assms(1) same_users_ok [of s t] by (auto simp: chat_inv_def)
  have "hatchMsgUpdate p s = (if the_name m \<in> set (names s) then None else Some (0, snd (hatchPushSendMsgList p t)))"
    using assms(1,2) name(1) t(1) hatchIsUserInList_eq [of s "the_name m"]
    by (simp add: hatchMsgUpdate_def held_def chat_inv_def split_beta)
  then show ?thesis using push_send_inv [OF inv(1) t(3)] inv(2) by simp
qed

lemma logout_user_ok:
  assumes "chat_inv s" "held p m s" "n \<in> set (names s)" "n \<noteq> str_server"
  shows "\<exists>t. logout_user n p s = Some (0, t) \<and> chat_inv t \<and> directory t = (directory s)(n := None)"
proof -
  define s2 where "s2 = s\<lparr>g_vectUserList := filter (\<lambda>u. user_name u \<noteq> n) (g_vectUserList s)\<rparr>"
  have u: "users_ok s" using assms(1) by (simp add: chat_inv_def)
  obtain w where pop: "hatchPopUser (Some n) s = Some (Some w, s2)"
    using hatchPopUser_eq [OF u assms(3)] by (auto simp: s2_def)
  have s2: "users_ok s2" "directory s2 = (directory s)(n := None)" "msgs_ok s2" "held p m s2"
    using users_ok_filter [OF u assms(4)] assms(1,2) by (simp_all add: s2_def chat_inv_def)
  obtain q s3 where new: "new_msg m s2 = (q, s3)" by (cases "new_msg m s2")
  note s3 = new_msg_ok [OF s2(3) new]
  have p3: "held p m s3" using s3(4) s2(4) .
  have "q \<noteq> p" using new s2(3,4) by (auto simp: new_msg_def held_def msgs_ok_def)
  obtain ret s4 where push: "hatchPushSendMsgList q s3 = (ret, s4)" by (cases "hatchPushSendMsgList q s3")
  have "\<exists>s5. (if ret < 0 then delete_msg q s4 else Some s4) = Some s5 \<and> msgs_ok s5 \<and> held p m s5 \<and> same_users s3 s5"
    using push_send_ok [OF s3(1,2)] push_send_ok(4) [OF s3(1,2) \<open>q \<noteq> p\<close> [symmetric] p3] push p3
      delete_msg_ok [OF s3(1,2)] \<open>q \<noteq> p\<close> by (auto split: if_splits)
  then obtain s5 where s5: "(if ret < 0 then delete_msg q s4 else Some s4) = Some s5" "msgs_ok s5" "held p m s5" "same_users s3 s5"
    by blast
  have u5: "same_users s2 s5" using s3(3) s5(4) same_users_trans by blast
  then have "g_vectUserList s5 \<noteq> []" using s2(1) by (auto simp: same_users_def users_ok_def)
  then obtain t where t: "hatchPushSendMsgGroup p s5 = Some (0, t)" "msgs_ok t" "same_users s5 t"
    using group_ok [OF s5(2,3)] by blast
  then have "same_users s2 t" using u5 same_users_trans by blast
  moreover have "logout_user n p s = Some (0, t)"
    using pop new push s5(1) t(1) s2(4) by (simp add: logout_user_def held_def)
  ultimately show ?thesis using t(2) s2(1,2) same_users_ok [of s2 t] by (auto simp: chat_inv_def)
qed

lemma hatchMsgLogout_ok:
  assumes "chat_inv s" "held p m s" "good_msg m" "m_protocolType m = PTL_CHAT"
  shows "if the_name m \<in> set (names s) then hatchMsgLogout p s = None
    else \<exists>t. hatchMsgLogout p s = Some (0, t) \<and> chat_inv t \<and> directory t = directory s"
proof -
  note name = good_name [OF assms(3,4)]
  obtain t where t: "delete_msg p s = Some t" "msgs_ok t" "same_users s t"
    using delete_msg_ok [of s p m] assms(1,2) by (auto simp: chat_inv_def)
  then show ?thesis
    using assms(1,2) name(1) hatchIsUserInList_eq [of s "the_name m"] same_users_ok [of s t]
    by (auto simp: hatchMsgLogout_def held_def chat_inv_def)
qed

section \<open>The loops\<close>

lemma hatchMsgProc_ok:
  assumes "chat_inv s" "held p m s" "good_msg m"
  shows "if asks_listed m s then hatchMsgProc stack p s = None
    else \<exists>r t. hatchMsgProc stack p s = Some (r, t) \<and> chat_inv t \<and> directory t = directory_spec (send_full s) m (directory s)"
proof (cases "m_protocolType m = PTL_CHAT")
  case False
  then show ?thesis using assms by (auto simp: hatchMsgProc_def held_def good_msg_def read_to_def directory_spec_def asks_listed_def)
next
  case True
  note types = Login_type_def Update_type_def Status_type_def Text_type_def BackSyn_type_def Logout_type_def
  have r: "read_to end_protocolType m = Some ()" "read_to end_msgType m = Some ()" "heap s p = Some m"
    using assms(2,3) True
    by (auto simp: good_msg_def read_to_def held_def end_protocolType_def end_msgType_def end_msgUserName_def)
  consider (login) "m_msgType m = Login_type" | (update) "m_msgType m = Update_type" | (logout) "m_msgType m = Logout_type"
    | (other) "m_msgType m \<notin> {Login_type, Update_type, Logout_type}" by blast
  then show ?thesis
  proof cases
    case login
    then show ?thesis
      using r True hatchMsgLogin_ok [OF assms True, of stack]
      by (auto simp: hatchMsgProc_def asks_listed_def directory_spec_def types Let_def split: if_splits)
  next
    case update
    then show ?thesis
      using r True hatchMsgUpdate_ok [OF assms True]
      by (auto simp: hatchMsgProc_def asks_listed_def directory_spec_def types Let_def split: if_splits)
  next
    case logout
    then show ?thesis
      using r True hatchMsgLogout_ok [OF assms True]
      by (auto simp: hatchMsgProc_def asks_listed_def directory_spec_def types Let_def split: if_splits)
  next
    case other
    then show ?thesis
      using r True assms(1) by (auto simp: hatchMsgProc_def asks_listed_def directory_spec_def Let_def)
  qed
qed

lemma packet_proc_ok:
  assumes "chat_inv s" "g_msgRecvList s = p # ps" "heap s p = Some m"
  shows "if asks_listed m s then packet_proc stack s = None
    else \<exists>t. packet_proc stack s = Some t \<and> chat_inv t \<and> directory t = directory_spec (send_full s) m (directory s)"
proof -
  let ?s = "s\<lparr>g_msgRecvsemaphore := g_msgRecvsemaphore s - 1, g_msgRecvList := ps\<rparr>"
  have "chat_inv ?s" "held p m ?s" "good_msg m" "asks_listed m ?s = asks_listed m s" "send_full ?s = send_full s"
      "directory ?s = directory s"
    using assms
    by (auto simp: chat_inv_def msgs_ok_def users_ok_def names_def held_def asks_listed_def directory_def send_full_def)
  then show ?thesis
    using hatchMsgProc_ok [of ?s p m stack] assms(2) by (auto simp: packet_proc_def hatchPopReadMsgList_def split: if_splits)
qed

lemma packet_recv_ok:
  assumes "chat_inv s" "good_msg m"
  shows "\<exists>t. packet_recv m s = Some t \<and> chat_inv t"
proof -
  obtain q s1 where new: "new_msg m s = (q, s1)" by (cases "new_msg m s")
  have s1: "msgs_ok s1" "held q m s1" "same_users s s1" using new_msg_ok [OF _ new] assms(1) by (auto simp: chat_inv_def)
  then have "users_ok s1" using assms(1) same_users_ok by (auto simp: chat_inv_def)
  moreover obtain t where "delete_msg q s1 = Some t" "msgs_ok t" "same_users s1 t" using delete_msg_ok [OF s1(1,2)] by blast
  ultimately show ?thesis
    using new s1 assms(2) same_users_ok(1) [of s1 t]
    by (auto simp: packet_recv_def hatchPushReadMsgList_def hatchReleaseSemaphore_def chat_inv_def msgs_ok_def held_def
        users_ok_def names_def)
qed

lemma packet_send_ok:
  assumes "chat_inv s" "0 < g_msgSendsemaphore s"
  shows "\<exists>t. packet_send s = Some t \<and> chat_inv t"
proof -
  obtain p ps where "g_msgSendList s = p # ps" using assms by (cases "g_msgSendList s") (auto simp: chat_inv_def msgs_ok_def)
  then show ?thesis
    using assms
    by (auto simp: packet_send_def hatchPopSendMsgList_def delete_msg_def chat_inv_def msgs_ok_def users_ok_def names_def)
qed

lemma login_ann_good: "good_msg login_ann" "the_name login_ann = map of_char ''ann''"
  by (simp_all add: good_msg_def login_ann_def example_packet_def end_protocolType_def end_msgUserName_def
      USERNAME_MAX_LENGTH_def Login_type_def Logout_type_def)

lemma logout_server_name: "msg_name logout_server = Some str_server"
  by (simp add: msg_name_def read_to_def end_msgUserName_def logout_server_def example_packet_def c_string_def str_server_def)

lemma start_exists: "\<exists>s. hatchInitialize_server = Some (0, s)"
proof -
  obtain f where "strcpy_s (m_sUserName (new_user\<lparr>m_ulIndex := 0, m_userIPAddr := 0x0102A8C0, m_userPort := 0xF9C5,
      m_eUserStatus := Some User_Online\<rparr>)) str_server = Some f" "0 \<in> set f"
    using strcpy_s_ok [of str_server] by auto
  then show ?thesis
    by (simp add: hatchInitialize_server_def hatchSetUserName_def hatchPushUser_def hatchGetUserName_def c_string_def
        hatchLocateUser_def empty_server_def enter_users_def leave_users_def)
qed

lemma start_inv:
  assumes "hatchInitialize_server = Some (r, s)"
  shows "chat_inv s" "r = 0" "names s = [str_server]" "g_msgSendList s = []" "g_msgRecvList s = []"
proof -
  let ?new = "new_user\<lparr>m_ulIndex := 0, m_userIPAddr := 0x0102A8C0, m_userPort := 0xF9C5, m_eUserStatus := Some User_Online\<rparr>"
  obtain f where f: "strcpy_s (m_sUserName ?new) str_server = Some f" "0 \<in> set f" "takeWhile (\<lambda>b. b \<noteq> 0) f = str_server"
    using strcpy_s_ok [of str_server] by auto
  let ?u = "?new\<lparr>m_sUserName := f\<rparr>"
  have "hatchInitialize_server = Some (0, empty_server\<lparr>g_vectUserList := [?u]\<rparr>)"
    unfolding hatchInitialize_server_def hatchSetUserName_def f(1) Option.bind.bind_lunit
    using f(2) by (simp add: hatchPushUser_def hatchGetUserName_def c_string_def hatchLocateUser_def empty_server_def
        enter_users_def leave_users_def)
  with assms have "Some (r, s) = Some (0, empty_server\<lparr>g_vectUserList := [?u]\<rparr>)" by (rule trans [OF sym])
  then have s: "s = empty_server\<lparr>g_vectUserList := [?u]\<rparr>" "r = 0" by blast+
  show "r = 0" by (fact s(2))
  show "chat_inv s" "names s = [str_server]" "g_msgSendList s = []" "g_msgRecvList s = []"
    using f(2,3) by (simp_all add: s(1) chat_inv_def users_ok_def msgs_ok_def names_def user_name_def empty_server_def)
qed

lemma chat_step_inv: "chat_step s t \<Longrightarrow> chat_inv s \<Longrightarrow> chat_inv t"
proof (induction rule: chat_step.induct)
  case (receive m s t)
  then show ?case using packet_recv_ok by force
next
  case (process s stack t)
  obtain p ps where l: "g_msgRecvList s = p # ps"
    using process by (cases "g_msgRecvList s") (auto simp: chat_inv_def msgs_ok_def)
  then obtain m where "heap s p = Some m" using process(3) by (auto simp: chat_inv_def msgs_ok_def)
  then show ?case using packet_proc_ok [OF process(3) l, of m stack] process(2) by (auto split: if_splits)
next
  case (send s t)
  then show ?case using packet_send_ok by force
qed

lemma chat_reachable_inv: "chat_reachable s \<Longrightarrow> chat_inv s"
  by (induction rule: chat_reachable.induct) (auto dest: start_inv(1) chat_step_inv)

text \<open>
  C4. Whatever sequence of well-formed packets arrives, and however whole rounds of receiving, processing and
  sending interleave: user names stay distinct and the first user stays the server, the critical section is left as
  often as it was entered, the queues stay within their limits of 256 and hold distinct messages that are still
  allocated.  Receiving and sending never fail; a round of processing fails exactly when its packet is an update or a
  logout for a user in the list, and never accesses a deleted message, leaves an array or pops an empty queue.
\<close>

theorem chat_server_safe:
  assumes "chat_reachable s"
  shows "distinct (names s) \<and> names s \<noteq> [] \<and> hd (names s) = str_server \<and> user_cs s = 0 \<and>
    length (g_msgRecvList s) \<le> 256 \<and> length (g_msgSendList s) \<le> 256 \<and>
    distinct (g_msgRecvList s @ g_msgSendList s) \<and> (\<forall>p \<in> set (g_msgRecvList s @ g_msgSendList s). heap s p \<noteq> None) \<and>
    (\<forall>m. good_msg m \<longrightarrow> packet_recv m s \<noteq> None) \<and> (0 < g_msgSendsemaphore s \<longrightarrow> packet_send s \<noteq> None) \<and>
    (0 < g_msgRecvsemaphore s \<longrightarrow>
      (\<exists>p ps m. g_msgRecvList s = p # ps \<and> heap s p = Some m \<and> (packet_proc stack s = None \<longleftrightarrow> asks_listed m s)))"
proof -
  have inv: "chat_inv s" using assms by (rule chat_reachable_inv)
  have "\<exists>p ps m. g_msgRecvList s = p # ps \<and> heap s p = Some m \<and> (packet_proc stack s = None \<longleftrightarrow> asks_listed m s)"
    if sem: "0 < g_msgRecvsemaphore s"
  proof -
    obtain p ps where l: "g_msgRecvList s = p # ps" using sem inv by (cases "g_msgRecvList s") (auto simp: chat_inv_def msgs_ok_def)
    then obtain m where "heap s p = Some m" using inv by (auto simp: chat_inv_def msgs_ok_def)
    then show ?thesis using packet_proc_ok [OF inv l, of m stack] l by (auto split: if_splits)
  qed
  moreover have "\<forall>m. good_msg m \<longrightarrow> packet_recv m s \<noteq> None" using packet_recv_ok [OF inv] by fastforce
  moreover have "0 < g_msgSendsemaphore s \<longrightarrow> packet_send s \<noteq> None" using packet_send_ok [OF inv] by fastforce
  moreover have "names s \<noteq> []" "hd (names s) = str_server" "distinct (names s)" "user_cs s = 0"
    using inv by (auto simp: chat_inv_def users_ok_def names_def hd_map)
  ultimately show ?thesis
    using inv by (auto simp: chat_inv_def msgs_ok_def NET_READ_MESSAGE_LIST_MAX_LENGTH_def NET_SEND_MESSAGE_LIST_MAX_LENGTH_def)
qed

theorem chat_server_safe_witness:
  "\<exists>s. chat_reachable s \<and> names s = [str_server] \<and> packet_recv login_ann s \<noteq> None"
proof -
  obtain s where s: "hatchInitialize_server = Some (0, s)" using start_exists by blast
  then have "chat_reachable s" by (rule chat_reachable.start)
  then show ?thesis using chat_server_safe [of s] start_inv(3) [OF s] login_ann_good(1) by blast
qed

text \<open>
  C5. The directory of users refines the protocol.  Processing a login enters the name with the sender's address and
  port, unless the name is taken or the send list is full; every other packet that does not fail, and receiving and
  sending, leave the directory as it is.  The part of a logout after the look-up, on a user other than the server,
  returns, keeps the invariant and removes exactly that user.
\<close>

theorem chat_directory_refines:
  assumes "chat_reachable s" "g_msgRecvList s = p # ps" "heap s p = Some m"
  shows "(\<not> asks_listed m s \<longrightarrow> (\<exists>t. packet_proc stack s = Some t \<and>
      directory t = directory_spec (256 \<le> length (g_msgSendList s)) m (directory s))) \<and>
    (\<forall>t. packet_send s = Some t \<longrightarrow> directory t = directory s) \<and>
    (\<forall>m' t. packet_recv m' s = Some t \<longrightarrow> directory t = directory s) \<and>
    (\<forall>q m' n. held q m' s \<and> n \<in> dom (directory s) \<and> n \<noteq> str_server \<longrightarrow>
      (\<exists>t. logout_user n q s = Some (0, t) \<and> chat_inv t \<and> directory t = (directory s)(n := None)))"
proof -
  have inv: "chat_inv s" using assms(1) by (rule chat_reachable_inv)
  then have "send_full s = (256 \<le> length (g_msgSendList s))"
    by (auto simp: send_full_def NET_SEND_MESSAGE_LIST_MAX_LENGTH_def chat_inv_def msgs_ok_def)
  moreover have "\<not> asks_listed m s \<Longrightarrow> \<exists>t. packet_proc stack s = Some t \<and> directory t = directory_spec (send_full s) m (directory s)"
    using packet_proc_ok [OF inv assms(2,3), of stack] by auto
  moreover have "directory t = directory s" if "packet_send s = Some t" for t
    using that by (auto simp: packet_send_def hatchPopSendMsgList_def delete_msg_def directory_def split: list.splits bind_splits if_splits)
  moreover have "directory t = directory s" if "packet_recv m' s = Some t" for m' t
    using that
    by (auto simp: packet_recv_def new_msg_def hatchPushReadMsgList_def hatchReleaseSemaphore_def delete_msg_def directory_def split: if_splits)
  ultimately show ?thesis using logout_user_ok [OF inv] by (simp add: dom_directory) blast
qed

theorem chat_directory_refines_witness:
  "\<exists>s t. chat_reachable s \<and> directory s (map of_char ''ann'') = None \<and> packet_proc (replicate 32 0) s = Some t \<and>
     directory t (map of_char ''ann'') = Some (0x0500000A, 0x1234)"
proof -
  obtain s where s: "hatchInitialize_server = Some (0, s)" using start_exists by blast
  then have r: "chat_reachable s" by (rule chat_reachable.start)
  obtain t where t: "packet_recv login_ann s = Some t" using packet_recv_ok [OF start_inv(1) [OF s] login_ann_good(1)] by blast
  then have rt: "chat_reachable t" using r login_ann_good(1) chat_step.receive chat_reachable.next_packet by blast
  have l: "g_msgRecvList t = [next_ptr s]" "heap t (next_ptr s) = Some login_ann" "g_msgSendList t = []" "names t = [str_server]"
    using t start_inv [OF s]
    by (auto simp: packet_recv_def new_msg_def hatchPushReadMsgList_def hatchReleaseSemaphore_def chat_inv_def msgs_ok_def
        NET_READ_MESSAGE_LIST_MAX_LENGTH_def names_def)
  have "(map of_char ''ann'' :: u8 list) \<noteq> str_server" by (simp add: str_server_def)
  then have d: "directory t (map of_char ''ann'') = None" using dom_directory [of t] l(4) by auto
  have "\<not> asks_listed login_ann t"
    by (simp add: asks_listed_def login_ann_def example_packet_def Login_type_def Update_type_def Logout_type_def)
  then obtain u where "packet_proc (replicate 32 0) t = Some u" "directory u = directory_spec False login_ann (directory t)"
    using chat_directory_refines [OF rt l(1,2), of "replicate 32 0"] l(3) by auto
  then show ?thesis
    using rt d login_ann_good(2)
    by (intro exI [of _ t] exI [of _ u]) (auto simp: directory_spec_def login_ann_def example_packet_def)
qed

text \<open>
  C6. Both message lists hand messages on in the order they came: of the messages pushed in any reachable state the
  first ones are accepted while the list has fewer than 256, the others are refused with -1, and popping returns the
  older messages and then the accepted ones, each once.
\<close>

theorem chat_lists_fifo:
  assumes "chat_reachable s"
  shows "(\<exists>t u. push_all hatchPushReadMsgList ps s = (replicate (min (256 - length (g_msgRecvList s)) (length ps)) 0 @
        replicate (length ps - (256 - length (g_msgRecvList s))) (- 1), t) \<and>
      pop_all hatchPopReadMsgList (length (g_msgRecvList t)) t =
        Some (g_msgRecvList s @ take (256 - length (g_msgRecvList s)) ps, u) \<and> g_msgRecvList u = []) \<and>
    (\<exists>t u. push_all hatchPushSendMsgList ps s = (replicate (min (256 - length (g_msgSendList s)) (length ps)) 0 @
        replicate (length ps - (256 - length (g_msgSendList s))) (- 1), t) \<and>
      pop_all hatchPopSendMsgList (length (g_msgSendList t)) t =
        Some (g_msgSendList s @ take (256 - length (g_msgSendList s)) ps, u) \<and> g_msgSendList u = [])"
  using recv_list.first_in_first_out [of s ps] send_list.first_in_first_out [of s ps] chat_reachable_inv [OF assms]
  by (simp add: chat_inv_def msgs_ok_def NET_READ_MESSAGE_LIST_MAX_LENGTH_def NET_SEND_MESSAGE_LIST_MAX_LENGTH_def)

theorem chat_lists_fifo_witness:
  "\<exists>s t u. push_all hatchPushSendMsgList [7, 8] s = ([0, 0], t) \<and> pop_all hatchPopSendMsgList 2 t = Some ([7, 8], u)"
proof -
  obtain s where s: "hatchInitialize_server = Some (0, s)" using start_exists by blast
  have e: "g_msgSendList s = []" using start_inv [OF s] by blast
  obtain t u where p: "push_all hatchPushSendMsgList [7, 8] s = ([0, 0], t)"
    and q: "pop_all hatchPopSendMsgList (length (g_msgSendList t)) t = Some ([7, 8], u)"
    using chat_lists_fifo [OF chat_reachable.start [OF s], of "[7, 8]"] e by (auto simp: numeral_2_eq_2)
  have "g_msgSendList t = [7, 8]" using p e
    by (auto simp: hatchPushSendMsgList_def hatchReleaseSemaphore_def Let_def split: if_splits)
  then have "length (g_msgSendList t) = 2" by simp
  then have "pop_all hatchPopSendMsgList 2 t = Some ([7, 8], u)" using q by (simp only:)
  then show ?thesis using p by blast
qed

section \<open>Faults\<close>

lemma short_packet_fault:
  "heap s p = Some m \<Longrightarrow> m_iSize m < end_protocolType \<or> m_protocolType m = PTL_CHAT \<and> m_iSize m < end_msgType \<Longrightarrow>
    hatchMsgProc stack p s = None"
  by (auto simp: hatchMsgProc_def read_to_def)

lemma logout_server_fault:
  assumes "users_ok s" "names s = [str_server]" "heap s p = Some m"
  shows "logout_user str_server p s = None"
proof -
  obtain w where pop: "hatchPopUser (Some str_server) s =
      Some (Some w, s\<lparr>g_vectUserList := filter (\<lambda>u. user_name u \<noteq> str_server) (g_vectUserList s)\<rparr>)"
    using hatchPopUser_eq [OF assms(1), of str_server] assms(2) by auto
  have "filter (\<lambda>u. user_name u \<noteq> str_server) (g_vectUserList s) = []"
    using assms(2) by (auto simp: names_def filter_empty_conv)
  then have "hatchPopUser (Some str_server) s = Some (Some w, s\<lparr>g_vectUserList := []\<rparr>)" using pop by simp
  then show ?thesis
    using assms(3)
    by (auto simp: logout_user_def new_msg_def hatchPushSendMsgList_def hatchReleaseSemaphore_def delete_msg_def
        hatchPushSendMsgGroup_def enter_users_def Let_def)
qed

lemma login_race_fault:
  assumes "chat_inv s" "held p m s" "good_msg m" "m_protocolType m = PTL_CHAT" "the_name m \<notin> set (names s)"
    and "g_msgSendList s = []"
  shows "\<exists>t u. login_answer p s = Some (Inr (the_name m, m_msgFromAddr m), t) \<and> packet_send t = Some u \<and>
    login_update (the_name m) p (m_msgFromAddr m) stack u = None"
proof -
  have "\<not> send_full s" using assms(1,6)
    by (auto simp: send_full_def chat_inv_def msgs_ok_def NET_SEND_MESSAGE_LIST_MAX_LENGTH_def)
  then obtain t where t: "login_answer p s = Some (Inr (the_name m, m_msgFromAddr m), t)" "chat_inv t" "g_msgSendList t = [p]"
    using login_accepted [OF assms(1-5)] assms(6) by auto
  then obtain m' where "heap t p = Some m'" by (auto simp: chat_inv_def msgs_ok_def)
  then show ?thesis
    using t by (auto simp: packet_send_def hatchPopSendMsgList_def delete_msg_def login_update_def strcpy_s_def)
qed

text \<open>
  C7. What goes wrong outside the conditions of the properties above.  A packet that is shorter than the fields the
  dispatcher reads is read past its end.  Looking up a user in the list with \<open>hatchIsUserInList\<close> leaves the critical
  section once more than it was entered, so no update or logout of a user in the list works.  Logging out the server
  itself, while nobody else is logged in, empties the user list and then steps past its end.  When the sender gets to
  run between the two halves of a login, the second half reads the answer after it was sent and deleted.
\<close>

theorem chat_server_faults:
  assumes "chat_inv s" "held p m s"
  shows "(m_iSize m < end_protocolType \<or> m_protocolType m = PTL_CHAT \<and> m_iSize m < end_msgType \<longrightarrow>
      hatchMsgProc stack p s = None) \<and>
    (n \<in> set (names s) \<longrightarrow> hatchIsUserInList (Some n) s = None) \<and>
    (msg_name m = Some n \<and> n \<in> set (names s) \<longrightarrow> hatchMsgUpdate p s = None \<and> hatchMsgLogout p s = None) \<and>
    (names s = [str_server] \<longrightarrow> logout_user str_server p s = None) \<and>
    (good_msg m \<and> m_protocolType m = PTL_CHAT \<and> the_name m \<notin> set (names s) \<and> g_msgSendList s = [] \<longrightarrow>
      (\<exists>t u. login_answer p s = Some (Inr (the_name m, m_msgFromAddr m), t) \<and> packet_send t = Some u \<and>
        login_update (the_name m) p (m_msgFromAddr m) stack u = None))"
proof -
  have u: "users_ok s" and h: "heap s p = Some m" using assms by (simp_all add: chat_inv_def held_def)
  have listed: "hatchIsUserInList (Some n) s = None" if "n \<in> set (names s)"
    using hatchIsUserInList_eq [OF u, of n] that by simp
  then have "hatchMsgUpdate p s = None \<and> hatchMsgLogout p s = None" if "msg_name m = Some n \<and> n \<in> set (names s)"
    using that h by (simp add: hatchMsgUpdate_def hatchMsgLogout_def)
  then show ?thesis
    using short_packet_fault [OF h, of stack] logout_server_fault [OF u _ h] login_race_fault [OF assms, of stack] listed
    by blast
qed

theorem chat_server_faults_witness:
  "\<exists>s p. chat_inv s \<and> held p logout_server s \<and> names s = [str_server] \<and> hatchMsgLogout p s = None \<and>
     logout_user str_server p s = None"
proof -
  obtain s where s: "hatchInitialize_server = Some (0, s)" using start_exists by blast
  obtain p t where new: "new_msg logout_server s = (p, t)" by (cases "new_msg logout_server s")
  have t: "msgs_ok t" "held p logout_server t" "same_users s t"
    using new_msg_ok [OF _ new] start_inv(1) [OF s] by (auto simp: chat_inv_def)
  then have "chat_inv t" "names t = [str_server]"
    using start_inv(1,3) [OF s] same_users_ok(1) [of s t] by (auto simp: chat_inv_def same_users_def names_def)
  then show ?thesis using chat_server_faults [of t p logout_server _ str_server] t(2) logout_server_name by force
qed

end
