(* ===== verification/MD5.thy ===== *)
theory MD5
  imports Prelude
begin

text \<open>
  The MD5 routines of \<open>hatch/src/utility/md5/md5.cpp\<close> and the macros of \<open>md5.h\<close>: the streaming
  context, the four entry points \<open>MD5Init\<close>, \<open>MD5Update\<close>, \<open>MD5Final\<close>, \<open>MD5Transform\<close> and the
  byte/word conversions.  \<open>unsigned int\<close> is a 32-bit word and \<open>unsigned char\<close> an 8-bit word.
  The macro calls of \<open>MD5Transform\<close> assign to the four local variables \<open>a\<close>, \<open>b\<close>, \<open>c\<close>, \<open>d\<close>;
  the model keeps these in a register list and a macro call is a function on it.
  The second half states RFC 1321's definition of the digest over the whole message (table-driven
  steps, padding, block iteration); the streaming code computes it for
  every way of cutting the message into \<open>MD5Update\<close> calls (theory \<open>MD5_Correct\<close>).
\<close>

section \<open>The code\<close>

subsection \<open>Context and macros\<close>

record MD5_CTX =
  ctx_count :: "u32 list"
  ctx_state :: "u32 list"
  ctx_buffer :: "u8 list"

definition MD5_F :: "u32 \<Rightarrow> u32 \<Rightarrow> u32 \<Rightarrow> u32" where
  "MD5_F x y z = (x AND y) OR (NOT x AND z)"

definition MD5_G :: "u32 \<Rightarrow> u32 \<Rightarrow> u32 \<Rightarrow> u32" where
  "MD5_G x y z = (x AND z) OR (y AND NOT z)"

definition MD5_H :: "u32 \<Rightarrow> u32 \<Rightarrow> u32 \<Rightarrow> u32" where
  "MD5_H x y z = (x XOR y) XOR z"

definition MD5_I :: "u32 \<Rightarrow> u32 \<Rightarrow> u32 \<Rightarrow> u32" where
  "MD5_I x y z = y XOR (x OR NOT z)"

definition ROTATE_LEFT :: "u32 \<Rightarrow> nat \<Rightarrow> u32" where
  "ROTATE_LEFT x n = push_bit n x OR drop_bit (32 - n) x"

text \<open>\<open>FF a b c d x s ac\<close> on the register list; the first four arguments are register numbers.\<close>

definition FF :: "nat \<Rightarrow> nat \<Rightarrow> nat \<Rightarrow> nat \<Rightarrow> u32 \<Rightarrow> nat \<Rightarrow> u32 \<Rightarrow> u32 list \<Rightarrow> u32 list" where
  "FF a b c d x s ac r =
     r[a := ROTATE_LEFT (r ! a + (MD5_F (r ! b) (r ! c) (r ! d) + x + ac)) s + r ! b]"

definition GG :: "nat \<Rightarrow> nat \<Rightarrow> nat \<Rightarrow> nat \<Rightarrow> u32 \<Rightarrow> nat \<Rightarrow> u32 \<Rightarrow> u32 list \<Rightarrow> u32 list" where
  "GG a b c d x s ac r =
     r[a := ROTATE_LEFT (r ! a + (MD5_G (r ! b) (r ! c) (r ! d) + x + ac)) s + r ! b]"

definition HH :: "nat \<Rightarrow> nat \<Rightarrow> nat \<Rightarrow> nat \<Rightarrow> u32 \<Rightarrow> nat \<Rightarrow> u32 \<Rightarrow> u32 list \<Rightarrow> u32 list" where
  "HH a b c d x s ac r =
     r[a := ROTATE_LEFT (r ! a + (MD5_H (r ! b) (r ! c) (r ! d) + x + ac)) s + r ! b]"

definition II :: "nat \<Rightarrow> nat \<Rightarrow> nat \<Rightarrow> nat \<Rightarrow> u32 \<Rightarrow> nat \<Rightarrow> u32 \<Rightarrow> u32 list \<Rightarrow> u32 list" where
  "II a b c d x s ac r =
     r[a := ROTATE_LEFT (r ! a + (MD5_I (r ! b) (r ! c) (r ! d) + x + ac)) s + r ! b]"

abbreviation (input) ra :: nat where "ra \<equiv> 0"
abbreviation (input) rb :: nat where "rb \<equiv> 1"
abbreviation (input) rc :: nat where "rc \<equiv> 2"
abbreviation (input) rd :: nat where "rd \<equiv> 3"

subsection \<open>Initialisation and the byte/word conversions\<close>

definition MD5Init :: "MD5_CTX \<Rightarrow> MD5_CTX" where
  "MD5Init c = c\<lparr>ctx_count := (ctx_count c)[0 := 0, 1 := 0],
      ctx_state := (ctx_state c)[0 := 0x67452301, 1 := 0xEFCDAB89, 2 := 0x98BADCFE, 3 := 0x10325476]\<rparr>"

text \<open>
  The loops of \<open>MD5Encode\<close> and \<open>MD5Decode\<close>, with their two indices \<open>i\<close> and \<open>j\<close>.  All calls pass
  a length of 8, 16 or 64, so \<open>j\<close> does not wrap around.
\<close>

function MD5Encode_loop :: "u8 list \<Rightarrow> u32 list \<Rightarrow> nat \<Rightarrow> nat \<Rightarrow> nat \<Rightarrow> u8 list option" where
  "MD5Encode_loop output input len i j =
     (if j < len then do {
        w \<leftarrow> arr_get input i;
        output \<leftarrow> arr_set output j (ucast (w AND 0xFF));
        output \<leftarrow> arr_set output (j + 1) (ucast (drop_bit 8 w AND 0xFF));
        output \<leftarrow> arr_set output (j + 2) (ucast (drop_bit 16 w AND 0xFF));
        output \<leftarrow> arr_set output (j + 3) (ucast (drop_bit 24 w AND 0xFF));
        MD5Encode_loop output input len (i + 1) (j + 4) }
      else Some output)"
  by pat_completeness auto
termination
  by (relation "measure (\<lambda>(out, inp, len, i, j). len - j)") auto

definition MD5Encode :: "u8 list \<Rightarrow> u32 list \<Rightarrow> nat \<Rightarrow> u8 list option" where
  "MD5Encode output input len = MD5Encode_loop output input len 0 0"

function MD5Decode_loop :: "u32 list \<Rightarrow> u8 list \<Rightarrow> nat \<Rightarrow> nat \<Rightarrow> nat \<Rightarrow> u32 list option" where
  "MD5Decode_loop output input len i j =
     (if j < len then do {
        b0 \<leftarrow> arr_get input j;
        b1 \<leftarrow> arr_get input (j + 1);
        b2 \<leftarrow> arr_get input (j + 2);
        b3 \<leftarrow> arr_get input (j + 3);
        output \<leftarrow> arr_set output i
          (ucast b0 OR push_bit 8 (ucast b1) OR push_bit 16 (ucast b2) OR push_bit 24 (ucast b3));
        MD5Decode_loop output input len (i + 1) (j + 4) }
      else Some output)"
  by pat_completeness auto
termination
  by (relation "measure (\<lambda>(out, inp, len, i, j). len - j)") auto

definition MD5Decode :: "u32 list \<Rightarrow> u8 list \<Rightarrow> nat \<Rightarrow> u32 list option" where
  "MD5Decode output input len = MD5Decode_loop output input len 0 0"

declare MD5Encode_loop.simps [simp del] MD5Decode_loop.simps [simp del]

subsection \<open>The compression function\<close>

definition MD5_round1 :: "u32 list \<Rightarrow> (u32 list \<Rightarrow> u32 list) list" where
  "MD5_round1 x =
    [FF ra rb rc rd (x ! 0) 7 0xd76aa478,
     FF rd ra rb rc (x ! 1) 12 0xe8c7b756,
     FF rc rd ra rb (x ! 2) 17 0x242070db,
     FF rb rc rd ra (x ! 3) 22 0xc1bdceee,
     FF ra rb rc rd (x ! 4) 7 0xf57c0faf,
     FF rd ra rb rc (x ! 5) 12 0x4787c62a,
     FF rc rd ra rb (x ! 6) 17 0xa8304613,
     FF rb rc rd ra (x ! 7) 22 0xfd469501,
     FF ra rb rc rd (x ! 8) 7 0x698098d8,
     FF rd ra rb rc (x ! 9) 12 0x8b44f7af,
     FF rc rd ra rb (x ! 10) 17 0xffff5bb1,
     FF rb rc rd ra (x ! 11) 22 0x895cd7be,
     FF ra rb rc rd (x ! 12) 7 0x6b901122,
     FF rd ra rb rc (x ! 13) 12 0xfd987193,
     FF rc rd ra rb (x ! 14) 17 0xa679438e,
     FF rb rc rd ra (x ! 15) 22 0x49b40821]"

definition MD5_round2 :: "u32 list \<Rightarrow> (u32 list \<Rightarrow> u32 list) list" where
  "MD5_round2 x =
    [GG ra rb rc rd (x ! 1) 5 0xf61e2562,
     GG rd ra rb rc (x ! 6) 9 0xc040b340,
     GG rc rd ra rb (x ! 11) 14 0x265e5a51,
     GG rb rc rd ra (x ! 0) 20 0xe9b6c7aa,
     GG ra rb rc rd (x ! 5) 5 0xd62f105d,
     GG rd ra rb rc (x ! 10) 9 0x2441453,
     GG rc rd ra rb (x ! 15) 14 0xd8a1e681,
     GG rb rc rd ra (x ! 4) 20 0xe7d3fbc8,
     GG ra rb rc rd (x ! 9) 5 0x21e1cde6,
     GG rd ra rb rc (x ! 14) 9 0xc33707d6,
     GG rc rd ra rb (x ! 3) 14 0xf4d50d87,
     GG rb rc rd ra (x ! 8) 20 0x455a14ed,
     GG ra rb rc rd (x ! 13) 5 0xa9e3e905,
     GG rd ra rb rc (x ! 2) 9 0xfcefa3f8,
     GG rc rd ra rb (x ! 7) 14 0x676f02d9,
     GG rb rc rd ra (x ! 12) 20 0x8d2a4c8a]"

definition MD5_round3 :: "u32 list \<Rightarrow> (u32 list \<Rightarrow> u32 list) list" where
  "MD5_round3 x =
    [HH ra rb rc rd (x ! 5) 4 0xfffa3942,
     HH rd ra rb rc (x ! 8) 11 0x8771f681,
     HH rc rd ra rb (x ! 11) 16 0x6d9d6122,
     HH rb rc rd ra (x ! 14) 23 0xfde5380c,
     HH ra rb rc rd (x ! 1) 4 0xa4beea44,
     HH rd ra rb rc (x ! 4) 11 0x4bdecfa9,
     HH rc rd ra rb (x ! 7) 16 0xf6bb4b60,
     HH rb rc rd ra (x ! 10) 23 0xbebfbc70,
     HH ra rb rc rd (x ! 13) 4 0x289b7ec6,
     HH rd ra rb rc (x ! 0) 11 0xeaa127fa,
     HH rc rd ra rb (x ! 3) 16 0xd4ef3085,
     HH rb rc rd ra (x ! 6) 23 0x4881d05,
     HH ra rb rc rd (x ! 9) 4 0xd9d4d039,
     HH rd ra rb rc (x ! 12) 11 0xe6db99e5,
     HH rc rd ra rb (x ! 15) 16 0x1fa27cf8,
     HH rb rc rd ra (x ! 2) 23 0xc4ac5665]"

definition MD5_round4 :: "u32 list \<Rightarrow> (u32 list \<Rightarrow> u32 list) list" where
  "MD5_round4 x =
    [II ra rb rc rd (x ! 0) 6 0xf4292244,
     II rd ra rb rc (x ! 7) 10 0x432aff97,
     II rc rd ra rb (x ! 14) 15 0xab9423a7,
     II rb rc rd ra (x ! 5) 21 0xfc93a039,
     II ra rb rc rd (x ! 12) 6 0x655b59c3,
     II rd ra rb rc (x ! 3) 10 0x8f0ccc92,
     II rc rd ra rb (x ! 10) 15 0xffeff47d,
     II rb rc rd ra (x ! 1) 21 0x85845dd1,
     II ra rb rc rd (x ! 8) 6 0x6fa87e4f,
     II rd ra rb rc (x ! 15) 10 0xfe2ce6e0,
     II rc rd ra rb (x ! 6) 15 0xa3014314,
     II rb rc rd ra (x ! 13) 21 0x4e0811a1,
     II ra rb rc rd (x ! 4) 6 0xf7537e82,
     II rd ra rb rc (x ! 11) 10 0xbd3af235,
     II rc rd ra rb (x ! 2) 15 0x2ad7d2bb,
     II rb rc rd ra (x ! 9) 21 0xeb86d391]"

text \<open>
  The local array \<open>x[64]\<close> starts uninitialised; only the sixteen words that \<open>MD5Decode\<close> writes
  are read.
\<close>

definition MD5Transform :: "u32 list \<Rightarrow> u8 list \<Rightarrow> u32 list option" where
  "MD5Transform state block = do {
     a \<leftarrow> arr_get state 0;
     b \<leftarrow> arr_get state 1;
     c \<leftarrow> arr_get state 2;
     d \<leftarrow> arr_get state 3;
     x \<leftarrow> MD5Decode (replicate 64 0) block 64;
     let r = fold (\<lambda>f. f) (MD5_round1 x @ MD5_round2 x @ MD5_round3 x @ MD5_round4 x) [a, b, c, d];
     Some (state[0 := state ! 0 + r ! ra, 1 := state ! 1 + r ! rb,
                 2 := state ! 2 + r ! rc, 3 := state ! 3 + r ! rd]) }"

subsection \<open>Update and final\<close>

text \<open>
  The block loop \<open>for(i = partlen; i+64 <= inputlen; i+=64)\<close>, in 32-bit arithmetic: where
  \<open>i + 64\<close> wraps around the loop runs on, so the model is a partial function.
\<close>

partial_function (option) MD5Update_blocks ::
    "u32 list \<Rightarrow> u8 list \<Rightarrow> u32 \<Rightarrow> u32 \<Rightarrow> (u32 list \<times> u32) option" where
  "MD5Update_blocks state input inputlen i =
     (if i + 64 \<le> inputlen then do {
        state \<leftarrow> MD5Transform state (drop (unat i) input);
        MD5Update_blocks state input inputlen (i + 64) }
      else Some (state, i))"

declare MD5Update_blocks.simps [code]

definition MD5Update :: "MD5_CTX \<Rightarrow> u8 list \<Rightarrow> u32 \<Rightarrow> MD5_CTX option" where
  "MD5Update context input inputlen = do {
     c0 \<leftarrow> arr_get (ctx_count context) 0;
     c1 \<leftarrow> arr_get (ctx_count context) 1;
     let index = drop_bit 3 c0 AND 0x3F;
     let partlen = 64 - index;
     let c0' = c0 + push_bit 3 inputlen;
     let c1' = (if c0' < push_bit 3 inputlen then c1 + 1 else c1);
     let cnt = (ctx_count context)[0 := c0', 1 := c1' + drop_bit 29 inputlen];
     if partlen \<le> inputlen then do {
       buf \<leftarrow> memcpy (ctx_buffer context) (unat index) input 0 (unat partlen);
       st \<leftarrow> MD5Transform (ctx_state context) buf;
       (st, i) \<leftarrow> MD5Update_blocks st input inputlen partlen;
       buf \<leftarrow> memcpy buf 0 input (unat i) (unat (inputlen - i));
       Some \<lparr>ctx_count = cnt, ctx_state = st, ctx_buffer = buf\<rparr> }
     else do {
       buf \<leftarrow> memcpy (ctx_buffer context) (unat index) input 0 (unat inputlen);
       Some \<lparr>ctx_count = cnt, ctx_state = ctx_state context, ctx_buffer = buf\<rparr> } }"

definition PADDING :: "u8 list" where
  "PADDING = 0x80 # replicate 63 0"

definition MD5Final :: "MD5_CTX \<Rightarrow> u8 list \<Rightarrow> (MD5_CTX \<times> u8 list) option" where
  "MD5Final context digest = do {
     c0 \<leftarrow> arr_get (ctx_count context) 0;
     let index = drop_bit 3 c0 AND 0x3F;
     let padlen = (if index < 56 then 56 - index else 120 - index);
     bits \<leftarrow> MD5Encode (replicate 8 0) (ctx_count context) 8;
     context \<leftarrow> MD5Update context PADDING padlen;
     context \<leftarrow> MD5Update context bits 8;
     digest \<leftarrow> MD5Encode digest (ctx_state context) 16;
     Some (context, digest) }"

section \<open>RFC 1321\<close>

subsection \<open>Definitions of the reference digest\<close>

definition rfc_T :: "u32 list" where
  "rfc_T =
    [0xd76aa478, 0xe8c7b756, 0x242070db, 0xc1bdceee, 0xf57c0faf, 0x4787c62a, 0xa8304613, 0xfd469501,
     0x698098d8, 0x8b44f7af, 0xffff5bb1, 0x895cd7be, 0x6b901122, 0xfd987193, 0xa679438e, 0x49b40821,
     0xf61e2562, 0xc040b340, 0x265e5a51, 0xe9b6c7aa, 0xd62f105d, 0x2441453, 0xd8a1e681, 0xe7d3fbc8,
     0x21e1cde6, 0xc33707d6, 0xf4d50d87, 0x455a14ed, 0xa9e3e905, 0xfcefa3f8, 0x676f02d9, 0x8d2a4c8a,
     0xfffa3942, 0x8771f681, 0x6d9d6122, 0xfde5380c, 0xa4beea44, 0x4bdecfa9, 0xf6bb4b60, 0xbebfbc70,
     0x289b7ec6, 0xeaa127fa, 0xd4ef3085, 0x4881d05, 0xd9d4d039, 0xe6db99e5, 0x1fa27cf8, 0xc4ac5665,
     0xf4292244, 0x432aff97, 0xab9423a7, 0xfc93a039, 0x655b59c3, 0x8f0ccc92, 0xffeff47d, 0x85845dd1,
     0x6fa87e4f, 0xfe2ce6e0, 0xa3014314, 0x4e0811a1, 0xf7537e82, 0xbd3af235, 0x2ad7d2bb, 0xeb86d391]"

definition rfc_shift :: "nat \<Rightarrow> nat" where
  "rfc_shift i = [[7, 12, 17, 22], [5, 9, 14, 20], [4, 11, 16, 23], [6, 10, 15, 21]] ! (i div 16) ! (i mod 4)"

definition rfc_index :: "nat \<Rightarrow> nat" where
  "rfc_index i =
     (if i < 16 then i else if i < 32 then (5 * i + 1) mod 16
      else if i < 48 then (3 * i + 5) mod 16 else 7 * i mod 16)"

definition rfc_aux :: "nat \<Rightarrow> u32 \<Rightarrow> u32 \<Rightarrow> u32 \<Rightarrow> u32" where
  "rfc_aux i x y z =
     (if i < 16 then (x AND y) OR (NOT x AND z) else if i < 32 then (x AND z) OR (y AND NOT z)
      else if i < 48 then x XOR y XOR z else y XOR (x OR NOT z))"

text \<open>Step \<open>i\<close> of the compression: the four words move on by one place.\<close>

definition rfc_step :: "u32 list \<Rightarrow> nat \<Rightarrow> u32 list \<Rightarrow> u32 list" where
  "rfc_step x i v =
     [v ! 3,
      v ! 1 + word_rotl (rfc_shift i) (v ! 0 + rfc_aux i (v ! 1) (v ! 2) (v ! 3) + x ! rfc_index i + rfc_T ! i),
      v ! 1, v ! 2]"

definition le32 :: "u8 list \<Rightarrow> u32" where
  "le32 bs = ucast (bs ! 0) + 2 ^ 8 * ucast (bs ! 1) + 2 ^ 16 * ucast (bs ! 2) + 2 ^ 24 * ucast (bs ! 3)"

definition rfc_compress :: "u32 list \<Rightarrow> u8 list \<Rightarrow> u32 list" where
  "rfc_compress s block = map2 (+) s (fold (rfc_step (map le32 (chunks 4 block))) [0..<64] s)"

definition rfc_absorb :: "u32 list \<Rightarrow> u8 list \<Rightarrow> u32 list" where
  "rfc_absorb s m = iterate_blocks rfc_compress 64 s m"

definition rfc_init :: "u32 list" where
  "rfc_init = [0x67452301, 0xEFCDAB89, 0x98BADCFE, 0x10325476]"

text \<open>The \<open>k\<close> low-order bytes of a number, low-order first.\<close>

definition le_bytes :: "nat \<Rightarrow> int \<Rightarrow> u8 list" where
  "le_bytes k n = map (\<lambda>i. of_int (n div 256 ^ i)) [0..<k]"

definition rfc_pad :: "u8 list \<Rightarrow> u8 list" where
  "rfc_pad m = m @ [0x80] @ replicate ((119 - length m mod 64) mod 64) 0 @ le_bytes 8 (8 * int (length m))"

definition rfc_md5 :: "u8 list \<Rightarrow> u8 list" where
  "rfc_md5 m = concat (map (\<lambda>w. le_bytes 4 (uint w)) (rfc_absorb rfc_init (rfc_pad m)))"

subsection \<open>The message a context stands for\<close>

text \<open>
  The abstraction relation of the streaming interface: context \<open>c\<close> stands for the message
  \<open>m\<close> fed so far.  The bit count is kept modulo \<open>2^64\<close> in two words, the chaining state has
  absorbed every full block, the buffer starts with the rest.
\<close>

definition md5_repr :: "MD5_CTX \<Rightarrow> u8 list \<Rightarrow> bool" where
  "md5_repr c m \<longleftrightarrow>
     ctx_count c = [of_nat (8 * length m), of_nat (8 * length m div 2 ^ 32)] \<and>
     ctx_state c = rfc_absorb rfc_init m \<and>
     length (ctx_buffer c) = 64 \<and>
     take (length m mod 64) (ctx_buffer c) = drop (64 * (length m div 64)) m"

text \<open>Feeding a message in pieces, each with its own call of \<open>MD5Update\<close>.\<close>

definition MD5_feed :: "MD5_CTX \<Rightarrow> u8 list list \<Rightarrow> MD5_CTX option" where
  "MD5_feed c pieces = foldM (\<lambda>p c. MD5Update c p (of_nat (length p))) pieces c"

end
