(* ===== verification/MD5_Correct.thy ===== *)
theory MD5_Correct
  imports MD5
begin

text \<open>
  Correctness of the MD5 code of theory \<open>MD5\<close> against the definition of RFC 1321: the byte order
  conversions, the unrolled compression function, the block loop of \<open>MD5Update\<close>, the streaming
  interface with its 64-bit bit count, and padding.  \<open>MD5Update\<close> and \<open>MD5Final\<close> rely on the
  compression function through the locale \<open>block_transform\<close>, interpreted here on \<open>MD5Transform\<close>.
\<close>


lemma ROTATE_LEFT_rotl: assumes "n < 32" shows "ROTATE_LEFT x n = word_rotl n x"
proof (rule bit_word_eqI)
  fix k assume "k < LENGTH(32)"
  then have k: "k < 32" by simp
  have "(k + 32 - n) mod 32 = (if n \<le> k then k - n else 32 + k - n)"
    using assms k by (auto simp: mod_if)
  with assms k show "bit (ROTATE_LEFT x n) k = bit (word_rotl n x) k"
    by (auto simp: ROTATE_LEFT_def bit_simps bit_word_rotl_iff dest: bit_imp_le_length)
qed

lemma le32_or:
  "(ucast b0 OR push_bit 8 (ucast b1) OR push_bit 16 (ucast b2) OR push_bit 24 (ucast b3) :: u32)
   = le32 [b0, b1, b2, b3]" for b0 b1 b2 b3 :: u8
proof -
  have "ucast b0 + push_bit 8 (ucast b1) = (ucast b0 OR push_bit 8 (ucast b1) :: u32)"
    by (rule disjunctive_add) (auto simp: bit_simps dest: bit_imp_le_length)
  moreover have "(ucast b0 OR push_bit 8 (ucast b1)) + push_bit 16 (ucast b2) =
      (ucast b0 OR push_bit 8 (ucast b1) OR push_bit 16 (ucast b2) :: u32)"
    by (subst disjunctive_add) (auto simp: bit_simps or.assoc dest: bit_imp_le_length)
  moreover have "(ucast b0 OR push_bit 8 (ucast b1) OR push_bit 16 (ucast b2)) + push_bit 24 (ucast b3) =
      (ucast b0 OR push_bit 8 (ucast b1) OR push_bit 16 (ucast b2) OR push_bit 24 (ucast b3) :: u32)"
    by (subst disjunctive_add) (auto simp: bit_simps or.assoc dest: bit_imp_le_length)
  ultimately show ?thesis
    by (simp add: le32_def push_bit_eq_mult mult.commute)
qed

lemma MD5Decode_loop_eq:
  assumes "4 dvd len" and "len \<le> length inp" and "len div 4 \<le> length out" and "j = 4 * i" and "j \<le> len"
  shows "MD5Decode_loop out inp len i j =
    Some (take i out @ map (\<lambda>k. le32 (drop (4 * k) inp)) [i..<len div 4] @ drop (len div 4) out)"
  using assms
proof (induction out inp len i j rule: MD5Decode_loop.induct)
  case (1 out inp len i j)
  show ?case
  proof (cases "j < len")
    case True
    with "1.prems" have j: "j + 3 < length inp" and i: "i < len div 4" and j4: "j + 4 \<le> len"
        and out: "i < length out"
      by (auto elim!: dvdE)
    let ?v = "le32 (drop j inp)"
    have v: "ucast (inp ! j) OR push_bit 8 (ucast (inp ! (j + 1))) OR push_bit 16 (ucast (inp ! (j + 2)))
        OR push_bit 24 (ucast (inp ! (j + 3))) = ?v"
      by (simp add: le32_or) (use j in \<open>simp add: le32_def\<close>)
    have "MD5Decode_loop out inp len i j = MD5Decode_loop (out[i := ?v]) inp len (i + 1) (j + 4)"
      using True j out by (subst MD5Decode_loop.simps) (simp add: v [simplified])
    also have "\<dots> = Some (take (i + 1) (out[i := ?v]) @ map (\<lambda>k. le32 (drop (4 * k) inp)) [i + 1..<len div 4]
        @ drop (len div 4) (out[i := ?v]))"
      using True j i j4 "1.prems" v by (intro "1.IH") auto
    also have "\<dots> = Some (take i out @ map (\<lambda>k. le32 (drop (4 * k) inp)) [i..<len div 4] @ drop (len div 4) out)"
      using i "1.prems" by (simp add: upt_conv_Cons take_Suc_conv_app_nth)
    finally show ?thesis .
  next
    case False
    with "1.prems" have "i = len div 4" by auto
    with False "1.prems" show ?thesis by (subst MD5Decode_loop.simps) simp
  qed
qed

lemma le_bytes_4: "le_bytes 4 (uint w) =
    [ucast (w AND 0xFF), ucast (drop_bit 8 w AND 0xFF), ucast (drop_bit 16 w AND 0xFF), ucast (drop_bit 24 w AND 0xFF)]"
  for w :: u32
proof -
  have "of_int (uint w div 2 ^ n) = (ucast (drop_bit n w AND 0xFF) :: u8)" for n
  proof (rule bit_word_eqI)
    fix k assume k: "k < LENGTH(8)"
    have m: "(0xFF :: u32) = mask 8" by (simp add: mask_eq_exp_minus_1)
    show "bit (of_int (uint w div 2 ^ n) :: u8) k = bit (ucast (drop_bit n w AND 0xFF) :: u8) k"
      using k by (simp add: m bit_simps flip: drop_bit_eq_div)
  qed
  from this [of 0] this [of 8] this [of 16] this [of 24] show ?thesis
    by (simp add: le_bytes_def numeral_eq_Suc)
qed

lemma length_le_bytes [simp]: "length (le_bytes k n) = k"
  by (simp add: le_bytes_def)

lemma MD5Encode_loop_eq:
  assumes "4 dvd len" and "len div 4 \<le> length inp" and "len \<le> length out" and "j = 4 * i" and "j \<le> len"
  shows "MD5Encode_loop out inp len i j =
    Some (take j out @ concat (map (\<lambda>k. le_bytes 4 (uint (inp ! k))) [i..<len div 4]) @ drop len out)"
  using assms
proof (induction out inp len i j rule: MD5Encode_loop.induct)
  case (1 out inp len i j)
  show ?case
  proof (cases "j < len")
    case True
    with "1.prems" have j: "j + 3 < length out" and i: "i < len div 4" "i < length inp" and j4: "j + 4 \<le> len"
      by (auto elim!: dvdE)
    let ?w = "inp ! i"
    let ?o = "out[j := ucast (?w AND 0xFF), j + 1 := ucast (drop_bit 8 ?w AND 0xFF),
      j + 2 := ucast (drop_bit 16 ?w AND 0xFF), j + 3 := ucast (drop_bit 24 ?w AND 0xFF)]"
    have take_o: "take (j + 4) ?o = take j out @ le_bytes 4 (uint ?w)"
      using j by (simp add: le_bytes_4 take_update_swap list_eq_iff_nth_eq nth_append nth_list_update
        nth_Cons' less_Suc_eq)
    have "MD5Encode_loop out inp len i j = MD5Encode_loop ?o inp len (i + 1) (j + 4)"
      using True j i by (subst MD5Encode_loop.simps) simp
    also have "\<dots> = Some (take (j + 4) ?o @ concat (map (\<lambda>k. le_bytes 4 (uint (inp ! k))) [i + 1..<len div 4])
        @ drop len ?o)"
      using True j i j4 "1.prems" by (intro "1.IH") auto
    also have "drop len ?o = drop len out"
      using j4 by simp
    also note take_o
    finally show ?thesis
      using i by (simp add: upt_conv_Cons)
  next
    case False
    with "1.prems" have "i = len div 4" "j = len" by auto
    with False "1.prems" show ?thesis by (subst MD5Encode_loop.simps) simp
  qed
qed

text \<open>The macro call number \<open>i\<close>, with its register assignment, read off the source's pattern.\<close>

definition md5_regs :: "nat \<Rightarrow> nat list" where
  "md5_regs i = [[0, 1, 2, 3], [3, 0, 1, 2], [2, 3, 0, 1], [1, 2, 3, 0]] ! (i mod 4)"

definition md5_instr :: "u32 list \<Rightarrow> nat \<Rightarrow> u32 list \<Rightarrow> u32 list" where
  "md5_instr x i =
     (if i < 16 then FF else if i < 32 then GG else if i < 48 then HH else II)
       (md5_regs i ! 0) (md5_regs i ! 1) (md5_regs i ! 2) (md5_regs i ! 3)
       (x ! rfc_index i) (rfc_shift i) (rfc_T ! i)"

lemma upt_64: "[0..<64] = [0,1,2,3,4,5,6,7,8,9,10,11,12,13,14,15,16,17,18,19,20,21,22,23,24,25,26,27,28,29,30,31,
  32,33,34,35,36,37,38,39,40,41,42,43,44,45,46,47,48,49,50,51,52,53,54,55,56,57,58,59,60,61,62,63]"
  by (simp add: upt_rec)

lemma MD5_rounds_instr:
  "MD5_round1 x @ MD5_round2 x @ MD5_round3 x @ MD5_round4 x = map (md5_instr x) [0..<64]"
  unfolding upt_64
  by (simp add: md5_instr_def md5_regs_def MD5_round1_def MD5_round2_def MD5_round3_def MD5_round4_def
      rfc_index_def rfc_shift_def rfc_T_def)

lemma rfc_shift_less: "i < 64 \<Longrightarrow> rfc_shift i < 32"
proof -
  assume "i < 64"
  then have i: "i div 16 < 4" "i mod 4 < 4" by auto
  have "\<forall>r<4. \<forall>c<4. [[7, 12, 17, 22], [5, 9, 14, 20], [4, 11, 16, 23], [6, 10, 15, 21]] ! r ! c < (32 :: nat)"
    by code_simp
  with i show ?thesis by (simp add: rfc_shift_def)
qed

lemma md5_op_aux:
  "sh < 32 \<Longrightarrow> (if i < 16 then FF else if i < 32 then GG else if i < 48 then HH else II) p q s t y sh k r =
      r[p := word_rotl sh (r ! p + rfc_aux i (r ! q) (r ! s) (r ! t) + y + k) + r ! q]"
  by (simp add: FF_def GG_def HH_def II_def rfc_aux_def MD5_F_def MD5_G_def MD5_H_def MD5_I_def
        ROTATE_LEFT_rotl add.assoc xor.assoc)

lemma rotate_by_4:
  "n mod 4 = 0 \<Longrightarrow> rotate n [a, b, c, d] = [a, b, c, d]"
  "n mod 4 = Suc 0 \<Longrightarrow> rotate n [a, b, c, d] = [b, c, d, a]"
  "n mod 4 = 2 \<Longrightarrow> rotate n [a, b, c, d] = [c, d, a, b]"
  "n mod 4 = 3 \<Longrightarrow> rotate n [a, b, c, d] = [d, a, b, c]"
  by (simp_all add: rotate_drop_take)

lemma md5_instr_step:
  assumes "i < 64" and "length v = 4"
  shows "md5_instr x i (rotate i v) = rotate (Suc i) (rfc_step x i v)"
proof -
  obtain a b c d where v: "v = [a, b, c, d]"
    using assms(2) by (rule length_4E)
  have sh: "rfc_shift i < 32" by (rule rfc_shift_less [OF assms(1)])
  have "i mod 4 = 0 \<or> i mod 4 = Suc 0 \<or> i mod 4 = 2 \<or> i mod 4 = 3"
    by presburger
  then show ?thesis
    unfolding md5_instr_def md5_op_aux [OF sh] v rfc_step_def md5_regs_def
    by (elim disjE) (simp_all add: rotate_by_4 add.commute)
qed

lemma length_rfc_step [simp]: "length (rfc_step x i v) = 4"
  by (simp add: rfc_step_def)

lemma length_fold_rfc_step: "length v = 4 \<Longrightarrow> length (fold (rfc_step x) is v) = 4"
  by (induction "is" arbitrary: v) auto

lemma fold_md5_instr:
  "n \<le> 64 \<Longrightarrow> length v = 4 \<Longrightarrow>
   fold (\<lambda>f. f) (map (md5_instr x) [0..<n]) v = rotate n (fold (rfc_step x) [0..<n] v)"
proof (induction n)
  case (Suc n)
  then show ?case
    using md5_instr_step [of n "fold (rfc_step x) [0..<n] v" x]
    by (simp add: length_fold_rfc_step)
qed simp

lemma rfc_index_less: "rfc_index i < 16" if "i < 64"
  by (simp add: rfc_index_def)

lemma le32_take [simp]: "4 \<le> n \<Longrightarrow> le32 (take n bs) = le32 bs"
  by (simp add: le32_def)

lemma rfc_step_words:
  assumes "\<And>k. k < 16 \<Longrightarrow> x ! k = y ! k" and "i < 64"
  shows "rfc_step x i v = rfc_step y i v"
  using assms rfc_index_less [of i] by (simp add: rfc_step_def)

lemma fold_rfc_step_words:
  assumes "\<And>k. k < 16 \<Longrightarrow> x ! k = y ! k"
  shows "fold (rfc_step x) [0..<64] v = fold (rfc_step y) [0..<64] v"
  by (rule fold_cong) (auto intro!: rfc_step_words ext assms)

theorem MD5Transform_eq:
  assumes "length s = 4" and "64 \<le> length block"
  shows "MD5Transform s block = Some (rfc_compress s (take 64 block))"
proof -
  let ?x = "map (\<lambda>k. le32 (drop (4 * k) block)) [0..<16] @ replicate 48 0"
  let ?y = "map le32 (chunks 4 (take 64 block))"
  obtain a b c d where s: "s = [a, b, c, d]"
    using assms(1) by (rule length_4E)
  have x: "MD5Decode (replicate 64 0) block 64 = Some ?x"
    using assms(2) by (simp add: MD5Decode_def MD5Decode_loop_eq)
  have "?x ! k = ?y ! k" if "k < 16" for k
    using that assms(2) by (simp add: nth_append chunks_conv_map drop_take)
  then have "fold (rfc_step ?x) [0..<64] s = fold (rfc_step ?y) [0..<64] s"
    by (rule fold_rfc_step_words)
  moreover have "fold (\<lambda>f. f) (MD5_round1 ?x @ MD5_round2 ?x @ MD5_round3 ?x @ MD5_round4 ?x) s =
      rotate 64 (fold (rfc_step ?x) [0..<64] s)"
    unfolding MD5_rounds_instr using assms(1) by (rule fold_md5_instr [OF order_refl])
  moreover obtain e f g h where r: "fold (rfc_step ?y) [0..<64] s = [e, f, g, h]"
    by (rule length_4E [OF length_fold_rfc_step [OF assms(1), of ?y "[0..<64]"]])
  ultimately have "fold (\<lambda>f. f) (MD5_round1 ?x @ MD5_round2 ?x @ MD5_round3 ?x @ MD5_round4 ?x) [a, b, c, d] =
      [e, f, g, h]"
    by (simp add: s rotate_by_4 del: fold_append)
  with r show ?thesis
    unfolding MD5Transform_def x rfc_compress_def by (simp add: s del: fold_append)
qed

interpretation md5_block: block_transform MD5Transform rfc_compress "\<lambda>s. length s = 4" 64
  by unfold_locales (simp_all add: MD5Transform_eq rfc_compress_def length_fold_rfc_step)

lemmas rfc_absorb_simps =
  md5_block.absorb_short [folded rfc_absorb_def]
  md5_block.absorb_append [folded rfc_absorb_def]
  md5_block.absorb_append_short [folded rfc_absorb_def]
  md5_block.absorb_block [folded rfc_absorb_def]

lemmas length_rfc_absorb = md5_block.valid_absorb [folded rfc_absorb_def]

lemmas MD5Transform_absorb = md5_block.transform_absorb [folded rfc_absorb_def]

lemma length_rfc_init [simp]: "length rfc_init = 4"
  by (simp add: rfc_init_def)

lemma MD5Update_blocks_eq:
  assumes "length st = 4" and "unat n \<le> length input" and "unat n + 64 < 2 ^ 32" and "i \<le> n"
    and "(unat n - unat i) div 64 = k"
  shows "MD5Update_blocks st input n i =
    Some (rfc_absorb st (take (64 * k) (drop (unat i) input)), i + of_nat (64 * k))"
  using assms
proof (induction k arbitrary: st i)
  case 0
  have "unat (i + 64) = unat i + 64"
    using "0.prems" by (subst unat_add_lem [THEN iffD1]) (simp_all add: word_le_nat_alt)
  then have "\<not> i + 64 \<le> n"
    using "0.prems" by (simp add: word_le_nat_alt)
  then show ?case
    by (subst MD5Update_blocks.simps) (simp add: rfc_absorb_simps)
next
  case (Suc k)
  have u: "unat (i + 64) = unat i + 64"
    using Suc.prems by (subst unat_add_lem [THEN iffD1]) (simp_all add: word_le_nat_alt)
  from Suc.prems have ge: "unat i + 64 \<le> unat n"
    by linarith
  then have le: "i + 64 \<le> n" by (simp add: word_le_nat_alt u)
  let ?b = "take 64 (drop (unat i) input)"
  have "MD5Transform st (drop (unat i) input) = Some (rfc_absorb st ?b)"
    using Suc.prems ge by (simp add: MD5Transform_absorb)
  then have "MD5Update_blocks st input n i = MD5Update_blocks (rfc_absorb st ?b) input n (i + 64)"
    using le by (subst MD5Update_blocks.simps) simp
  also have "\<dots> = Some (rfc_absorb (rfc_absorb st ?b) (take (64 * k) (drop (unat (i + 64)) input)),
      i + 64 + of_nat (64 * k))"
    using Suc.prems le ge by (intro Suc.IH) (auto simp: u length_rfc_absorb)
  also have "rfc_absorb (rfc_absorb st ?b) (take (64 * k) (drop (unat (i + 64)) input)) =
      rfc_absorb st (?b @ take (64 * k) (drop (unat (i + 64)) input))"
    using Suc.prems ge by (subst rfc_absorb_simps) simp_all
  also have "?b @ take (64 * k) (drop (unat (i + 64)) input) = take (64 * Suc k) (drop (unat i) input)"
    by (simp add: u take_add add.commute)
  finally show ?case by (simp add: algebra_simps)
qed

lemma md5_index:
  "unat (drop_bit 3 (of_nat (8 * l) :: u32) AND 0x3F) = l mod 64"
proof -
  have m: "(0x3F :: u32) = mask 6" by (simp add: mask_eq_exp_minus_1)
  have "unat (drop_bit 3 w AND 0x3F) = unat w div 8 mod 64" for w :: u32
    by (simp only: m take_bit_eq_mask [symmetric] unsigned_take_bit_eq unsigned_drop_bit_eq)
      (simp add: take_bit_eq_mod drop_bit_eq_div unat_div unat_u32_less)
  then have "unat (drop_bit 3 (of_nat (8 * l) :: u32) AND 0x3F) = (8 * l mod 2 ^ 32) div 8 mod 64"
    by (simp only: unat_of_nat) simp
  also have "\<dots> = l mod 64"
    by (simp add: mult_mod_right [of 8 l "2 ^ 29", simplified, symmetric] mod_mod_cancel)
  finally show ?thesis .
qed

lemma add_less_carry: "x + y < y \<longleftrightarrow> 2 ^ 32 \<le> unat x + unat y" for x y :: u32
proof -
  have "unat x < 2 ^ 32" "unat y < 2 ^ 32" using unsigned_less [of x] unsigned_less [of y] by simp_all
  then show ?thesis
    by (auto simp: word_less_nat_alt unat_word_ariths mod_if)
qed

lemma md5_count:
  fixes n :: u32 and l :: nat
  defines "c0 \<equiv> of_nat (8 * l) :: u32" and "c1 \<equiv> of_nat (8 * l div 2 ^ 32) :: u32"
  shows "c0 + push_bit 3 n = of_nat (8 * (l + unat n))" 
    and "(if c0 + push_bit 3 n < push_bit 3 n then c1 + 1 else c1) + drop_bit 29 n =
      of_nat (8 * (l + unat n) div 2 ^ 32)"
proof -
  have p: "push_bit 3 n = of_nat (8 * unat n)"
    by (simp add: push_bit_eq_mult)
  then show "c0 + push_bit 3 n = of_nat (8 * (l + unat n))"
    by (simp add: c0_def algebra_simps)
  have d: "drop_bit 29 n = of_nat (8 * unat n div 2 ^ 32)"
    by (simp add: drop_bit_eq_div word_unat_eq_iff unat_div unat_of_nat
      less_mult_imp_div_less mod_less [OF le_less_trans [OF div_le_dividend unat_u32_less]])
  have "c0 + push_bit 3 n < push_bit 3 n \<longleftrightarrow> 2 ^ 32 \<le> 8 * l mod 2 ^ 32 + 8 * unat n mod 2 ^ 32"
    unfolding add_less_carry c0_def p unat_of_nat by simp
  moreover have "x < 2 ^ 32 \<Longrightarrow> y < 2 ^ 32 \<Longrightarrow> (x + y) div 2 ^ 32 = (if 2 ^ 32 \<le> x + y then 1 else 0)"
    for x y :: nat by (auto simp: div_if)
  ultimately have "8 * (l + unat n) div 2 ^ 32 = 8 * l div 2 ^ 32 + 8 * unat n div 2 ^ 32 +
      (if c0 + push_bit 3 n < push_bit 3 n then 1 else 0)"
    unfolding distrib_left div_add1_eq [of "8 * l"] by (simp del: mod_mult_self1)
  then show "(if c0 + push_bit 3 n < push_bit 3 n then c1 + 1 else c1) + drop_bit 29 n =
      of_nat (8 * (l + unat n) div 2 ^ 32)"
    by (simp add: d c1_def)
qed

abbreviation (input) md5_count :: "u8 list \<Rightarrow> u32 list" where
  "md5_count m \<equiv> [of_nat (8 * length m), of_nat (8 * length m div 2 ^ 32)]"

lemma md5_reprI:
  assumes "64 dvd length A" and "length B < 64" and "length buf = 64" and "take (length B) buf = B"
  shows "md5_repr \<lparr>ctx_count = md5_count (A @ B), ctx_state = rfc_absorb rfc_init A, ctx_buffer = buf\<rparr> (A @ B)"
proof -
  obtain k where k: "length A = 64 * k" using assms(1) by (elim dvdE)
  have "64 * ((64 * k + length B) div 64) = 64 * k" "(64 * k + length B) mod 64 = length B"
    using assms(2) by simp_all
  with k assms show ?thesis
    by (simp add: md5_repr_def rfc_absorb_simps)
qed

lemma md5_reprE:
  assumes "md5_repr c m"
  obtains A B buf where "m = A @ B" and "64 dvd length A" and "length B < 64" and "length buf = 64"
    and "take (length B) buf = B"
    and "c = \<lparr>ctx_count = md5_count m, ctx_state = rfc_absorb rfc_init A, ctx_buffer = buf\<rparr>"
proof
  let ?n = "64 * (length m div 64)"
  have n: "?n \<le> length m" by simp
  have l: "length m - ?n = length m mod 64" by (simp add: minus_mult_div_eq_mod)
  show "m = take ?n m @ drop ?n m" by simp
  show d: "64 dvd length (take ?n m)" using n by (simp only: length_take min_absorb2 dvd_triv_left)
  show s: "length (drop ?n m) < 64" by (simp only: length_drop l mod_less_divisor zero_less_numeral)
  have "rfc_absorb rfc_init m = rfc_absorb rfc_init (take ?n m)"
    using d s rfc_absorb_simps(3) [of "take ?n m" "drop ?n m" rfc_init] by simp
  then show "c = \<lparr>ctx_count = md5_count m, ctx_state = rfc_absorb rfc_init (take ?n m),
      ctx_buffer = ctx_buffer c\<rparr>"
    using assms by (simp add: md5_repr_def)
  show "length (ctx_buffer c) = 64" using assms by (simp add: md5_repr_def)
  show "take (length (drop ?n m)) (ctx_buffer c) = drop ?n m"
    using assms by (simp only: md5_repr_def length_drop l)
qed

text \<open>The two ways through \<open>MD5Update\<close>, with the new bit count left symbolic.\<close>

lemma MD5Update_short:
  fixes c0 c1 n :: u32
  defines "index \<equiv> drop_bit 3 c0 AND 0x3F"
  assumes "\<not> 64 - index \<le> n" and "memcpy buf (unat index) inp 0 (unat n) = Some buf'"
    and "[c0 + push_bit 3 n, (if c0 + push_bit 3 n < push_bit 3 n then c1 + 1 else c1) + drop_bit 29 n] = cnt"
  shows "MD5Update \<lparr>ctx_count = [c0, c1], ctx_state = st, ctx_buffer = buf\<rparr> inp n =
    Some \<lparr>ctx_count = cnt, ctx_state = st, ctx_buffer = buf'\<rparr>"
  using assms(2-) by (simp add: MD5Update_def index_def Let_def flip: assms(4))

lemma MD5Update_blocks:
  fixes c0 c1 n :: u32
  defines "index \<equiv> drop_bit 3 c0 AND 0x3F"
  assumes "64 - index \<le> n"
    and "memcpy buf (unat index) inp 0 (unat (64 - index)) = Some buf1"
    and "MD5Transform st buf1 = Some st1"
    and "MD5Update_blocks st1 inp n (64 - index) = Some (st2, i)"
    and "memcpy buf1 0 inp (unat i) (unat (n - i)) = Some buf2"
    and "[c0 + push_bit 3 n, (if c0 + push_bit 3 n < push_bit 3 n then c1 + 1 else c1) + drop_bit 29 n] = cnt"
  shows "MD5Update \<lparr>ctx_count = [c0, c1], ctx_state = st, ctx_buffer = buf\<rparr> inp n =
    Some \<lparr>ctx_count = cnt, ctx_state = st2, ctx_buffer = buf2\<rparr>"
  using assms(2-) by (simp add: MD5Update_def index_def Let_def flip: assms(7))

lemma MD5Update_repr:
  assumes repr: "md5_repr c m" and len: "unat n \<le> length inp" and nowrap: "unat n + 64 < 2 ^ 32"
  shows "\<exists>c'. MD5Update c inp n = Some c' \<and> md5_repr c' (m @ take (unat n) inp)"
proof -
  obtain A B buf where m: "m = A @ B" "64 dvd length A" "length B < 64" "length buf = 64" "take (length B) buf = B"
    and c: "c = \<lparr>ctx_count = md5_count m, ctx_state = rfc_absorb rfc_init A, ctx_buffer = buf\<rparr>"
    using repr by (rule md5_reprE)
  define c0 c1 :: u32 where "c0 = of_nat (8 * length m)" and "c1 = of_nat (8 * length m div 2 ^ 32)"
  define index where "index = drop_bit 3 c0 AND 0x3F"
  have index: "unat index = length B"
    using m unfolding index_def c0_def md5_index by (auto elim!: dvdE)
  have "index \<le> 64" using m index by (simp add: word_le_nat_alt)
  then have partlen: "unat (64 - index) = 64 - length B"
    by (simp add: unat_sub index)
  let ?n = "unat n" and ?p = "64 - length B"
  have cnt: "[c0 + push_bit 3 n, (if c0 + push_bit 3 n < push_bit 3 n then c1 + 1 else c1) + drop_bit 29 n] =
      md5_count (m @ take ?n inp)"
    using len unfolding c0_def c1_def md5_count(2) unfolding md5_count(1) by simp
  have c: "c = \<lparr>ctx_count = [c0, c1], ctx_state = rfc_absorb rfc_init A, ctx_buffer = buf\<rparr>"
    by (simp add: c c0_def c1_def)
  show ?thesis
  proof (cases "?p \<le> ?n")
    case False
    let ?buf = "take (length B) buf @ take ?n inp @ drop (length B + ?n) buf"
    have "MD5Update c inp n = Some \<lparr>ctx_count = md5_count (m @ take ?n inp),
        ctx_state = rfc_absorb rfc_init A, ctx_buffer = ?buf\<rparr>"
      using False len m unfolding c
      by (intro MD5Update_short cnt) (simp_all add: word_le_nat_alt partlen index flip: index_def)
    moreover have "md5_repr \<lparr>ctx_count = md5_count (A @ B @ take ?n inp),
        ctx_state = rfc_absorb rfc_init A, ctx_buffer = ?buf\<rparr> (A @ B @ take ?n inp)"
      using False len m by (intro md5_reprI) auto
    ultimately show ?thesis by (simp add: m)
  next
    case True
    define k where "k = (?n - ?p) div 64"
    let ?b = "B @ take ?p inp" and ?i = "?p + 64 * k"
    let ?A = "A @ ?b @ take (64 * k) (drop ?p inp)" and ?R = "take (?n - ?i) (drop ?i inp)"
    have k: "?i \<le> ?n" "?n - ?i < 64"
      using True unfolding k_def by (auto simp: minus_mult_div_eq_mod [symmetric])
    have tr: "MD5Transform (rfc_absorb rfc_init A) ?b = Some (rfc_absorb rfc_init (A @ ?b))"
      using m True len by (subst MD5Transform_absorb) (auto simp: rfc_absorb_simps length_rfc_absorb)
    define j where "j = 64 - index + of_nat (64 * k)"
    have bl: "MD5Update_blocks (rfc_absorb rfc_init (A @ ?b)) inp n (64 - index) =
        Some (rfc_absorb rfc_init ?A, j)"
      using rfc_absorb_simps(2) [of "A @ ?b" rfc_init "take (64 * k) (drop ?p inp)"] m True len nowrap
      by (subst MD5Update_blocks_eq [where k = k])
        (simp_all add: length_rfc_absorb partlen word_le_nat_alt k_def j_def)
    have uk: "unat (of_nat (64 * k) :: u32) = 64 * k"
      using k unat_u32_less [of n] by (subst unat_of_nat) simp
    then have i: "unat j = ?i"
      using k unat_u32_less [of n] unfolding j_def
      by (subst unat_add_lem [THEN iffD1]) (simp_all only: partlen uk, simp)
    have nj: "unat (n - j) = ?n - ?i"
      using k by (subst unat_sub) (simp_all add: word_le_nat_alt i)
    have "MD5Update c inp n = Some \<lparr>ctx_count = md5_count (m @ take ?n inp),
        ctx_state = rfc_absorb rfc_init ?A, ctx_buffer = ?R @ drop (?n - ?i) ?b\<rparr>"
      using True len m k unfolding c
      by (intro MD5Update_blocks [OF _ _ tr bl [unfolded index_def]] cnt)
        (simp_all add: word_le_nat_alt partlen index i nj flip: index_def)
    moreover have "md5_repr \<lparr>ctx_count = md5_count (?A @ ?R), ctx_state = rfc_absorb rfc_init ?A,
        ctx_buffer = ?R @ drop (?n - ?i) ?b\<rparr> (?A @ ?R)"
      using True len m k by (intro md5_reprI) auto
    moreover have "m @ take ?n inp = ?A @ ?R"
      using k take_add [of ?i "?n - ?i" inp] by (simp add: m take_add)
    ultimately show ?thesis by simp
  qed
qed

lemma MD5Init_repr:
  "length (ctx_count c) = 2 \<Longrightarrow> length (ctx_state c) = 4 \<Longrightarrow> length (ctx_buffer c) = 64 \<Longrightarrow>
   md5_repr (MD5Init c) []"
  by (auto simp: MD5Init_def md5_repr_def rfc_absorb_simps rfc_init_def length_Suc_conv
      numeral_2_eq_2 elim!: length_4E)

lemma MD5Encode_eq:
  "length inp * 4 = len \<Longrightarrow> length out = len \<Longrightarrow>
   MD5Encode out inp len = Some (concat (map (\<lambda>w. le_bytes 4 (uint w)) inp))"
  unfolding MD5Encode_def
  by (subst MD5Encode_loop_eq) (auto simp: map_nth [unfolded comp_def] map_map [symmetric, unfolded comp_def] intro!: arg_cong [of _ _ concat] nth_equalityI)

lemma of_int_div_256: "(of_int (x div 256 ^ i) :: u8) = of_int (drop_bit (8 * i) x)"
  by (simp add: drop_bit_eq_div power_mult)

lemma le_bytes_8:
  "le_bytes 8 (int l) = le_bytes 4 (uint (of_nat l :: u32)) @ le_bytes 4 (uint (of_nat (l div 2 ^ 32) :: u32))"
proof -
  have "[0..<8] = [0..<4] @ map (\<lambda>i. i + 4) [0..<4::nat]" by (simp add: upt_rec)
  moreover have "(of_int (int l div 256 ^ i) :: u8) = of_int (uint (of_nat l :: u32) div 256 ^ i)" if "i < 4" for i
    unfolding of_int_div_256 using that
    by (intro bit_word_eqI) (simp add: bit_simps unsigned_of_nat of_nat_take_bit del: of_nat_take_bit)
  moreover have "(of_int (int l div 256 ^ (i + 4)) :: u8) = of_int (uint (of_nat (l div 2 ^ 32) :: u32) div 256 ^ i)"
    if "i < 4" for i
    unfolding of_int_div_256 drop_bit_eq_div [symmetric] using that
    by (intro bit_word_eqI) (simp add: bit_simps unsigned_of_nat algebra_simps)
  ultimately show ?thesis by (simp add: le_bytes_def)
qed

lemma md5_padlen:
  fixes index :: u32
  assumes "unat index < 64"
  shows "unat (if index < 56 then 56 - index else 120 - index) = Suc ((119 - unat index) mod 64)"
proof (cases "unat index < 56")
  case True
  then have "119 - unat index = 64 + (55 - unat index)" by simp
  then have "(119 - unat index) mod 64 = 55 - unat index" by (simp only: mod_add_self1) simp
  with True show ?thesis by (simp add: word_less_nat_alt word_le_nat_alt unat_sub)
next
  case False
  with assms show ?thesis by (simp add: word_less_nat_alt word_le_nat_alt unat_sub)
qed

lemma MD5Final_eq:
  assumes repr: "md5_repr c m" and "length digest = 16"
  shows "\<exists>c'. MD5Final c digest = Some (c', rfc_md5 m)"
proof -
  obtain c0 c1 where cnt: "ctx_count c = [c0, c1]" and c01: "c0 = of_nat (8 * length m)" "c1 = of_nat (8 * length m div 2 ^ 32)"
    using repr by (auto simp: md5_repr_def)
  define index where "index = drop_bit 3 c0 AND 0x3F"
  have index: "unat index = length m mod 64" by (simp only: index_def c01 md5_index)
  define padlen where "padlen = (if index < 56 then 56 - index else 120 - index)"
  have padlen: "unat padlen = Suc ((119 - length m mod 64) mod 64)"
    using md5_padlen [of index] by (simp add: padlen_def index)
  then have pad: "take (unat padlen) PADDING = 0x80 # replicate ((119 - length m mod 64) mod 64) 0"
    and le: "unat padlen \<le> length PADDING"
    by (simp_all add: PADDING_def min_def less_Suc_eq_le [symmetric])
  let ?bits = "le_bytes 8 (int (8 * length m))"
  have bits: "MD5Encode (replicate 8 0) (ctx_count c) 8 = Some ?bits"
    by (subst MD5Encode_eq) (simp_all only: cnt c01 le_bytes_8, simp_all)
  obtain c1 where c1: "MD5Update c PADDING padlen = Some c1" "md5_repr c1 (m @ take (unat padlen) PADDING)"
    using MD5Update_repr [OF repr le] le by (auto simp: PADDING_def)
  obtain c2 where c2: "MD5Update c1 ?bits 8 = Some c2" "md5_repr c2 (rfc_pad m)"
    using MD5Update_repr [OF c1(2), of 8 ?bits] by (auto simp: pad rfc_pad_def length_le_bytes)
  then have "MD5Encode digest (ctx_state c2) 16 = Some (rfc_md5 m)"
    using assms(2) by (subst MD5Encode_eq) (simp_all add: md5_repr_def length_rfc_absorb rfc_md5_def)
  with cnt bits c1 c2 show ?thesis
    by (cases "index < 56") (simp_all add: MD5Final_def Let_def padlen_def flip: index_def)
qed

lemma MD5_feed_repr:
  assumes "md5_repr c m" and "\<forall>p \<in> set pieces. length p + 64 < 2 ^ 32"
  shows "\<exists>c'. MD5_feed c pieces = Some c' \<and> md5_repr c' (m @ concat pieces)"
  using assms unfolding MD5_feed_def
proof (induction pieces arbitrary: c m)
  case (Cons p ps)
  have "unat (of_nat (length p) :: u32) = length p"
    using Cons.prems(2) by (subst unat_of_nat) simp
  then obtain c1 where "MD5Update c p (of_nat (length p)) = Some c1" "md5_repr c1 (m @ p)"
    using MD5Update_repr [OF Cons.prems(1), of "of_nat (length p)" p] Cons.prems(2) by auto
  then show ?case using Cons.IH [of c1 "m @ p"] Cons.prems(2) by simp
qed simp

lemma le32_le_bytes: "le32 (le_bytes 4 (uint w) @ r) = w" for w :: u32
proof -
  have m: "(0xFF :: u32) = mask 8" by (simp add: mask_eq_exp_minus_1)
  have "le32 (le_bytes 4 (uint w) @ r) = le32 (le_bytes 4 (uint w))"
    by (simp add: le32_def nth_append length_le_bytes)
  also have "\<dots> = w"
    unfolding le_bytes_4 le32_or [symmetric] m
  proof (rule bit_word_eqI)
    fix n assume "n < LENGTH(32)"
    then consider "n < 8" | "8 \<le> n" "n < 16" | "16 \<le> n" "n < 24" | "24 \<le> n" "n < 32" by fastforce
    then show "bit (ucast (ucast (w AND mask 8) :: u8) OR push_bit 8 (ucast (ucast (drop_bit 8 w AND mask 8) :: u8)) OR
        push_bit 16 (ucast (ucast (drop_bit 16 w AND mask 8) :: u8)) OR
        push_bit 24 (ucast (ucast (drop_bit 24 w AND mask 8) :: u8)) :: u32) n = bit w n"
      by cases (simp_all add: bit_simps less_diff_conv2)
  qed
  finally show ?thesis .
qed

lemma drop_concat_bytes: "drop (4 * k) (concat (map (\<lambda>w. le_bytes 4 (uint w)) ws)) =
    concat (map (\<lambda>w. le_bytes 4 (uint w)) (drop k ws))" for ws :: "u32 list"
proof (induction ws arbitrary: k)
  case (Cons w ws)
  then show ?case by (cases k) (simp_all add: length_le_bytes)
qed simp

lemma MD5Decode_bytes:
  assumes "length out = length ws"
  shows "MD5Decode out (concat (map (\<lambda>w. le_bytes 4 (uint w)) ws)) (4 * length ws) = Some ws"
proof -
  have len: "length (concat (map (\<lambda>w. le_bytes 4 (uint w)) ws)) = 4 * length ws"
    by (induction ws) (simp_all add: length_le_bytes)
  have "le32 (concat (map (\<lambda>w. le_bytes 4 (uint w)) (drop k ws))) = ws ! k" if "k < length ws" for k
    using that le32_le_bytes by (simp add: Cons_nth_drop_Suc [symmetric])
  then show ?thesis
    unfolding MD5Decode_def using assms
    by (subst MD5Decode_loop_eq) (auto simp: len drop_concat_bytes intro: nth_equalityI)
qed

lemma MD5Update_blocks_max: "MD5Update_blocks st input 0xFFFFFFFF i = None"
proof -
  have le: "j \<le> (0xFFFFFFFF :: u32)" for j
    using unat_u32_less [of j] by (simp add: word_le_nat_alt)
  have "MD5Update_blocks st input n i = Some r \<Longrightarrow> n \<noteq> 0xFFFFFFFF" for n r
    by (erule MD5Update_blocks.raw_induct [where P = "\<lambda>st input n i r. n \<noteq> 0xFFFFFFFF", rotated])
      (auto simp: le split: Option.bind_splits if_splits)
  then show ?thesis by (cases "MD5Update_blocks st input 0xFFFFFFFF i") auto
qed

section \<open>Properties\<close>

text \<open>
  C8. For every message and every way of cutting it into pieces of fewer than \<open>2^32 - 64\<close> bytes,
  \<open>MD5Init\<close>, one \<open>MD5Update\<close> per piece and \<open>MD5Final\<close> terminate, stay inside their arrays and write the
  RFC 1321 digest of the whole message into the 16-byte output.
\<close>

theorem md5_streaming_digest:
  assumes "length (ctx_count c) = 2" and "length (ctx_state c) = 4" and "length (ctx_buffer c) = 64"
    and "length digest = 16" and "\<forall>p \<in> set pieces. length p + 64 < 2 ^ 32"
  shows "\<exists>c' c''. MD5_feed (MD5Init c) pieces = Some c' \<and>
    MD5Final c' digest = Some (c'', rfc_md5 (concat pieces))"
  using MD5_feed_repr [OF MD5Init_repr [OF assms(1-3)] assms(5)] MD5Final_eq [OF _ assms(4)] by auto

theorem md5_streaming_digest_witness:
  "\<exists>c' c''. MD5_feed (MD5Init \<lparr>ctx_count = [7, 7], ctx_state = replicate 4 9, ctx_buffer = replicate 64 5\<rparr>)
      [[0x61], [], [0x62, 0x63]] = Some c' \<and>
    MD5Final c' (replicate 16 0) = Some (c'', rfc_md5 [0x61, 0x62, 0x63])"
  using md5_streaming_digest [of "\<lparr>ctx_count = [7, 7], ctx_state = replicate 4 9, ctx_buffer = replicate 64 5\<rparr>"
      "replicate 16 0" "[[0x61], [], [0x62, 0x63]]"] by simp

text \<open>
  C9. The unrolled compression function with its 64 macro calls equals the table-driven definition of
  RFC 1321 (additive constants, shift amounts, message word order, auxiliary functions).
\<close>

theorem md5_transform_rfc:
  assumes "length s = 4" and "64 \<le> length block"
  shows "MD5Transform s block = Some (rfc_compress s (take 64 block))"
  using assms by (rule MD5Transform_eq)

theorem md5_transform_rfc_witness:
  "MD5Transform rfc_init (replicate 70 1) = Some (rfc_compress rfc_init (replicate 64 1))"
  using md5_transform_rfc [of rfc_init "replicate 70 1"] by simp

text \<open>
  C10. A call of \<open>MD5Update\<close> on a context that stands for message \<open>m\<close> gives a context that stands
  for \<open>m\<close> followed by the input, the bit count included (modulo \<open>2^64\<close>).
\<close>

theorem md5_update_refines:
  assumes "md5_repr c m" and "unat n \<le> length input" and "unat n + 64 < 2 ^ 32"
  shows "\<exists>c'. MD5Update c input n = Some c' \<and> md5_repr c' (m @ take (unat n) input)"
  using assms by (rule MD5Update_repr)

theorem md5_update_refines_witness:
  "\<exists>c'. MD5Update (MD5Init \<lparr>ctx_count = [0, 0], ctx_state = replicate 4 0, ctx_buffer = replicate 64 0\<rparr>)
     (replicate 100 3) 90 = Some c' \<and> md5_repr c' (replicate 90 3)"
  using md5_update_refines [OF MD5Init_repr, of
      "\<lparr>ctx_count = [0, 0], ctx_state = replicate 4 0, ctx_buffer = replicate 64 0\<rparr>" 90 "replicate 100 3"] by simp

text \<open>
  C11. The guard \<open>i + 64 <= inputlen\<close> is computed in 32 bits: with \<open>inputlen = 2^32 - 1\<close> it is
  always true and the call does not return normally on any input.
\<close>

theorem md5_update_max_length: "MD5Update c input 0xFFFFFFFF = None"
proof -
  have "j \<le> (0xFFFFFFFF :: u32)" for j
    using unat_u32_less [of j] by (simp add: word_le_nat_alt)
  then show ?thesis
    by (auto simp: MD5Update_def Let_def MD5Update_blocks_max split: Option.bind_splits)
qed

text \<open>\<open>MD5Decode\<close> reads back the words that \<open>MD5Encode\<close> wrote.\<close>

lemma md5_encode_decode:
  assumes "length out = 4 * length ws" and "length out' = length ws"
  shows "\<exists>bs. MD5Encode out ws (4 * length ws) = Some bs \<and> MD5Decode out' bs (4 * length ws) = Some ws"
  using assms by (auto simp: MD5Encode_eq MD5Decode_bytes)

end
