(* ===== verification/PG_MD5.thy ===== *)
theory PG_MD5
  imports Prelude
begin

text \<open>
  Model of \<open>other/postgresql-11.1/src/common/md5.c\<close>.  Memory is a list of bytes.  \<open>malloc\<close> is a parameter: it
  gives a block of the size asked for, with any content, or nothing.  A result \<open>None\<close> means that the code
  reads or writes outside an array or does not return.
\<close>

section \<open>The code\<close>

subsection \<open>Padding\<close>

definition append_length :: "u8 list \<Rightarrow> u32 \<Rightarrow> nat \<Rightarrow> u8 list option" where
  "append_length ret len q = do {
     let len_low = push_bit 3 len;
     let len_high = drop_bit 29 len;
     ret \<leftarrow> arr_set ret q (ucast (len_low AND 0xff));
     ret \<leftarrow> arr_set ret (q + 1) (ucast (drop_bit 8 len_low AND 0xff));
     ret \<leftarrow> arr_set ret (q + 2) (ucast (drop_bit 8 (drop_bit 8 len_low) AND 0xff));
     ret \<leftarrow> arr_set ret (q + 3) (ucast (drop_bit 8 (drop_bit 8 (drop_bit 8 len_low)) AND 0xff));
     ret \<leftarrow> arr_set ret (q + 4) (ucast (len_high AND 0xff));
     ret \<leftarrow> arr_set ret (q + 5) (ucast (drop_bit 8 len_high AND 0xff));
     ret \<leftarrow> arr_set ret (q + 6) (ucast (drop_bit 8 (drop_bit 8 len_high) AND 0xff));
     arr_set ret (q + 7) (ucast (drop_bit 8 (drop_bit 8 (drop_bit 8 len_high)) AND 0xff)) }"

text \<open>
  The result is the new value of \<open>*l\<close> and the block returned, \<open>None\<close> for \<open>NULL\<close>.  The loop over \<open>q\<close> does not wrap
  around: it starts at \<open>len + 1\<close>, and \<open>len\<close> is then an index of the block.
\<close>

definition createPaddedCopyWithLength ::
    "(nat \<Rightarrow> u8 list option) \<Rightarrow> u8 list option \<Rightarrow> u32 \<Rightarrow> (u32 \<times> u8 list option) option" where
  "createPaddedCopyWithLength malloc b l = (
     let len = (case b of None \<Rightarrow> 0 | Some _ \<Rightarrow> l);
         newLen448 = len + 64 - len mod 64 - 8;
         newLen448 = (if newLen448 \<le> len then newLen448 + 64 else newLen448);
         l = newLen448 + 8
     in case malloc (unat l) of
          None \<Rightarrow> Some (l, None)
        | Some ret \<Rightarrow> do {
            ret \<leftarrow> (case b of None \<Rightarrow> Some ret | Some b \<Rightarrow> memcpy ret 0 b 0 (unat len));
            ret \<leftarrow> arr_set ret (unat len) 0x80;
            ret \<leftarrow> foldM (\<lambda>q ret. arr_set ret q 0) [unat len + 1..<unat newLen448] ret;
            ret \<leftarrow> append_length ret len (unat newLen448);
            Some (l, Some ret) })"

subsection \<open>The rounds\<close>

definition pg_F :: "u32 \<Rightarrow> u32 \<Rightarrow> u32 \<Rightarrow> u32" where "pg_F x y z = (x AND y) OR (NOT x AND z)"
definition pg_G :: "u32 \<Rightarrow> u32 \<Rightarrow> u32 \<Rightarrow> u32" where "pg_G x y z = (x AND z) OR (y AND NOT z)"
definition pg_H :: "u32 \<Rightarrow> u32 \<Rightarrow> u32 \<Rightarrow> u32" where "pg_H x y z = (x XOR y) XOR z"
definition pg_I :: "u32 \<Rightarrow> u32 \<Rightarrow> u32 \<Rightarrow> u32" where "pg_I x y z = y XOR (x OR NOT z)"
definition ROT_LEFT :: "u32 \<Rightarrow> nat \<Rightarrow> u32" where "ROT_LEFT x n = push_bit n x OR drop_bit (32 - n) x"

text \<open>
  One line of \<open>doTheRounds\<close>, \<open>a = b + ROT_LEFT((a + F(b, c, d) + x + ac), s)\<close>, on the list of the four local
  variables; the first four arguments say which of them the line uses.
\<close>

definition pg_F_line :: "nat \<Rightarrow> nat \<Rightarrow> nat \<Rightarrow> nat \<Rightarrow> u32 \<Rightarrow> u32 \<Rightarrow> nat \<Rightarrow> u32 list \<Rightarrow> u32 list" where
  "pg_F_line a b c d x ac s r = r[a := r ! b + ROT_LEFT (r ! a + pg_F (r ! b) (r ! c) (r ! d) + x + ac) s]"

definition pg_G_line :: "nat \<Rightarrow> nat \<Rightarrow> nat \<Rightarrow> nat \<Rightarrow> u32 \<Rightarrow> u32 \<Rightarrow> nat \<Rightarrow> u32 list \<Rightarrow> u32 list" where
  "pg_G_line a b c d x ac s r = r[a := r ! b + ROT_LEFT (r ! a + pg_G (r ! b) (r ! c) (r ! d) + x + ac) s]"

definition pg_H_line :: "nat \<Rightarrow> nat \<Rightarrow> nat \<Rightarrow> nat \<Rightarrow> u32 \<Rightarrow> u32 \<Rightarrow> nat \<Rightarrow> u32 list \<Rightarrow> u32 list" where
  "pg_H_line a b c d x ac s r = r[a := r ! b + ROT_LEFT (r ! a + pg_H (r ! b) (r ! c) (r ! d) + x + ac) s]"

definition pg_I_line :: "nat \<Rightarrow> nat \<Rightarrow> nat \<Rightarrow> nat \<Rightarrow> u32 \<Rightarrow> u32 \<Rightarrow> nat \<Rightarrow> u32 list \<Rightarrow> u32 list" where
  "pg_I_line a b c d x ac s r = r[a := r ! b + ROT_LEFT (r ! a + pg_I (r ! b) (r ! c) (r ! d) + x + ac) s]"

abbreviation (input) ra :: nat where "ra \<equiv> 0"
abbreviation (input) rb :: nat where "rb \<equiv> 1"
abbreviation (input) rc :: nat where "rc \<equiv> 2"
abbreviation (input) rd :: nat where "rd \<equiv> 3"

definition pg_round1 :: "u32 list \<Rightarrow> (u32 list \<Rightarrow> u32 list) list" where
  "pg_round1 X =
    [pg_F_line ra rb rc rd (X ! 0) 0xd76aa478 7,
     pg_F_line rd ra rb rc (X ! 1) 0xe8c7b756 12,
     pg_F_line rc rd ra rb (X ! 2) 0x242070db 17,
     pg_F_line rb rc rd ra (X ! 3) 0xc1bdceee 22,
     pg_F_line ra rb rc rd (X ! 4) 0xf57c0faf 7,
     pg_F_line rd ra rb rc (X ! 5) 0x4787c62a 12,
     pg_F_line rc rd ra rb (X ! 6) 0xa8304613 17,
     pg_F_line rb rc rd ra (X ! 7) 0xfd469501 22,
     pg_F_line ra rb rc rd (X ! 8) 0x698098d8 7,
     pg_F_line rd ra rb rc (X ! 9) 0x8b44f7af 12,
     pg_F_line rc rd ra rb (X ! 10) 0xffff5bb1 17,
     pg_F_line rb rc rd ra (X ! 11) 0x895cd7be 22,
     pg_F_line ra rb rc rd (X ! 12) 0x6b901122 7,
     pg_F_line rd ra rb rc (X ! 13) 0xfd987193 12,
     pg_F_line rc rd ra rb (X ! 14) 0xa679438e 17,
     pg_F_line rb rc rd ra (X ! 15) 0x49b40821 22]"

definition pg_round2 :: "u32 list \<Rightarrow> (u32 list \<Rightarrow> u32 list) list" where
  "pg_round2 X =
    [pg_G_line ra rb rc rd (X ! 1) 0xf61e2562 5,
     pg_G_line rd ra rb rc (X ! 6) 0xc040b340 9,
     pg_G_line rc rd ra rb (X ! 11) 0x265e5a51 14,
     pg_G_line rb rc rd ra (X ! 0) 0xe9b6c7aa 20,
     pg_G_line ra rb rc rd (X ! 5) 0xd62f105d 5,
     pg_G_line rd ra rb rc (X ! 10) 0x02441453 9,
     pg_G_line rc rd ra rb (X ! 15) 0xd8a1e681 14,
     pg_G_line rb rc rd ra (X ! 4) 0xe7d3fbc8 20,
     pg_G_line ra rb rc rd (X ! 9) 0x21e1cde6 5,
     pg_G_line rd ra rb rc (X ! 14) 0xc33707d6 9,
     pg_G_line rc rd ra rb (X ! 3) 0xf4d50d87 14,
     pg_G_line rb rc rd ra (X ! 8) 0x455a14ed 20,
     pg_G_line ra rb rc rd (X ! 13) 0xa9e3e905 5,
     pg_G_line rd ra rb rc (X ! 2) 0xfcefa3f8 9,
     pg_G_line rc rd ra rb (X ! 7) 0x676f02d9 14,
     pg_G_line rb rc rd ra (X ! 12) 0x8d2a4c8a 20]"

definition pg_round3 :: "u32 list \<Rightarrow> (u32 list \<Rightarrow> u32 list) list" where
  "pg_round3 X =
    [pg_H_line ra rb rc rd (X ! 5) 0xfffa3942 4,
     pg_H_line rd ra rb rc (X ! 8) 0x8771f681 11,
     pg_H_line rc rd ra rb (X ! 11) 0x6d9d6122 16,
     pg_H_line rb rc rd ra (X ! 14) 0xfde5380c 23,
     pg_H_line ra rb rc rd (X ! 1) 0xa4beea44 4,
     pg_H_line rd ra rb rc (X ! 4) 0x4bdecfa9 11,
     pg_H_line rc rd ra rb (X ! 7) 0xf6bb4b60 16,
     pg_H_line rb rc rd ra (X ! 10) 0xbebfbc70 23,
     pg_H_line ra rb rc rd (X ! 13) 0x289b7ec6 4,
     pg_H_line rd ra rb rc (X ! 0) 0xeaa127fa 11,
     pg_H_line rc rd ra rb (X ! 3) 0xd4ef3085 16,
     pg_H_line rb rc rd ra (X ! 6) 0x04881d05 23,
     pg_H_line ra rb rc rd (X ! 9) 0xd9d4d039 4,
     pg_H_line rd ra rb rc (X ! 12) 0xe6db99e5 11,
     pg_H_line rc rd ra rb (X ! 15) 0x1fa27cf8 16,
     pg_H_line rb rc rd ra (X ! 2) 0xc4ac5665 23]"

definition pg_round4 :: "u32 list \<Rightarrow> (u32 list \<Rightarrow> u32 list) list" where
  "pg_round4 X =
    [pg_I_line ra rb rc rd (X ! 0) 0xf4292244 6,
     pg_I_line rd ra rb rc (X ! 7) 0x432aff97 10,
     pg_I_line rc rd ra rb (X ! 14) 0xab9423a7 15,
     pg_I_line rb rc rd ra (X ! 5) 0xfc93a039 21,
     pg_I_line ra rb rc rd (X ! 12) 0x655b59c3 6,
     pg_I_line rd ra rb rc (X ! 3) 0x8f0ccc92 10,
     pg_I_line rc rd ra rb (X ! 10) 0xffeff47d 15,
     pg_I_line rb rc rd ra (X ! 1) 0x85845dd1 21,
     pg_I_line ra rb rc rd (X ! 8) 0x6fa87e4f 6,
     pg_I_line rd ra rb rc (X ! 15) 0xfe2ce6e0 10,
     pg_I_line rc rd ra rb (X ! 6) 0xa3014314 15,
     pg_I_line rb rc rd ra (X ! 13) 0x4e0811a1 21,
     pg_I_line ra rb rc rd (X ! 4) 0xf7537e82 6,
     pg_I_line rd ra rb rc (X ! 11) 0xbd3af235 10,
     pg_I_line rc rd ra rb (X ! 2) 0x2ad7d2bb 15,
     pg_I_line rb rc rd ra (X ! 9) 0xeb86d391 21]"

definition doTheRounds :: "u32 list \<Rightarrow> u32 list \<Rightarrow> u32 list option" where
  "doTheRounds X state = do {
     a \<leftarrow> arr_get state 0;
     b \<leftarrow> arr_get state 1;
     c \<leftarrow> arr_get state 2;
     d \<leftarrow> arr_get state 3;
     let r = fold (\<lambda>f. f) (pg_round1 X @ pg_round2 X @ pg_round3 X @ pg_round4 X) [a, b, c, d];
     Some (state[0 := state ! 0 + r ! 0, 1 := state ! 1 + r ! 1, 2 := state ! 2 + r ! 2, 3 := state ! 3 + r ! 3]) }"

subsection \<open>The digest\<close>

text \<open>\<open>k\<close> is the index of the last byte of the word; the word and the new \<open>k\<close> are returned.\<close>

definition load_word :: "u8 list \<Rightarrow> nat \<Rightarrow> (u32 \<times> nat) option" where
  "load_word input k = do {
     b3 \<leftarrow> arr_get input k;
     let w = push_bit 8 (ucast b3 :: u32);
     b2 \<leftarrow> arr_get input (k - 1);
     let w = push_bit 8 (w OR ucast b2);
     b1 \<leftarrow> arr_get input (k - 2);
     let w = push_bit 8 (w OR ucast b1);
     b0 \<leftarrow> arr_get input (k - 3);
     Some (w OR ucast b0, k - 3 + 7) }"

definition load_block :: "u8 list \<Rightarrow> nat \<Rightarrow> u32 list option" where
  "load_block input i = do {
     (workBuff, k) \<leftarrow> foldM (\<lambda>j (workBuff, k). do {
         (w, k) \<leftarrow> load_word input k;
         workBuff \<leftarrow> arr_set workBuff j w;
         Some (workBuff, k) }) [0..<16] (replicate 16 0, i + 3);
     Some workBuff }"

text \<open>The loop over the blocks; \<open>newI\<close> is a 32-bit word.\<close>

partial_function (option) digest_blocks :: "u8 list \<Rightarrow> u32 \<Rightarrow> u32 list \<Rightarrow> u32 \<Rightarrow> u32 list option" where
  "digest_blocks input l state i =
     (let newI = i + 64
      in if l < newI then Some state
         else do {
           workBuff \<leftarrow> load_block input (unat i);
           state \<leftarrow> doTheRounds workBuff state;
           digest_blocks input l state newI })"

declare digest_blocks.simps [code]

definition store_digest :: "u32 list \<Rightarrow> u8 list \<Rightarrow> u8 list option" where
  "store_digest state sm = do {
     (sm, j) \<leftarrow> foldM (\<lambda>i (sm, j). do {
         k \<leftarrow> arr_get state i;
         sm \<leftarrow> arr_set sm j (ucast (k AND 0xff));
         sm \<leftarrow> arr_set sm (j + 1) (ucast (drop_bit 8 k AND 0xff));
         sm \<leftarrow> arr_set sm (j + 2) (ucast (drop_bit 8 (drop_bit 8 k) AND 0xff));
         sm \<leftarrow> arr_set sm (j + 3) (ucast (drop_bit 8 (drop_bit 8 (drop_bit 8 k)) AND 0xff));
         Some (sm, j + 4) }) [0..<4] (sm, 0 :: nat);
     Some sm }"

definition calculateDigestFromBuffer ::
    "(nat \<Rightarrow> u8 list option) \<Rightarrow> u8 list option \<Rightarrow> u32 \<Rightarrow> u8 list \<Rightarrow> (bool \<times> u8 list) option" where
  "calculateDigestFromBuffer malloc b len sm = do {
     (l, input) \<leftarrow> createPaddedCopyWithLength malloc b len;
     (case input of
        None \<Rightarrow> Some (False, sm)
      | Some input \<Rightarrow> do {
          state \<leftarrow> digest_blocks input l [0x67452301, 0xEFCDAB89, 0x98BADCFE, 0x10325476] 0;
          sm \<leftarrow> store_digest state sm;
          Some (True, sm) }) }"

subsection \<open>The entry points\<close>

definition hex_digits :: "u8 list" where
  "hex_digits = map of_char ''0123456789abcdef''"

definition bytesToHex :: "u8 list \<Rightarrow> u8 list \<Rightarrow> u8 list option" where
  "bytesToHex b s = do {
     (s, w) \<leftarrow> foldM (\<lambda>q (s, w). do {
         x \<leftarrow> arr_get b q;
         h \<leftarrow> arr_get hex_digits (unat (drop_bit 4 x AND 0x0F));
         s \<leftarrow> arr_set s w h;
         h \<leftarrow> arr_get hex_digits (unat (x AND 0x0F));
         s \<leftarrow> arr_set s (w + 1) h;
         Some (s, w + 2) }) [0..<16] (s, 0 :: nat);
     arr_set s w 0 }"

text \<open>The length is a \<open>size_t\<close>; the call of \<open>calculateDigestFromBuffer\<close> cuts it to 32 bits.\<close>

definition pg_md5_hash ::
    "(nat \<Rightarrow> u8 list option) \<Rightarrow> u8 list option \<Rightarrow> nat \<Rightarrow> u8 list \<Rightarrow> (bool \<times> u8 list) option" where
  "pg_md5_hash malloc buff len hexsum = do {
     (ok, sm) \<leftarrow> calculateDigestFromBuffer malloc buff (of_nat len) (replicate 16 0);
     if \<not> ok then Some (False, hexsum)
     else do {
       hexsum \<leftarrow> bytesToHex sm hexsum;
       Some (True, hexsum) } }"

definition pg_md5_binary ::
    "(nat \<Rightarrow> u8 list option) \<Rightarrow> u8 list option \<Rightarrow> nat \<Rightarrow> u8 list \<Rightarrow> (bool \<times> u8 list) option" where
  "pg_md5_binary malloc buff len outbuf = calculateDigestFromBuffer malloc buff (of_nat len) outbuf"

text \<open>\<open>strlen\<close>: the index of the first zero byte.\<close>

fun strlen :: "u8 list \<Rightarrow> nat option" where
  "strlen [] = None"
| "strlen (b # bs) = (if b = 0 then Some 0 else map_option Suc (strlen bs))"

definition pg_md5_encrypt ::
    "(nat \<Rightarrow> u8 list option) \<Rightarrow> u8 list \<Rightarrow> u8 list \<Rightarrow> nat \<Rightarrow> u8 list \<Rightarrow> (bool \<times> u8 list) option" where
  "pg_md5_encrypt malloc passwd salt salt_len buf = do {
     passwd_len \<leftarrow> strlen passwd;
     (case malloc (passwd_len + salt_len + 1) of
        None \<Rightarrow> Some (False, buf)
      | Some crypt_buf \<Rightarrow> do {
          crypt_buf \<leftarrow> memcpy crypt_buf 0 passwd 0 passwd_len;
          crypt_buf \<leftarrow> memcpy crypt_buf passwd_len salt 0 salt_len;
          buf \<leftarrow> memcpy buf 0 (map of_char ''md5'' @ [0]) 0 4;
          (ret, hexsum) \<leftarrow> pg_md5_hash malloc (Some crypt_buf) (passwd_len + salt_len) (drop 3 buf);
          Some (ret, take 3 buf @ hexsum) }) }"

end
