(* ===== verification/PG_MD5_Correct.thy ===== *)
theory PG_MD5_Correct
  imports PG_MD5 MD5_Correct
begin

text \<open>
  PostgreSQL's MD5 computes the RFC 1321 digest: its lines are the macro calls of the hatch code, it meets the
  contract of a block transformation, and its padded copy is the padded message.  The digest of a password has
  the documented format.
\<close>

section \<open>Auxiliary definitions\<close>

text \<open>One block: load its words and do the rounds.\<close>

definition pg_md5_transform :: "u32 list \<Rightarrow> u8 list \<Rightarrow> u32 list option" where
  "pg_md5_transform s b = do { w \<leftarrow> load_block b 0; doTheRounds w s }"

text \<open>The padded length without the eight bytes of the bit count.\<close>

definition padded_448 :: "u32 \<Rightarrow> u32" where
  "padded_448 len = (let n = len + 64 - len mod 64 - 8 in if n \<le> len then n + 64 else n)"

text \<open>Two hexadecimal digits for each byte.\<close>

definition hex_of :: "u8 list \<Rightarrow> u8 list" where
  "hex_of bs = concat (map (\<lambda>x. [hex_digits ! (unat x div 16), hex_digits ! (unat x mod 16)]) bs)"

section \<open>The rounds\<close>

lemma ROT_LEFT_eq: "ROT_LEFT x n = ROTATE_LEFT x n"
  by (simp add: ROT_LEFT_def ROTATE_LEFT_def)

lemma lines_macros:
  "pg_F_line a b c d x ac s = FF a b c d x s ac" "pg_G_line a b c d x ac s = GG a b c d x s ac"
  "pg_H_line a b c d x ac s = HH a b c d x s ac" "pg_I_line a b c d x ac s = II a b c d x s ac"
  by (rule ext, simp add: ROT_LEFT_eq pg_F_line_def pg_G_line_def pg_H_line_def pg_I_line_def FF_def GG_def HH_def II_def
      pg_F_def pg_G_def pg_H_def pg_I_def MD5_F_def MD5_G_def MD5_H_def MD5_I_def add.assoc add.commute [of "_ ! b"])+

lemma pg_rounds:
  "pg_round1 X @ pg_round2 X @ pg_round3 X @ pg_round4 X = MD5_round1 X @ MD5_round2 X @ MD5_round3 X @ MD5_round4 X"
  by (simp only: pg_round1_def pg_round2_def pg_round3_def pg_round4_def
      MD5_round1_def MD5_round2_def MD5_round3_def MD5_round4_def lines_macros)

lemma rounds_prefix:
  assumes "length X = 16"
  shows "MD5_round1 (X @ zs) @ MD5_round2 (X @ zs) @ MD5_round3 (X @ zs) @ MD5_round4 (X @ zs) =
    MD5_round1 X @ MD5_round2 X @ MD5_round3 X @ MD5_round4 X"
proof -
  have "(X @ zs) ! k = X ! k" if "k < 16" for k using assms that by (simp add: nth_append)
  then show ?thesis
    unfolding MD5_round1_def MD5_round2_def MD5_round3_def MD5_round4_def by simp
qed

lemma doTheRounds_transform:
  assumes "64 \<le> length block"
  shows "doTheRounds (map (\<lambda>k. le32 (drop (4 * k) block)) [0..<16]) s = MD5Transform s block"
proof -
  let ?X = "map (\<lambda>k. le32 (drop (4 * k) block)) [0..<16]"
  have "MD5Decode (replicate 64 0) block 64 = Some (?X @ replicate 48 0)"
    using assms by (simp add: MD5Decode_def MD5Decode_loop_eq)
  moreover have "length ?X = 16" by simp
  ultimately show ?thesis
    unfolding doTheRounds_def MD5Transform_def pg_rounds by (simp only: Option.bind.bind_lunit rounds_prefix)
qed

section \<open>Blocks\<close>

lemma load_word_eq:
  assumes "i + 4 \<le> length input"
  shows "load_word input (i + 3) = Some (le32 (drop i input), i + 7)"
proof -
  have "push_bit 8 (push_bit 8 (push_bit 8 (ucast b3) OR ucast b2) OR ucast b1) OR ucast b0 =
      (ucast b0 OR push_bit 8 (ucast b1) OR push_bit 16 (ucast b2) OR push_bit 24 (ucast b3) :: u32)"
    for b0 b1 b2 b3 :: u8
    by (simp add: push_bit_or push_bit_push_bit ac_simps)
  then show ?thesis
    using assms by (simp add: load_word_def le32_or Let_def) (simp add: le32_def)
qed

lemma load_block_eq:
  assumes "i + 64 \<le> length input"
  shows "load_block input i = Some (map (\<lambda>k. le32 (drop (i + 4 * k) input)) [0..<16])"
proof -
  let ?f = "\<lambda>j (workBuff, k). do { (w, k) \<leftarrow> load_word input k; workBuff \<leftarrow> arr_set workBuff j w; Some (workBuff, k) }"
  have "foldM ?f [0..<n] (replicate 16 0, i + 3) =
      Some (map (\<lambda>k. le32 (drop (i + 4 * k) input)) [0..<n] @ replicate (16 - n) 0, i + 4 * n + 3)"
    if "n \<le> 16" for n
    using that
  proof (induction n)
    case (Suc n)
    have w: "load_word input (i + 4 * n + 3) = Some (le32 (drop (i + 4 * n) input), i + 4 * n + 7)"
      using Suc.prems assms by (intro load_word_eq) simp
    have r: "replicate (16 - n) (0 :: u32) = 0 # replicate (16 - Suc n) 0"
      using Suc.prems by (simp add: Suc_diff_Suc [symmetric])
    show ?case
      using Suc w by (simp add: foldM_append r list_update_append)
  qed simp
  from this [of 16] show ?thesis by (simp add: load_block_def)
qed

lemma pg_md5_transform_eq: "64 \<le> length b \<Longrightarrow> pg_md5_transform s b = MD5Transform s b"
  by (simp add: pg_md5_transform_def load_block_eq doTheRounds_transform)

interpretation pg_block: block_transform pg_md5_transform rfc_compress "\<lambda>s. length s = 4" 64
  by unfold_locales (simp_all add: pg_md5_transform_eq MD5Transform_eq md5_block.valid_compress)

lemma load_block_drop: "i + 64 \<le> length input \<Longrightarrow> load_block input i = load_block (drop i input) 0"
  by (simp add: load_block_eq add.commute)

lemma digest_blocks_eq:
  assumes "length st = 4" "unat l \<le> length input" "unat l + 64 < 2 ^ 32" "i \<le> l" "unat l - unat i = 64 * k"
  shows "digest_blocks input l st i = Some (rfc_absorb st (take (64 * k) (drop (unat i) input)))"
  using assms
proof (induction k arbitrary: st i)
  case 0
  have "unat (i + 64) = unat i + 64"
    using "0.prems" by (subst unat_add_lem [THEN iffD1]) (simp_all add: word_le_nat_alt)
  then have "l < i + 64" using "0.prems" by (simp add: word_less_nat_alt)
  then show ?case by (subst digest_blocks.simps) (simp add: rfc_absorb_simps)
next
  case (Suc k)
  have u: "unat (i + 64) = unat i + 64"
    using Suc.prems by (subst unat_add_lem [THEN iffD1]) (simp_all add: word_le_nat_alt)
  have ge: "unat i + 64 \<le> unat l" using Suc.prems(5) unfolding mult_Suc_right by linarith
  then have le: "\<not> l < i + 64" by (simp add: word_less_nat_alt u)
  let ?b = "take 64 (drop (unat i) input)"
  have "do { w \<leftarrow> load_block input (unat i); doTheRounds w st } = Some (rfc_absorb st ?b)"
    using pg_block.transform_absorb [of st "drop (unat i) input", folded rfc_absorb_def]
      load_block_drop [of "unat i" input] Suc.prems ge
    by (simp add: pg_md5_transform_def)
  then have "digest_blocks input l st i = digest_blocks input l (rfc_absorb st ?b) (i + 64)"
    using le by (subst digest_blocks.simps) (auto simp: Let_def split: bind_splits)
  also have "\<dots> = Some (rfc_absorb (rfc_absorb st ?b) (take (64 * k) (drop (unat (i + 64)) input)))"
    using Suc.prems ge by (intro Suc.IH) (auto simp: u length_rfc_absorb word_le_nat_alt)
  also have "rfc_absorb (rfc_absorb st ?b) (take (64 * k) (drop (unat (i + 64)) input)) =
      rfc_absorb st (?b @ take (64 * k) (drop (unat (i + 64)) input))"
    using Suc.prems ge by (subst rfc_absorb_simps) simp_all
  also have "?b @ take (64 * k) (drop (unat (i + 64)) input) = take (64 * Suc k) (drop (unat i) input)"
    by (simp add: u take_add add.commute)
  finally show ?case .
qed

section \<open>Padding\<close>

lemma unat_padded_448:
  assumes "unat len + 136 < 2 ^ 32"
  shows "unat (padded_448 len) = unat len + 1 + (119 - unat len mod 64) mod 64"
proof -
  have a: "unat (len + 64) = unat len + 64"
    using assms by (subst unat_add_lem [THEN iffD1]) simp_all
  have m: "unat (len mod 64) = unat len mod 64" by (simp add: unat_mod)
  have r: "unat len mod 64 < 64" by simp
  have s: "unat (len + 64 - len mod 64) = unat len + 64 - unat len mod 64"
    using a m r by (subst unat_sub) (simp_all add: word_le_nat_alt)
  define N where "N = len + 64 - len mod 64 - 8"
  define k where "k = unat len mod 64"
  have k: "k < 64" "k \<le> unat len" by (simp_all add: k_def)
  have n: "unat N = unat len + 56 - k"
    unfolding N_def using s r by (subst unat_sub) (simp_all add: word_le_nat_alt k_def)
  have b: "unat (N + 64) = unat len + 120 - k"
    using n k assms by (subst unat_add_lem [THEN iffD1]) simp_all
  have p: "unat (padded_448 len) = (if unat len + 56 - k \<le> unat len then unat len + 120 - k else unat len + 56 - k)"
    using n b by (simp add: padded_448_def Let_def word_le_nat_alt flip: N_def)
  have "(119 - k) mod 64 = (if k < 56 then 55 - k else 119 - k)"
  proof (cases "k < 56")
    case True
    then have "119 - k = 64 + (55 - k)" by simp
    with True show ?thesis by (simp only: mod_add_self1) simp
  qed (use k in simp)
  with p k show ?thesis unfolding k_def [symmetric] by (auto split: if_splits)
qed

lemma length_8: "length xs = 8 \<Longrightarrow> \<exists>a b c d e f g h. xs = [a, b, c, d, e, f, g, h]"
  by (auto simp: numeral_eq_Suc length_Suc_conv)

lemma append_length_eq:
  assumes "length xs = q" "length ys = 8"
  shows "append_length (xs @ ys) len q = Some (xs @ le_bytes 4 (uint (push_bit 3 len)) @ le_bytes 4 (uint (drop_bit 29 len)))"
proof -
  obtain a b c d e f g h where "ys = [a, b, c, d, e, f, g, h]" using length_8 [OF assms(2)] by blast
  then show ?thesis
    using assms(1) by (simp add: append_length_def Let_def le_bytes_4 list_update_append drop_bit_drop_bit add.commute)
qed

lemma length_bits:
  fixes len :: u32
  assumes "unat len = n"
  shows "le_bytes 8 (8 * int n) = le_bytes 4 (uint (push_bit 3 len)) @ le_bytes 4 (uint (drop_bit 29 len))"
proof -
  have "(of_nat (8 * n) :: u32) = push_bit 3 len" using assms by (auto simp: push_bit_eq_mult)
  moreover have "(of_nat (8 * n div 2 ^ 32) :: u32) = drop_bit 29 len"
  proof -
    have "8 * n div 2 ^ 32 = n div 2 ^ 29" by simp
    then have "unat (of_nat (8 * n div 2 ^ 32) :: u32) = unat (drop_bit 29 len)"
      using assms unat_u32_less [of len] by (simp add: unat_of_nat unsigned_drop_bit_eq drop_bit_eq_div unat_div)
    then show ?thesis by (simp only: word_unat_eq_iff)
  qed
  moreover have "8 * int n = int (8 * n)" by simp
  ultimately show ?thesis by (simp only: le_bytes_8)
qed

lemma foldM_zero:
  assumes "a + k \<le> length t"
  shows "foldM (\<lambda>q t. arr_set t q 0) [a..<a + k] t = Some (take a t @ replicate k 0 @ drop (a + k) t)"
proof -
  have "[a..<a + k] = map ((+) a) [0..<k]" by (rule nth_equalityI) auto
  then have "foldM (\<lambda>q t. arr_set t q 0) [a..<a + k] t = foldM (\<lambda>i t. arr_set t (a + i) 0) [0..<k] t"
    by (simp only: foldM_map)
  then show ?thesis using foldM_fill_at [OF assms, of "\<lambda>_. 0"] by (simp add: map_replicate_const)
qed

lemma createPadded_eq:
  assumes "unat len + 136 < 2 ^ 32" "unat len \<le> length b" "m = take (unat len) b"
    and "malloc (length (rfc_pad m)) = Some ret" "length ret = length (rfc_pad m)"
  shows "createPaddedCopyWithLength malloc (Some b) len = Some (of_nat (length (rfc_pad m)), Some (rfc_pad m))"
proof -
  have m: "length m = unat len" using assms(2,3) by simp
  let ?N = "unat (padded_448 len)" and ?k = "(119 - unat len mod 64) mod 64"
  have N: "?N = unat len + 1 + ?k" by (rule unat_padded_448 [OF assms(1)])
  have k: "?k < 64" by simp
  have l: "length (rfc_pad m) = ?N + 8" by (simp add: rfc_pad_def N m)
  have u: "unat (padded_448 len + 8) = ?N + 8"
    using N k assms(1) by (subst unat_add_lem [THEN iffD1]) simp_all
  have w: "padded_448 len + 8 = of_nat (length (rfc_pad m))"
    using arg_cong [OF u, of "of_nat :: nat \<Rightarrow> u32"] l by simp
  let ?r1 = "m @ drop (unat len) ret"
  have r1: "memcpy ret 0 b 0 (unat len) = Some ?r1" using assms(2,3,5) l N by simp
  let ?r2 = "m @ 0x80 # drop (unat len + 1) ret"
  have r2: "arr_set ?r1 (unat len) 0x80 = Some ?r2"
    using assms(5) m l N by (simp add: list_update_append Cons_nth_drop_Suc [symmetric])
  let ?r3 = "(m @ 0x80 # replicate ?k 0) @ drop ?N ret"
  have r3: "foldM (\<lambda>q ret. arr_set ret q 0) [unat len + 1..<?N] ?r2 = Some ?r3"
    using foldM_zero [of "unat len + 1" ?k ?r2] assms(5) m l N by (simp add: add.commute)
  have r4: "append_length ?r3 len ?N = Some (rfc_pad m)"
    using append_length_eq [of "m @ 0x80 # replicate ?k 0" ?N "drop ?N ret" len] length_bits [of len] assms(5) m l N
    by (simp add: rfc_pad_def)
  have "createPaddedCopyWithLength malloc (Some b) len =
      (case malloc K of None \<Rightarrow> Some (padded_448 len + 8, None) | Some ret \<Rightarrow> do {
        ret \<leftarrow> memcpy ret 0 b 0 (unat len); ret \<leftarrow> arr_set ret (unat len) 0x80;
        ret \<leftarrow> foldM (\<lambda>q ret. arr_set ret q 0) [unat len + 1..<?N] ret;
        ret \<leftarrow> append_length ret len ?N; Some (padded_448 len + 8, Some ret) })"
    if "K = unat (padded_448 len + 8)" for K
    unfolding that createPaddedCopyWithLength_def padded_448_def Let_def by (simp only: option.case)
  note eq = this [OF trans [OF l sym [OF u]]]
  show ?thesis unfolding eq assms(4) option.case r1 r2 r3 r4 Option.bind.bind_lunit w ..
qed

section \<open>The digest\<close>

lemma length_rfc_pad: "length (rfc_pad m) = length m + 9 + (119 - length m mod 64) mod 64"
  by (simp add: rfc_pad_def)

lemma rfc_pad_blocks: "64 dvd length (rfc_pad m)"
proof -
  define q where "q = length m div 64"
  define r where "r = length m mod 64"
  have "length m = 64 * q + r" "r < 64" by (simp_all add: q_def r_def)
  moreover have "(119 - r) mod 64 = (if r < 56 then 55 - r else 119 - r)"
  proof (cases "r < 56")
    case True
    then have "119 - r = 64 + (55 - r)" by simp
    with True show ?thesis by (simp only: mod_add_self1) simp
  qed (use \<open>r < 64\<close> in simp)
  ultimately have "length (rfc_pad m) = 64 * (if r < 56 then q + 1 else q + 2)"
    unfolding length_rfc_pad r_def [symmetric] by simp
  then show ?thesis by simp
qed

lemma store_digest_eq:
  assumes "length st = 4" "length sm = 16"
  shows "store_digest st sm = Some (concat (map (\<lambda>w. le_bytes 4 (uint w)) st))"
proof -
  obtain a b c d where st: "st = [a, b, c, d]" using assms(1) by (rule length_4E)
  obtain xs ys where sm: "sm = xs @ ys" "length xs = 8" "length ys = 8"
    using assms(2) by (metis add_diff_cancel_right' append_take_drop_id length_drop length_take min.absorb2
        numeral_Bit0 le_add2)
  from length_8 [OF sm(2)] length_8 [OF sm(3)] show ?thesis
    by (auto simp: store_digest_def st sm(1) upt_rec le_bytes_4 drop_bit_drop_bit)
qed

lemma calculateDigest_eq:
  assumes "unat len + 136 < 2 ^ 32" "unat len \<le> length b" "m = take (unat len) b"
    and "malloc (length (rfc_pad m)) = Some ret" "length ret = length (rfc_pad m)" "length sm = 16"
  shows "calculateDigestFromBuffer malloc (Some b) len sm = Some (True, rfc_md5 m)"
proof -
  have m: "length m = unat len" using assms(2,3) by simp
  have k: "(119 - length m mod 64) mod 64 < 64" by simp
  then have "length (rfc_pad m) + 64 < 2 ^ 32" using assms(1) m by (simp add: length_rfc_pad)
  then have l: "length (rfc_pad m) + 64 < 2 ^ 32" "unat (of_nat (length (rfc_pad m)) :: u32) = length (rfc_pad m)"
    by (simp_all add: unat_of_nat)
  obtain j where j: "length (rfc_pad m) = 64 * j" using rfc_pad_blocks by (auto elim: dvdE)
  have "digest_blocks (rfc_pad m) (of_nat (length (rfc_pad m))) rfc_init 0 = Some (rfc_absorb rfc_init (rfc_pad m))"
    using digest_blocks_eq [of rfc_init "of_nat (length (rfc_pad m))" "rfc_pad m" 0 j] l j by simp
  moreover have "store_digest (rfc_absorb rfc_init (rfc_pad m)) sm = Some (rfc_md5 m)"
    using assms(6) by (simp add: store_digest_eq length_rfc_absorb rfc_md5_def)
  ultimately show ?thesis
    using createPadded_eq [where ret = ret and malloc = malloc, OF assms(1-5)]
    unfolding calculateDigestFromBuffer_def rfc_init_def [symmetric]
    by (simp only: Option.bind.bind_lunit prod.case option.case)
qed

lemma calculateDigest_no_memory:
  assumes "unat len + 136 < 2 ^ 32" "unat len \<le> length b" "malloc (length (rfc_pad (take (unat len) b))) = None"
  shows "calculateDigestFromBuffer malloc (Some b) len sm = Some (False, sm)"
proof -
  have "unat (padded_448 len + 8) = length (rfc_pad (take (unat len) b))"
    using assms(1,2) unat_padded_448 [OF assms(1)]
    by (subst unat_add_lem [THEN iffD1]) (simp_all add: length_rfc_pad)
  then have "malloc (unat (padded_448 len + 8)) = None" using assms(3) by simp
  then have "createPaddedCopyWithLength malloc (Some b) len = Some (padded_448 len + 8, None)"
    unfolding createPaddedCopyWithLength_def padded_448_def Let_def by (simp only: option.case)
  then show ?thesis by (simp add: calculateDigestFromBuffer_def)
qed

section \<open>Hexadecimal digits\<close>

lemma nibbles:
  fixes x :: u8
  shows "unat (drop_bit 4 x) mod 16 = unat x div 16" "unat (x AND 0x0F) = unat x mod 16"
proof -
  have m: "(0x0F :: u8) = mask 4" by (simp add: mask_eq_exp_minus_1)
  have l: "unat x < 256" using unsigned_less [of x, where ?'a = nat] by simp
  show "unat (x AND 0x0F) = unat x mod 16" "unat (drop_bit 4 x) mod 16 = unat x div 16"
    unfolding m take_bit_eq_mask [symmetric] using l
    by (simp_all add: unsigned_take_bit_eq unsigned_drop_bit_eq take_bit_eq_mod drop_bit_eq_div unat_div unat_mod)
qed

lemma length_hex_of [simp]: "length (hex_of bs) = 2 * length bs"
  by (induction bs) (simp_all add: hex_of_def)

lemma bytesToHex_eq:
  assumes "length b = 16" "33 \<le> length s"
  shows "bytesToHex b s = Some (hex_of b @ 0 # drop 33 s)"
proof -
  let ?f = "\<lambda>q (s, w). do { x \<leftarrow> arr_get b q; h \<leftarrow> arr_get hex_digits (unat (drop_bit 4 x AND 0x0F));
      s \<leftarrow> arr_set s w h; h \<leftarrow> arr_get hex_digits (unat (x AND 0x0F)); s \<leftarrow> arr_set s (w + 1) h; Some (s, w + 2) }"
  have h: "length hex_digits = 16" by (simp add: hex_digits_def)
  have "foldM ?f [0..<n] (s, 0) = Some (hex_of (take n b) @ drop (2 * n) s, 2 * n)" if "n \<le> 16" for n
    using that
  proof (induction n)
    case (Suc n)
    have x: "unat (b ! n) < 256" using unsigned_less [of "b ! n", where ?'a = nat] by simp
    have d: "drop (2 * n) s = s ! (2 * n) # s ! Suc (2 * n) # drop (2 * Suc n) s"
      using Suc.prems assms(2) by (simp add: Cons_nth_drop_Suc)
    have t: "hex_of (take (Suc n) b) = hex_of (take n b) @ [hex_digits ! (unat (b ! n) div 16), hex_digits ! (unat (b ! n) mod 16)]"
      using Suc.prems assms(1) by (simp add: hex_of_def take_Suc_conv_app_nth)
    show ?case
      using Suc x assms by (simp add: foldM_append nibbles h d t list_update_append)
  qed (simp add: hex_of_def)
  from this [of 16] show ?thesis
    using assms by (simp add: bytesToHex_def list_update_append Cons_nth_drop_Suc [symmetric])
qed

lemma pg_md5_hash_eq:
  assumes "n + 136 < 2 ^ 32" "n \<le> length b" "m = take n b"
    and "malloc (length (rfc_pad m)) = Some ret" "length ret = length (rfc_pad m)" "33 \<le> length s"
  shows "pg_md5_hash malloc (Some b) n s = Some (True, hex_of (rfc_md5 m) @ 0 # drop 33 s)"
proof -
  have n: "unat (of_nat n :: u32) = n" using assms(1) by (simp add: unat_of_nat)
  have "calculateDigestFromBuffer malloc (Some b) (of_nat n) (replicate 16 0) = Some (True, rfc_md5 m)"
    using assms by (intro calculateDigest_eq [where ret = ret]) (simp_all add: n)
  moreover have "length (rfc_md5 m) = 16"
    using length_rfc_absorb [of rfc_init "rfc_pad m"] by (auto simp: rfc_md5_def elim!: length_4E)
  ultimately show ?thesis using bytesToHex_eq [of "rfc_md5 m" s] assms(6) by (simp add: pg_md5_hash_def)
qed

lemma strlen_eq: "0 \<notin> set p \<Longrightarrow> strlen (p @ 0 # r) = Some (length p)"
  by (induction p) auto

lemma pg_md5_encrypt_eq:
  assumes "0 \<notin> set p" "n \<le> length salt" "36 \<le> length buf" "length p + n + 136 < 2 ^ 32" "m = p @ take n salt"
    and "malloc (length p + n + 1) = Some cb" "length cb = length p + n + 1"
    and "malloc (length (rfc_pad m)) = Some ret" "length ret = length (rfc_pad m)"
  shows "pg_md5_encrypt malloc (p @ 0 # rest) salt n buf =
    Some (True, map of_char ''md5'' @ hex_of (rfc_md5 m) @ 0 # drop 36 buf)"
proof -
  let ?c1 = "p @ drop (length p) cb" and ?c = "m @ drop (length p + n) cb"
  have c1: "memcpy cb 0 (p @ 0 # rest) 0 (length p) = Some ?c1" using assms(7) by simp
  have c: "memcpy ?c1 (length p) salt 0 n = Some ?c" using assms(2,5,7) by (simp add: add.commute)
  let ?b = "map of_char ''md5'' @ 0 # drop 4 buf"
  have b: "memcpy buf 0 (map of_char ''md5'' @ [0]) 0 4 = Some ?b" using assms(3) by simp
  have "take (length p + n) ?c = m" using assms(2,5) by simp
  then have "pg_md5_hash malloc (Some ?c) (length p + n) (drop 3 ?b) =
      Some (True, hex_of (rfc_md5 m) @ 0 # drop 33 (drop 3 ?b))"
    using assms by (intro pg_md5_hash_eq [where ret = ret]) simp_all
  moreover have "take 3 ?b = map of_char ''md5''" "drop 33 (drop 3 ?b) = drop 36 buf" by simp_all
  ultimately show ?thesis
    unfolding pg_md5_encrypt_def strlen_eq [OF assms(1)] Option.bind.bind_lunit assms(6) option.case c1 c b
    by (simp only: Option.bind.bind_lunit prod.case)
qed

lemma pg_md5_hash_no_memory:
  assumes "n + 136 < 2 ^ 32" "n \<le> length b" "malloc (length (rfc_pad (take n b))) = None"
  shows "pg_md5_hash malloc (Some b) n s = Some (False, s)"
proof -
  have "unat (of_nat n :: u32) = n" using assms(1) by (simp add: unat_of_nat)
  then show ?thesis
    using calculateDigest_no_memory [of "of_nat n" b malloc "replicate 16 0"] assms by (simp add: pg_md5_hash_def)
qed

lemma pg_md5_encrypt_no_memory:
  assumes "0 \<notin> set p" "n \<le> length salt" "36 \<le> length buf" "length p + n + 136 < 2 ^ 32"
    and "malloc (length p + n + 1) = Some cb" "length cb = length p + n + 1"
    and "malloc (length (rfc_pad (p @ take n salt))) = None"
  shows "pg_md5_encrypt malloc (p @ 0 # rest) salt n buf = Some (False, map of_char ''md5'' @ 0 # drop 4 buf)"
proof -
  let ?c1 = "p @ drop (length p) cb" and ?c = "(p @ take n salt) @ drop (length p + n) cb"
  have c1: "memcpy cb 0 (p @ 0 # rest) 0 (length p) = Some ?c1" using assms(6) by simp
  have c: "memcpy ?c1 (length p) salt 0 n = Some ?c" using assms(2,6) by (simp add: add.commute)
  let ?b = "map of_char ''md5'' @ 0 # drop 4 buf"
  have b: "memcpy buf 0 (map of_char ''md5'' @ [0]) 0 4 = Some ?b" using assms(3) by simp
  have "take (length p + n) ?c = p @ take n salt" using assms(2) by simp
  then have "pg_md5_hash malloc (Some ?c) (length p + n) (drop 3 ?b) = Some (False, drop 3 ?b)"
    using assms by (intro pg_md5_hash_no_memory) simp_all
  then show ?thesis
    unfolding pg_md5_encrypt_def strlen_eq [OF assms(1)] Option.bind.bind_lunit assms(5) option.case c1 c b
    by (simp only: Option.bind.bind_lunit prod.case append_take_drop_id)
qed

section \<open>Properties\<close>

text \<open>
  C13. \<open>pg_md5_encrypt\<close>, for a password that ends with a zero byte, a salt of the given length and a buffer of at
  least 36 bytes, together shorter than \<open>2^32 - 136\<close> bytes: when both blocks of memory can be had it returns true
  and the buffer starts with the text md5, the 32 hexadecimal digits of the RFC 1321 digest of password and salt,
  and a zero byte; otherwise it returns false.  Nothing else of the buffer changes and no access is out of bounds.
\<close>

theorem pg_md5_encrypt_correct:
  assumes malloc: "\<And>k b. malloc k = Some b \<Longrightarrow> length b = k"
    and "0 \<notin> set p" "n \<le> length salt" "36 \<le> length buf" "length p + n + 136 < 2 ^ 32"
  shows "pg_md5_encrypt malloc (p @ 0 # rest) salt n buf = Some (
    if malloc (length p + n + 1) = None then (False, buf)
    else if malloc (length (rfc_pad (p @ take n salt))) = None then (False, map of_char ''md5'' @ 0 # drop 4 buf)
    else (True, map of_char ''md5'' @ hex_of (rfc_md5 (p @ take n salt)) @ 0 # drop 36 buf))"
proof (cases "malloc (length p + n + 1)")
  case None
  then show ?thesis using assms(2) by (simp add: pg_md5_encrypt_def strlen_eq)
next
  case (Some cb)
  show ?thesis
  proof (cases "malloc (length (rfc_pad (p @ take n salt)))")
    case None
    then show ?thesis using pg_md5_encrypt_no_memory [OF assms(2-5) Some malloc [OF Some] None] Some by simp
  next
    case (Some ret)
    then show ?thesis
      using pg_md5_encrypt_eq [OF assms(2-5) refl \<open>malloc (length p + n + 1) = Some cb\<close> malloc
          [OF \<open>malloc (length p + n + 1) = Some cb\<close>] Some malloc [OF Some]] \<open>malloc (length p + n + 1) = Some cb\<close>
      by simp
  qed
qed

theorem pg_md5_encrypt_correct_witness:
  "pg_md5_encrypt (\<lambda>k. if k < 100 then Some (replicate k 7) else None) [0x61, 0x62, 0] [0x63, 1] 1 (replicate 40 9) =
    Some (True, map of_char ''md5'' @ hex_of (rfc_md5 [0x61, 0x62, 0x63]) @ 0 # replicate 4 9)"
proof -
  let ?malloc = "\<lambda>k. if k < 100 then Some (replicate k 7) else None :: u8 list option"
  have "length b = k" if "?malloc k = Some b" for k b using that by (auto split: if_splits)
  then show ?thesis
    using pg_md5_encrypt_correct [of ?malloc "[0x61, 0x62]" 1 "[0x63, 1]" "replicate 40 9" "[]"]
    by (simp add: length_rfc_pad)
qed

end
