(* ===== verification/DES.thy ===== *)
theory DES
  imports Prelude
begin

text \<open>
  Model of \<open>hatch/DataEncryptionStandard/src/hat_des.cpp\<close>: the tables, the bit-string
  operations, key schedule, block encryption and decryption, and the two file commands.
  \<open>ElemType\<close> is \<open>char\<close>, an 8-bit value that is sign-extended when the code computes with it; a
  bit string is an array of such values.  A pointer \<open>a + k\<close> into an array is the array and the
  offset \<open>k\<close>.  An array the code leaves uninitialised and then fills before reading starts
  with zeros here; an uninitialised value that the code can read makes the model return \<open>None\<close>.
\<close>

section \<open>Tables\<close>

definition IP_Table :: "nat list" where
  "IP_Table =
    [57, 49, 41, 33, 25, 17, 9, 1, 59, 51, 43, 35, 27, 19, 11, 3,
     61, 53, 45, 37, 29, 21, 13, 5, 63, 55, 47, 39, 31, 23, 15, 7,
     56, 48, 40, 32, 24, 16, 8, 0, 58, 50, 42, 34, 26, 18, 10, 2,
     60, 52, 44, 36, 28, 20, 12, 4, 62, 54, 46, 38, 30, 22, 14, 6]"

definition IP_1_Table :: "nat list" where
  "IP_1_Table =
    [39, 7, 47, 15, 55, 23, 63, 31, 38, 6, 46, 14, 54, 22, 62, 30,
     37, 5, 45, 13, 53, 21, 61, 29, 36, 4, 44, 12, 52, 20, 60, 28,
     35, 3, 43, 11, 51, 19, 59, 27, 34, 2, 42, 10, 50, 18, 58, 26,
     33, 1, 41, 9, 49, 17, 57, 25, 32, 0, 40, 8, 48, 16, 56, 24]"

definition E_Table :: "nat list" where
  "E_Table =
    [31, 0, 1, 2, 3, 4, 3, 4, 5, 6, 7, 8, 7, 8, 9, 10,
     11, 12, 11, 12, 13, 14, 15, 16, 15, 16, 17, 18, 19, 20, 19, 20,
     21, 22, 23, 24, 23, 24, 25, 26, 27, 28, 27, 28, 29, 30, 31, 0]"

definition P_Table :: "nat list" where
  "P_Table =
    [15, 6, 19, 20, 28, 11, 27, 16, 0, 14, 22, 25, 4, 17, 30, 9,
     1, 7, 23, 13, 31, 26, 2, 8, 18, 12, 29, 5, 21, 10, 3, 24]"

definition S :: "nat list list list" where
  "S =
    [[[14, 4, 13, 1, 2, 15, 11, 8, 3, 10, 6, 12, 5, 9, 0, 7],
      [0, 15, 7, 4, 14, 2, 13, 1, 10, 6, 12, 11, 9, 5, 3, 8],
      [4, 1, 14, 8, 13, 6, 2, 11, 15, 12, 9, 7, 3, 10, 5, 0],
      [15, 12, 8, 2, 4, 9, 1, 7, 5, 11, 3, 14, 10, 0, 6, 13]],
     [[15, 1, 8, 14, 6, 11, 3, 4, 9, 7, 2, 13, 12, 0, 5, 10],
      [3, 13, 4, 7, 15, 2, 8, 14, 12, 0, 1, 10, 6, 9, 11, 5],
      [0, 14, 7, 11, 10, 4, 13, 1, 5, 8, 12, 6, 9, 3, 2, 15],
      [13, 8, 10, 1, 3, 15, 4, 2, 11, 6, 7, 12, 0, 5, 14, 9]],
     [[10, 0, 9, 14, 6, 3, 15, 5, 1, 13, 12, 7, 11, 4, 2, 8],
      [13, 7, 0, 9, 3, 4, 6, 10, 2, 8, 5, 14, 12, 11, 15, 1],
      [13, 6, 4, 9, 8, 15, 3, 0, 11, 1, 2, 12, 5, 10, 14, 7],
      [1, 10, 13, 0, 6, 9, 8, 7, 4, 15, 14, 3, 11, 5, 2, 12]],
     [[7, 13, 14, 3, 0, 6, 9, 10, 1, 2, 8, 5, 11, 12, 4, 15],
      [13, 8, 11, 5, 6, 15, 0, 3, 4, 7, 2, 12, 1, 10, 14, 9],
      [10, 6, 9, 0, 12, 11, 7, 13, 15, 1, 3, 14, 5, 2, 8, 4],
      [3, 15, 0, 6, 10, 1, 13, 8, 9, 4, 5, 11, 12, 7, 2, 14]],
     [[2, 12, 4, 1, 7, 10, 11, 6, 8, 5, 3, 15, 13, 0, 14, 9],
      [14, 11, 2, 12, 4, 7, 13, 1, 5, 0, 15, 10, 3, 9, 8, 6],
      [4, 2, 1, 11, 10, 13, 7, 8, 15, 9, 12, 5, 6, 3, 0, 14],
      [11, 8, 12, 7, 1, 14, 2, 13, 6, 15, 0, 9, 10, 4, 5, 3]],
     [[12, 1, 10, 15, 9, 2, 6, 8, 0, 13, 3, 4, 14, 7, 5, 11],
      [10, 15, 4, 2, 7, 12, 9, 5, 6, 1, 13, 14, 0, 11, 3, 8],
      [9, 14, 15, 5, 2, 8, 12, 3, 7, 0, 4, 10, 1, 13, 11, 6],
      [4, 3, 2, 12, 9, 5, 15, 10, 11, 14, 1, 7, 6, 0, 8, 13]],
     [[4, 11, 2, 14, 15, 0, 8, 13, 3, 12, 9, 7, 5, 10, 6, 1],
      [13, 0, 11, 7, 4, 9, 1, 10, 14, 3, 5, 12, 2, 15, 8, 6],
      [1, 4, 11, 13, 12, 3, 7, 14, 10, 15, 6, 8, 0, 5, 9, 2],
      [6, 11, 13, 8, 1, 4, 10, 7, 9, 5, 0, 15, 14, 2, 3, 12]],
     [[13, 2, 8, 4, 6, 15, 11, 1, 10, 9, 3, 14, 5, 0, 12, 7],
      [1, 15, 13, 8, 10, 3, 7, 4, 12, 5, 6, 11, 0, 14, 9, 2],
      [7, 11, 4, 1, 9, 12, 14, 2, 0, 6, 10, 13, 15, 3, 5, 8],
      [2, 1, 14, 7, 4, 10, 8, 13, 15, 12, 9, 0, 3, 5, 6, 11]]]"

definition PC_1 :: "nat list" where
  "PC_1 =
    [56, 48, 40, 32, 24, 16, 8, 0, 57, 49, 41, 33, 25, 17, 9, 1,
     58, 50, 42, 34, 26, 18, 10, 2, 59, 51, 43, 35, 62, 54, 46, 38,
     30, 22, 14, 6, 61, 53, 45, 37, 29, 21, 13, 5, 60, 52, 44, 36,
     28, 20, 12, 4, 27, 19, 11, 3]"

definition PC_2 :: "nat list" where
  "PC_2 =
    [13, 16, 10, 23, 0, 4, 2, 27, 14, 5, 20, 9, 22, 18, 11, 3,
     25, 7, 15, 6, 26, 19, 12, 1, 40, 51, 30, 36, 46, 54, 29, 39,
     50, 44, 32, 46, 43, 48, 38, 55, 33, 52, 45, 41, 49, 35, 28, 31]"

definition MOVE_TIMES :: "nat list" where
  "MOVE_TIMES =
    [1, 1, 2, 2, 2, 2, 2, 2, 1, 2, 2, 2, 2, 2, 2, 1]"

section \<open>Bit strings\<close>

type_synonym ElemType = "8 word"

text \<open>\<open>char\<close> to \<open>int\<close> promotion and back.\<close>

abbreviation promote :: "ElemType \<Rightarrow> 32 word" where
  "promote c \<equiv> scast c"

definition ByteToBit :: "ElemType \<Rightarrow> ElemType list \<Rightarrow> nat \<Rightarrow> ElemType list option" where
  "ByteToBit ch b off =
     foldM (\<lambda>cnt b. arr_set b (off + cnt) (ucast (signed_drop_bit cnt (promote ch) AND 1))) [0..<8] b"

definition BitToByte :: "ElemType list \<Rightarrow> nat \<Rightarrow> ElemType \<Rightarrow> ElemType option" where
  "BitToByte b off ch =
     foldM (\<lambda>cnt ch. do {
       v \<leftarrow> arr_get b (off + cnt);
       Some (ucast (promote ch OR push_bit cnt (promote v))) }) [0..<8] ch"

definition Char8ToBit64 :: "ElemType list \<Rightarrow> ElemType list \<Rightarrow> ElemType list option" where
  "Char8ToBit64 ch b =
     foldM (\<lambda>cnt b. do { c \<leftarrow> arr_get ch cnt; ByteToBit c b (8 * cnt) }) [0..<8] b"

definition Bit64ToChar8 :: "ElemType list \<Rightarrow> ElemType list \<Rightarrow> ElemType list option" where
  "Bit64ToChar8 b ch = do {
     ch \<leftarrow> memset ch 0 0 8;
     foldM (\<lambda>cnt ch. do {
       c \<leftarrow> arr_get ch cnt;
       c \<leftarrow> BitToByte b (8 * cnt) c;
       arr_set ch cnt c }) [0..<8] ch }"

section \<open>Permutations, rotation, exclusive or, S-boxes\<close>

text \<open>The loop the six table-driven functions share: \<open>temp[cnt] = data[table[cnt]]\<close>.\<close>

definition permute_loop :: "nat list \<Rightarrow> ElemType list \<Rightarrow> nat \<Rightarrow> ElemType list \<Rightarrow> ElemType list option" where
  "permute_loop table data n temp =
     foldM (\<lambda>cnt temp. do {
       v \<leftarrow> do { k \<leftarrow> arr_get table cnt; arr_get data k };
       arr_set temp cnt v }) [0..<n] temp"

definition DES_PC1_Transform :: "ElemType list \<Rightarrow> ElemType list \<Rightarrow> ElemType list option" where
  "DES_PC1_Transform key tempbts = permute_loop PC_1 key 56 tempbts"

definition DES_PC2_Transform :: "ElemType list \<Rightarrow> ElemType list \<Rightarrow> ElemType list option" where
  "DES_PC2_Transform key tempbts = permute_loop PC_2 key 48 tempbts"

text \<open>
  Rotation of both 28-bit halves.  The two copies inside \<open>data\<close> overlap, which the C standard leaves
  undefined for \<open>memcpy\<close>.  This is the one place where the model does not answer an undefined operation with
  \<^const>\<open>None\<close>: it takes the bytes as they were before the call, as \<open>memmove\<close> does, so that the rest of the
  cipher can be studied.  The properties use of the rotation only that it moves bits, not where it moves them.
\<close>

definition DES_ROL :: "ElemType list \<Rightarrow> nat \<Rightarrow> ElemType list option" where
  "DES_ROL data time = do {
     temp \<leftarrow> memcpy (replicate 56 0) 0 data 0 time;
     temp \<leftarrow> memcpy temp time data 28 time;
     data \<leftarrow> memcpy data 0 data time (28 - time);
     data \<leftarrow> memcpy data (28 - time) temp 0 time;
     data \<leftarrow> memcpy data 28 data (28 + time) (28 - time);
     memcpy data (56 - time) temp time time }"

definition DES_MakeSubKeys :: "ElemType list \<Rightarrow> ElemType list list \<Rightarrow> ElemType list list option" where
  "DES_MakeSubKeys key subKeys = do {
     temp \<leftarrow> DES_PC1_Transform key (replicate 56 0);
     (temp, subKeys) \<leftarrow> foldM (\<lambda>cnt (temp, subKeys). do {
       time \<leftarrow> arr_get MOVE_TIMES cnt;
       temp \<leftarrow> DES_ROL temp time;
       k \<leftarrow> arr_get subKeys cnt;
       k \<leftarrow> DES_PC2_Transform temp k;
       subKeys \<leftarrow> arr_set subKeys cnt k;
       Some (temp, subKeys) }) [0..<16] (temp, subKeys);
     Some subKeys }"

definition DES_IP_Transform :: "ElemType list \<Rightarrow> ElemType list option" where
  "DES_IP_Transform data = do {
     temp \<leftarrow> permute_loop IP_Table data 64 (replicate 64 0);
     memcpy data 0 temp 0 64 }"

definition DES_IP_1_Transform :: "ElemType list \<Rightarrow> ElemType list option" where
  "DES_IP_1_Transform data = do {
     temp \<leftarrow> permute_loop IP_1_Table data 64 (replicate 64 0);
     memcpy data 0 temp 0 64 }"

definition DES_E_Transform :: "ElemType list \<Rightarrow> ElemType list option" where
  "DES_E_Transform data = do {
     temp \<leftarrow> permute_loop E_Table data 48 (replicate 48 0);
     memcpy data 0 temp 0 48 }"

definition DES_P_Transform :: "ElemType list \<Rightarrow> ElemType list option" where
  "DES_P_Transform data = do {
     temp \<leftarrow> permute_loop P_Table data 32 (replicate 32 0);
     memcpy data 0 temp 0 32 }"

definition DES_XOR :: "ElemType list \<Rightarrow> ElemType list \<Rightarrow> nat \<Rightarrow> ElemType list option" where
  "DES_XOR R L count =
     foldM (\<lambda>cnt R. do {
       r \<leftarrow> arr_get R cnt;
       l \<leftarrow> arr_get L cnt;
       arr_set R cnt (r XOR l) }) [0..<count] R"

text \<open>
  The S-box pass works in place: pass \<open>cnt\<close> reads the six entries from \<open>6 * cnt\<close> and writes the four
  entries from \<open>4 * cnt\<close>.  Row and column are \<open>int\<close> sums of the entries; a negative one is outside the
  table.
\<close>

definition DES_SBOX_step :: "nat \<Rightarrow> ElemType list \<Rightarrow> ElemType list option" where
  "DES_SBOX_step cnt data = do {
     let cur1 = cnt * 6;
     let cur2 = 4 * cnt;
     d0 \<leftarrow> arr_get data cur1;
     d1 \<leftarrow> arr_get data (cur1 + 1);
     d2 \<leftarrow> arr_get data (cur1 + 2);
     d3 \<leftarrow> arr_get data (cur1 + 3);
     d4 \<leftarrow> arr_get data (cur1 + 4);
     d5 \<leftarrow> arr_get data (cur1 + 5);
     let line = push_bit 1 (sint d0) + sint d5;
     let row = push_bit 3 (sint d1) + push_bit 2 (sint d2) + push_bit 1 (sint d3) + sint d4;
     box \<leftarrow> arr_get S cnt;
     entries \<leftarrow> arr_get_int box line;
     output \<leftarrow> arr_get_int entries row;
     data \<leftarrow> arr_set data cur2 (of_nat (drop_bit 3 (output AND 8)));
     data \<leftarrow> arr_set data (cur2 + 1) (of_nat (drop_bit 2 (output AND 4)));
     data \<leftarrow> arr_set data (cur2 + 2) (of_nat (drop_bit 1 (output AND 2)));
     arr_set data (cur2 + 3) (of_nat (output AND 1)) }"

definition DES_SBOX :: "ElemType list \<Rightarrow> ElemType list option" where
  "DES_SBOX data = foldM DES_SBOX_step [0..<8] data"

definition DES_Swap :: "ElemType list \<Rightarrow> nat \<Rightarrow> nat \<Rightarrow> ElemType list option" where
  "DES_Swap a left right = do {
     temp \<leftarrow> memcpy (replicate 32 0) 0 a left 32;
     a \<leftarrow> memcpy a left a right 32;
     memcpy a right temp 0 32 }"

section \<open>Blocks\<close>

text \<open>One pass of the loops of \<open>DES_EncryptBlock\<close> and \<open>DES_DecryptBlock\<close>; \<open>fin\<close> is the pass without swap.\<close>

definition DES_round ::
    "nat \<Rightarrow> ElemType list list \<Rightarrow> nat \<Rightarrow> ElemType list \<times> ElemType list \<Rightarrow> (ElemType list \<times> ElemType list) option" where
  "DES_round fin subKeys cnt = (\<lambda>(dataBits, copyRight). do {
     copyRight \<leftarrow> memcpy copyRight 0 dataBits 32 32;
     copyRight \<leftarrow> DES_E_Transform copyRight;
     k \<leftarrow> arr_get subKeys cnt;
     copyRight \<leftarrow> DES_XOR copyRight k 48;
     copyRight \<leftarrow> DES_SBOX copyRight;
     copyRight \<leftarrow> DES_P_Transform copyRight;
     dataBits \<leftarrow> DES_XOR dataBits copyRight 32;
     if cnt \<noteq> fin then do {
       dataBits \<leftarrow> DES_Swap dataBits 0 32;
       Some (dataBits, copyRight) }
     else Some (dataBits, copyRight) })"

definition DES_EncryptBlock :: "ElemType list \<Rightarrow> ElemType list list \<Rightarrow> ElemType list \<Rightarrow> ElemType list option" where
  "DES_EncryptBlock plainBlock subKeys cipherBlock = do {
     plainBits \<leftarrow> Char8ToBit64 plainBlock (replicate 64 0);
     plainBits \<leftarrow> DES_IP_Transform plainBits;
     (plainBits, copyRight) \<leftarrow> foldM (DES_round 15 subKeys) [0..<16] (plainBits, replicate 48 0);
     plainBits \<leftarrow> DES_IP_1_Transform plainBits;
     Bit64ToChar8 plainBits cipherBlock }"

definition DES_DecryptBlock :: "ElemType list \<Rightarrow> ElemType list list \<Rightarrow> ElemType list \<Rightarrow> ElemType list option" where
  "DES_DecryptBlock cipherBlock subKeys plainBlock = do {
     cipherBits \<leftarrow> Char8ToBit64 cipherBlock (replicate 64 0);
     cipherBits \<leftarrow> DES_IP_Transform cipherBits;
     (cipherBits, copyRight) \<leftarrow> foldM (DES_round 0 subKeys) (rev [0..<16]) (cipherBits, replicate 48 0);
     cipherBits \<leftarrow> DES_IP_1_Transform cipherBits;
     Bit64ToChar8 cipherBits plainBlock }"

section \<open>Files\<close>

text \<open>
  An input stream is its contents, position and end-of-file flag; \<open>fread\<close> copies what is left up to the
  requested count, and sets the flag when fewer bytes are left.  Input and output errors after a
  successful \<open>fopen\<close> are not modelled.
\<close>

record FILE =
  contents :: "ElemType list"
  position :: nat
  at_eof :: bool

definition fopen_rb :: "ElemType list \<Rightarrow> FILE" where
  "fopen_rb bytes = \<lparr>contents = bytes, position = 0, at_eof = False\<rparr>"

definition fread :: "ElemType list \<Rightarrow> nat \<Rightarrow> FILE \<Rightarrow> (nat \<times> ElemType list \<times> FILE) option" where
  "fread buf n s = do {
     let got = take n (drop (position s) (contents s));
     buf \<leftarrow> memcpy buf 0 got 0 (length got);
     Some (length got, buf,
       s\<lparr>position := position s + length got, at_eof := at_eof s \<or> length got < n\<rparr>) }"

definition PLAIN_FILE_OPEN_ERROR :: int where "PLAIN_FILE_OPEN_ERROR = - 1"
definition CIPHER_FILE_OPEN_ERROR :: int where "CIPHER_FILE_OPEN_ERROR = - 3"
definition DES_OK :: int where "DES_OK = 1"

text \<open>Key setup of both commands: eight bytes of the key string, expanded to the sixteen subkeys.\<close>

definition DES_setkey :: "ElemType list \<Rightarrow> ElemType list list option" where
  "DES_setkey keyStr = do {
     keyBlock \<leftarrow> memcpy (replicate 8 0) 0 keyStr 0 8;
     bKey \<leftarrow> Char8ToBit64 keyBlock (replicate 64 0);
     DES_MakeSubKeys bKey (replicate 16 (replicate 48 0)) }"

text \<open>The loop \<open>while(!feof(plain))\<close>; it returns the last \<open>count\<close>, the block buffers and the output.\<close>

function DES_Encrypt_loop ::
    "ElemType list list \<Rightarrow> FILE \<Rightarrow> nat option \<Rightarrow> ElemType list \<Rightarrow> ElemType list \<Rightarrow> ElemType list \<Rightarrow>
     (nat option \<times> ElemType list \<times> ElemType list \<times> ElemType list) option" where
  "DES_Encrypt_loop subKeys plain count plainBlock cipherBlock cipher =
     (if \<not> at_eof plain then
        (case fread plainBlock 8 plain of
           None \<Rightarrow> None
         | Some (count, plainBlock, plain') \<Rightarrow>
             if count = 8 then do {
               cipherBlock \<leftarrow> DES_EncryptBlock plainBlock subKeys cipherBlock;
               DES_Encrypt_loop subKeys plain' (Some count) plainBlock cipherBlock (cipher @ take 8 cipherBlock) }
             else DES_Encrypt_loop subKeys plain' (Some count) plainBlock cipherBlock cipher)
      else Some (count, plainBlock, cipherBlock, cipher))"
  by pat_completeness auto
termination
  by (relation "measure (\<lambda>(ks, s, c, p, q, out). 2 * (length (contents s) - position s) + (if at_eof s then 0 else 1))")
    (auto simp: fread_def Let_def split: Option.bind_splits if_splits)

text \<open>
  \<open>DES_Encrypt\<close>: the plain file is its contents, or \<open>None\<close> where it cannot be opened; \<open>cipher_opens\<close> tells
  whether the output can be.  The result is the return code and what the output file holds, where it
  was opened.  \<open>if(count)\<close> on a \<open>count\<close> that was never assigned is undefined.
\<close>

definition DES_Encrypt :: "ElemType list option \<Rightarrow> ElemType list \<Rightarrow> bool \<Rightarrow> (int \<times> ElemType list option) option" where
  "DES_Encrypt plainFile keyStr cipher_opens =
     (case plainFile of
        None \<Rightarrow> Some (PLAIN_FILE_OPEN_ERROR, None)
      | Some bytes \<Rightarrow>
          if \<not> cipher_opens then Some (CIPHER_FILE_OPEN_ERROR, None)
          else do {
            subKeys \<leftarrow> DES_setkey keyStr;
            (cnt, plainBlock, cipherBlock, cipher) \<leftarrow>
              DES_Encrypt_loop subKeys (fopen_rb bytes) None (replicate 8 0) (replicate 8 0) [];
            count \<leftarrow> cnt;
            if count \<noteq> 0 then do {
              plainBlock \<leftarrow> memset plainBlock count 0 (7 - count);
              plainBlock \<leftarrow> arr_set plainBlock 7 (of_nat (8 - count));
              cipherBlock \<leftarrow> DES_EncryptBlock plainBlock subKeys cipherBlock;
              Some (DES_OK, Some (cipher @ take 8 cipherBlock)) }
            else Some (DES_OK, Some cipher) })"

text \<open>
  The loop \<open>while(1)\<close> of \<open>DES_Decrypt\<close>.  The first \<open>fread\<close> of a file of fewer than eight bytes leaves
  bytes of \<open>cipherBlock\<close> uninitialised, which \<open>DES_DecryptBlock\<close> then reads.  \<open>times\<close> (here \<open>ntimes\<close>) is an \<open>int\<close>, so
  counting past \<open>2^31 - 1\<close> is undefined as well.
\<close>

partial_function (option) DES_Decrypt_loop ::
    "ElemType list list \<Rightarrow> int \<Rightarrow> FILE \<Rightarrow> int \<Rightarrow> ElemType list \<Rightarrow> ElemType list \<Rightarrow> ElemType list \<Rightarrow>
     (ElemType list \<times> ElemType list) option" where
  "DES_Decrypt_loop subKeys fileLen cipher ntimes cipherBlock plainBlock plain = do {
     (got, cipherBlock, cipher) \<leftarrow> fread cipherBlock 8 cipher;
     if ntimes = 0 \<and> got < 8 then None
     else do {
       plainBlock \<leftarrow> DES_DecryptBlock cipherBlock subKeys plainBlock;
       if ntimes + 8 > 2147483647 then None
       else if ntimes + 8 < fileLen then
         DES_Decrypt_loop subKeys fileLen cipher (ntimes + 8) cipherBlock plainBlock (plain @ take 8 plainBlock)
       else Some (plainBlock, plain) } }"

declare DES_Decrypt_loop.simps [code]

text \<open>The padding scan \<open>for(count = 8 - plainBlock[7]; count < 7; count++)\<close>, with its early exit.\<close>

function DES_padding_scan :: "ElemType list \<Rightarrow> int \<Rightarrow> int option" where
  "DES_padding_scan plainBlock count =
     (if count < 7 then do {
        c \<leftarrow> arr_get_int plainBlock count;
        if c \<noteq> 0 then Some count else DES_padding_scan plainBlock (count + 1) }
      else Some count)"
  by pat_completeness auto
termination
  by (relation "measure (\<lambda>(b, c). nat (7 - c))") auto

definition DES_Decrypt :: "ElemType list option \<Rightarrow> ElemType list \<Rightarrow> bool \<Rightarrow> (int \<times> ElemType list option) option" where
  "DES_Decrypt cipherFile keyStr plain_opens =
     (case cipherFile of
        None \<Rightarrow> Some (CIPHER_FILE_OPEN_ERROR, None)
      | Some bytes \<Rightarrow>
          if \<not> plain_opens then Some (PLAIN_FILE_OPEN_ERROR, None)
          else do {
            subKeys \<leftarrow> DES_setkey keyStr;
            (plainBlock, plain) \<leftarrow> DES_Decrypt_loop subKeys (int (length bytes)) (fopen_rb bytes) 0
              (replicate 8 0) (replicate 8 0) [];
            p7 \<leftarrow> arr_get plainBlock 7;
            count \<leftarrow> (if sint p7 < 8 then DES_padding_scan plainBlock (8 - sint p7) else None);
            if count = 7 then Some (DES_OK, Some (plain @ take (nat (8 - sint p7)) plainBlock))
            else Some (DES_OK, Some (plain @ take 8 plainBlock)) })"

section \<open>Reference definitions\<close>

text \<open>Permutation and selection by a table of indices.\<close>

definition permute :: "nat list \<Rightarrow> 'a list \<Rightarrow> 'a list" where
  "permute table xs = map (\<lambda>k. xs ! k) table"

text \<open>Bit strings: every entry is 0 or 1.\<close>

definition bits :: "ElemType list \<Rightarrow> bool" where
  "bits xs \<longleftrightarrow> set xs \<subseteq> {0, 1}"

definition byte_bits :: "ElemType \<Rightarrow> ElemType list" where
  "byte_bits c = map (\<lambda>i. if bit c i then 1 else 0) [0..<8]"

definition bits_byte :: "ElemType list \<Rightarrow> ElemType" where
  "bits_byte bs = fold (\<lambda>i c. c OR push_bit i (bs ! i)) [0..<8] 0"

text \<open>The S-box substitution as a function: group \<open>c\<close> of six bits selects four bits.\<close>

definition sbox_group :: "ElemType list \<Rightarrow> nat \<Rightarrow> ElemType list" where
  "sbox_group data c =
     (let g = map (\<lambda>j. unat (data ! (6 * c + j))) [0..<6];
          v = S ! c ! (2 * g ! 0 + g ! 5) ! (8 * g ! 1 + 4 * g ! 2 + 2 * g ! 3 + g ! 4)
      in map (\<lambda>j. of_bool (bit v j)) [3, 2, 1, 0])"

definition sbox_subst :: "ElemType list \<Rightarrow> ElemType list" where
  "sbox_subst data = concat (map (sbox_group data) [0..<8])"

text \<open>The round function of the cipher on a 32-bit half and a 48-bit subkey.\<close>

definition des_f :: "ElemType list \<Rightarrow> ElemType list \<Rightarrow> ElemType list" where
  "des_f k r = permute P_Table (sbox_subst (map2 (XOR) (permute E_Table r) k))"

definition half :: "ElemType list \<Rightarrow> bool" where
  "half x \<longleftrightarrow> length x = 32 \<and> bits x"

definition subkey :: "ElemType list \<Rightarrow> bool" where
  "subkey k \<longleftrightarrow> length k = 48 \<and> bits k"

text \<open>
  Feistel networks.  A round exchanges the halves after mixing the
  left one with the round function of the right one; the network undoes the last exchange.
\<close>

definition feistel_round :: "('k \<Rightarrow> 'h \<Rightarrow> 'h) \<Rightarrow> ('h \<Rightarrow> 'h \<Rightarrow> 'h) \<Rightarrow> 'k \<Rightarrow> 'h \<times> 'h \<Rightarrow> 'h \<times> 'h" where
  "feistel_round f mix k p = (snd p, mix (fst p) (f k (snd p)))"

definition feistel :: "('k \<Rightarrow> 'h \<Rightarrow> 'h) \<Rightarrow> ('h \<Rightarrow> 'h \<Rightarrow> 'h) \<Rightarrow> 'k list \<Rightarrow> 'h \<times> 'h \<Rightarrow> 'h \<times> 'h" where
  "feistel f mix ks p = prod.swap (fold (feistel_round f mix) ks p)"

definition des_block :: "ElemType list list \<Rightarrow> ElemType list \<Rightarrow> ElemType list" where
  "des_block ks block =
     (let x = permute IP_Table (concat (map byte_bits block));
          q = feistel des_f (map2 (XOR)) ks (take 32 x, drop 32 x)
      in map bits_byte (chunks 8 (permute IP_1_Table (fst q @ snd q))))"

definition subkeys :: "ElemType list list \<Rightarrow> bool" where
  "subkeys ks \<longleftrightarrow> length ks = 16 \<and> (\<forall>k \<in> set ks. subkey k)"

text \<open>The key schedule: subkey \<open>c\<close> selects from the two key halves rotated by the total of the first \<open>c + 1\<close> shifts.\<close>

definition des_subkey :: "ElemType list \<Rightarrow> nat \<Rightarrow> ElemType list" where
  "des_subkey key c =
     (let cd = permute PC_1 key; n = sum_list (take (Suc c) MOVE_TIMES)
      in permute PC_2 (rotate n (take 28 cd) @ rotate n (drop 28 cd)))"

definition des_keys :: "ElemType list \<Rightarrow> ElemType list list" where
  "des_keys keyStr = map (des_subkey (concat (map byte_bits (take 8 keyStr)))) [0..<16]"

text \<open>What the file commands compute: padding of an incomplete last block, and removal of padding.\<close>

definition des_pad :: "ElemType list \<Rightarrow> ElemType list" where
  "des_pad p = (let c = length p mod 8 in
     if c = 0 then p else p @ replicate (7 - c) 0 @ [of_nat (8 - c)])"

definition des_file :: "ElemType list list \<Rightarrow> ElemType list \<Rightarrow> ElemType list" where
  "des_file ks p = concat (map (des_block ks) (chunks 8 p))"

text \<open>
  What decryption recovers from the blocks of \<open>p\<close>, a nonempty multiple of eight bytes.  A last byte of
  8 or more (as a \<open>signed char\<close>) leaves the variable \<open>count\<close> unassigned.
\<close>

definition padding_length :: "ElemType list \<Rightarrow> nat" where
  "padding_length b = (let n = sint (b ! 7) in
     if 1 \<le> n \<and> (\<forall>j \<in> {nat (8 - n)..<7}. b ! j = 0) then nat n else 0)"

text \<open>Complementing a bit string.\<close>

definition flip_bits :: "ElemType list \<Rightarrow> ElemType list" where
  "flip_bits = map (\<lambda>b. b XOR 1)"

end
