(* ===== verification/DES_Correct.thy ===== *)
theory DES_Correct
  imports DES
begin

text \<open>
  Correctness of the DES code of theory \<open>DES\<close>: what every table-driven step computes, that the cipher is a
  Feistel network (locale \<open>feistel_network\<close>, interpreted on the round function of the code) and so
  decryption inverts encryption, and what the two file commands do on every length of file.
\<close>

section \<open>Table-driven steps\<close>

lemma length_permute [simp]: "length (permute table xs) = length table"
  by (simp add: permute_def)

lemma permute_permute:
  "(\<forall>k \<in> set t2. k < length t1) \<Longrightarrow> permute t2 (permute t1 xs) = permute (permute t2 t1) xs"
  by (auto simp: permute_def)

lemma permute_upt: "permute [0..<length xs] xs = xs"
  by (simp add: permute_def map_nth)

lemma permute_take: "(\<forall>k \<in> set t. k < n) \<Longrightarrow> permute t (take n xs) = permute t xs"
  by (auto simp: permute_def)

lemma set_permute: "(\<forall>k \<in> set t. k < length xs) \<Longrightarrow> set (permute t xs) \<subseteq> set xs"
  by (auto simp: permute_def)

lemma permute_loop_eq:
  assumes "length table = n" and "\<forall>k \<in> set table. k < length data" and "n \<le> length temp"
  shows "permute_loop table data n temp = Some (permute table data @ drop n temp)"
proof -
  have "permute_loop table data n temp = Some (map (\<lambda>i. data ! (table ! i)) [0..<n] @ drop n temp)"
    unfolding permute_loop_def using assms by (intro foldM_fill) auto
  then show ?thesis
    using assms by (auto simp: permute_def intro: nth_equalityI)
qed

named_theorems des_tables

lemma table_lengths [des_tables, simp]:
  "length IP_Table = 64" "length IP_1_Table = 64" "length E_Table = 48" "length P_Table = 32"
  "length PC_1 = 56" "length PC_2 = 48" "length MOVE_TIMES = 16"
  by code_simp+

lemma table_ranges [des_tables]:
  "\<forall>k \<in> set IP_Table. k < 64" "\<forall>k \<in> set IP_1_Table. k < 64" "\<forall>k \<in> set E_Table. k < 32"
  "\<forall>k \<in> set P_Table. k < 32" "\<forall>k \<in> set PC_1. k < 64" "\<forall>k \<in> set PC_2. k < 56"
  "\<forall>k \<in> set MOVE_TIMES. k \<le> 28"
  by code_simp+

lemma IP_tables_inverse:
  "permute IP_1_Table IP_Table = [0..<64]" "permute IP_Table IP_1_Table = [0..<64]"
  by code_simp+

lemma IP_inverse:
  assumes "length xs = 64"
  shows "permute IP_1_Table (permute IP_Table xs) = xs" and "permute IP_Table (permute IP_1_Table xs) = xs"
  using assms permute_upt [of xs] by (simp_all add: permute_permute table_ranges IP_tables_inverse)

lemma DES_IP_Transform_eq: "length data = 64 \<Longrightarrow> DES_IP_Transform data = Some (permute IP_Table data)"
  by (simp add: DES_IP_Transform_def permute_loop_eq table_ranges)

lemma DES_IP_1_Transform_eq: "length data = 64 \<Longrightarrow> DES_IP_1_Transform data = Some (permute IP_1_Table data)"
  by (simp add: DES_IP_1_Transform_def permute_loop_eq table_ranges)

lemma DES_E_Transform_eq: "length data = 48 \<Longrightarrow> DES_E_Transform data = Some (permute E_Table data)"
  by (simp add: DES_E_Transform_def permute_loop_eq table_ranges_mono [OF table_ranges(3)])

lemma DES_P_Transform_eq:
  "length data = 48 \<Longrightarrow> DES_P_Transform data = Some (permute P_Table data @ drop 32 data)"
  by (simp add: DES_P_Transform_def permute_loop_eq table_ranges_mono [OF table_ranges(4)])

lemma DES_PC1_Transform_eq:
  "length key = 64 \<Longrightarrow> length out = 56 \<Longrightarrow> DES_PC1_Transform key out = Some (permute PC_1 key)"
  by (simp add: DES_PC1_Transform_def permute_loop_eq table_ranges)

lemma DES_PC2_Transform_eq:
  "length key = 56 \<Longrightarrow> length out = 48 \<Longrightarrow> DES_PC2_Transform key out = Some (permute PC_2 key)"
  by (simp add: DES_PC2_Transform_def permute_loop_eq table_ranges)

lemma DES_XOR_eq:
  assumes "n \<le> length R" and "n \<le> length L"
  shows "DES_XOR R L n = Some (map2 (XOR) (take n R) (take n L) @ drop n R)"
  using assms
proof (induction n)
  case 0
  then show ?case by (simp add: DES_XOR_def)
next
  case (Suc n)
  then have "DES_XOR R L n = Some (map2 (XOR) (take n R) (take n L) @ drop n R)" by simp
  with Suc.prems show ?case
    by (simp add: DES_XOR_def foldM_append take_Suc_conv_app_nth nth_append list_update_append
        Cons_nth_drop_Suc [symmetric, of n R])
qed

lemma DES_Swap_eq: "length a = 64 \<Longrightarrow> DES_Swap a 0 32 = Some (drop 32 a @ take 32 a)"
  by (simp add: DES_Swap_def)

lemma DES_ROL_eq:
  assumes "length data = 56" and "t \<le> 28"
  shows "DES_ROL data t = Some (rotate t (take 28 data) @ rotate t (drop 28 data))"
proof -
  define C D where "C = take 28 data" and "D = drop 28 data"
  with assms have "data = C @ D" "length C = 28" "length D = 28" by simp_all
  moreover have "rotate t C = drop t C @ take t C" "rotate t D = drop t D @ take t D"
    using assms calculation by (cases "t = 28"; simp add: rotate_drop_take)+
  ultimately show ?thesis
    using assms(2) unfolding C_def [symmetric] D_def [symmetric] 
    by (simp add: DES_ROL_def)
qed

lemma bits_append [simp]: "bits (xs @ ys) \<longleftrightarrow> bits xs \<and> bits ys"
  by (auto simp: bits_def)

lemma bits_take [simp]: "bits xs \<Longrightarrow> bits (take n xs)"
  by (auto simp: bits_def dest: in_set_takeD)

lemma bits_drop [simp]: "bits xs \<Longrightarrow> bits (drop n xs)"
  by (auto simp: bits_def dest: in_set_dropD)

lemma bits_rotate [simp]: "bits (rotate n xs) \<longleftrightarrow> bits xs"
  by (simp add: bits_def)

lemma bits_permute: "bits xs \<Longrightarrow> \<forall>k \<in> set t. k < length xs \<Longrightarrow> bits (permute t xs)"
  using set_permute [of t xs] by (auto simp: bits_def)

lemma bits_xor: "bits xs \<Longrightarrow> bits ys \<Longrightarrow> bits (map2 (XOR) xs ys)"
  by (fastforce simp: bits_def dest: set_zip_leftD set_zip_rightD)

lemma bits_nthE: "bits xs \<Longrightarrow> i < length xs \<Longrightarrow> xs ! i = 0 \<or> xs ! i = 1"
  by (auto simp: bits_def dest!: nth_mem [of i xs])

lemma bits_byte_bits [simp]: "bits (byte_bits c)"
  by (auto simp: bits_def byte_bits_def)

lemma length_byte_bits [simp]: "length (byte_bits c) = 8"
  by (simp add: byte_bits_def)

lemma byte_bit_promote:
  "i < 8 \<Longrightarrow> ucast (signed_drop_bit i (promote ch) AND 1) = (if bit ch i then 1 else 0 :: ElemType)"
proof (rule bit_word_eqI)
  fix n assume "i < 8"
  then show "bit (ucast (signed_drop_bit i (promote ch) AND 1) :: ElemType) n = bit (if bit ch i then 1 else 0 :: ElemType) n"
    by (cases n; cases "i = 7") (auto simp: bit_simps min_def)
qed

lemma ByteToBit_eq:
  assumes "off + 8 \<le> length b"
  shows "ByteToBit ch b off = Some (take off b @ byte_bits ch @ drop (off + 8) b)"
proof -
  have "ByteToBit ch b off = foldM (\<lambda>i b. arr_set b (off + i) (if bit ch i then 1 else 0)) [0..<8] b"
    unfolding ByteToBit_def by (rule foldM_cong) (simp_all add: byte_bit_promote)
  then show ?thesis using assms by (simp add: foldM_fill_at byte_bits_def)
qed

lemma length_concat_byte_bits [simp]: "length (concat (map byte_bits cs)) = 8 * length cs"
  by (induction cs) simp_all

lemma Char8ToBit64_eq:
  assumes "length ch = 8" and "length b = 64"
  shows "Char8ToBit64 ch b = Some (concat (map byte_bits ch))"
proof -
  let ?P = "\<lambda>n b. length b = 64 \<and> take (8 * n) b = concat (map byte_bits (take n ch))"
  have "\<exists>b'. Char8ToBit64 ch b = Some b' \<and> ?P 8 b'"
    unfolding Char8ToBit64_def
  proof (rule for_upto_rule [where P = ?P])
    fix i b assume "i < (8::nat)" "?P i b"
    then show "\<exists>s'. do { c \<leftarrow> arr_get ch i; ByteToBit c b (8 * i) } = Some s' \<and> ?P (Suc i) s'"
      using assms(1) by (simp add: ByteToBit_eq take_Suc_conv_app_nth)
  qed (use assms in auto)
  then show ?thesis using assms by auto
qed

lemma promote_or: "ucast (promote ch OR push_bit i (promote v)) = ch OR push_bit i v"
proof (rule bit_word_eqI)
  fix n assume "n < LENGTH(8)"
  then show "bit (ucast (promote ch OR push_bit i (promote v)) :: ElemType) n = bit (ch OR push_bit i v) n"
    by (cases "n = 7"; cases "i = 0") (auto simp: bit_simps min_def)
qed

lemma BitToByte_eq:
  assumes "off + 8 \<le> length b"
  shows "BitToByte b off 0 = Some (bits_byte (take 8 (drop off b)))"
proof -
  have "BitToByte b off 0 = foldM (\<lambda>i c. Some (c OR push_bit i (take 8 (drop off b) ! i))) [0..<8] 0"
    unfolding BitToByte_def using assms by (intro foldM_cong) (simp_all add: promote_or)
  then show ?thesis by (simp add: foldM_Some bits_byte_def)
qed

lemma Bit64ToChar8_eq:
  assumes "length b = 64" and "length ch = 8"
  shows "Bit64ToChar8 b ch = Some (map bits_byte (chunks 8 b))"
proof -
  let ?f = "\<lambda>k. bits_byte (take 8 (drop (8 * k) b))"
  let ?P = "\<lambda>n ch. length ch = 8 \<and> take n ch = map ?f [0..<n] \<and> drop n ch = replicate (8 - n) 0"
  have "\<exists>r. foldM (\<lambda>cnt ch. do { c \<leftarrow> arr_get ch cnt; c \<leftarrow> BitToByte b (8 * cnt) c; arr_set ch cnt c })
      [0..<8] (replicate 8 0) = Some r \<and> ?P 8 r"
  proof (rule for_upto_rule [where P = ?P])
    fix i ch assume i: "i < (8::nat)" and P: "?P i ch"
    then have "ch ! i = 0"
      by (metis add.right_neutral nth_drop nth_replicate zero_less_diff less_imp_le_nat)
    with i P assms have "do { c \<leftarrow> arr_get ch i; c \<leftarrow> BitToByte b (8 * i) c; arr_set ch i c } = Some (ch[i := ?f i])"
      by (simp add: BitToByte_eq)
    moreover have "drop (Suc i) ch = replicate (8 - Suc i) 0"
      using i P by (metis drop_Suc tl_drop drop_replicate replicate_Suc Suc_diff_Suc list.sel(3))
    ultimately show "\<exists>s'. do { c \<leftarrow> arr_get ch i; c \<leftarrow> BitToByte b (8 * i) c; arr_set ch i c } = Some s' \<and> ?P (Suc i) s'"
      using i P by (simp add: take_Suc_conv_app_nth)
  qed auto
  then show ?thesis
    using assms by (auto simp: Bit64ToChar8_def chunks_conv_map)
qed

lemma bit_bits_byte:
  "bit (fold (\<lambda>i c. c OR push_bit i (bs ! i)) [0..<k] 0 :: ElemType) n \<longleftrightarrow>
   (\<exists>i < k. i \<le> n \<and> n < 8 \<and> bit (bs ! i) (n - i))"
  by (induction k) (auto simp: bit_simps less_Suc_eq)

lemma bits_byte_nth:
  assumes "bits bs" and "length bs = 8" and "n < 8"
  shows "bit (bits_byte bs) n \<longleftrightarrow> bs ! n = 1"
proof -
  have "bit (bs ! i) m \<longleftrightarrow> m = 0 \<and> bs ! i = 1" if "i < 8" for i m
    using bits_nthE [OF assms(1), of i] assms(2) that by (auto simp: bit_simps)
  then show ?thesis
    using assms(3) by (auto simp: bits_byte_def bit_bits_byte)
qed

lemma bits_byte_byte_bits: "bits_byte (byte_bits c) = c"
  by (rule bit_word_eqI) (simp add: bits_byte_nth byte_bits_def [THEN arg_cong [of _ _ "\<lambda>xs. xs ! n" for n]])

lemma byte_bits_bits_byte:
  assumes "bits bs" and "length bs = 8"
  shows "byte_bits (bits_byte bs) = bs"
  using assms bits_nthE [OF assms(1)]
  by (intro nth_equalityI) (auto simp: byte_bits_def bits_byte_nth)

lemma S_shape': "length S = 8" "\<forall>b \<in> set S. length b = 4 \<and> (\<forall>r \<in> set b. length r = 16)"
  by code_simp+

lemma S_shape:
  "length S = 8" "i < 8 \<Longrightarrow> length (S ! i) = 4" "i < 8 \<Longrightarrow> j < 4 \<Longrightarrow> length (S ! i ! j) = 16"
proof -
  show "length S = 8" by (rule S_shape')
  assume i: "i < 8"
  with S_shape' have "S ! i \<in> set S" by simp
  with S_shape' show l: "length (S ! i) = 4" by blast
  assume "j < 4"
  with l have "S ! i ! j \<in> set (S ! i)" by simp
  with \<open>S ! i \<in> set S\<close> S_shape' show "length (S ! i ! j) = 16" by blast
qed

lemma length_sbox_group [simp]: "length (sbox_group data c) = 4"
  by (simp add: sbox_group_def Let_def)

lemma length_sbox_groups [simp]: "length (concat (map (sbox_group data) cs)) = 4 * length cs"
  by (induction cs) simp_all

lemma bits_sbox_group [simp]: "bits (sbox_group data c)"
  by (auto simp: bits_def sbox_group_def Let_def)

lemma length_sbox_subst [simp]: "length (sbox_subst data) = 32"
  by (simp add: sbox_subst_def)

lemma bits_sbox_groups [simp]: "bits (concat (map (sbox_group data) cs))"
  by (induction cs) (simp_all, simp add: bits_def)

lemma bits_sbox_subst [simp]: "bits (sbox_subst data)"
  by (simp add: sbox_subst_def)

lemma sint_bit: "v = 0 \<or> v = 1 \<Longrightarrow> sint (v :: ElemType) = int (unat v)"
  by auto

lemma nibble_bits:
  "of_nat (drop_bit 3 (v AND 8)) = (of_bool (bit v 3) :: ElemType)"
  "of_nat (drop_bit 2 (v AND 4)) = (of_bool (bit v 2) :: ElemType)"
  "of_nat (drop_bit 1 (v AND 2)) = (of_bool (bit v 1) :: ElemType)"
  "of_nat (v AND 1) = (of_bool (bit v 0) :: ElemType)" for v :: nat
proof -
  have "of_nat (drop_bit k (v AND 2 ^ k)) = (of_bool (bit v k) :: ElemType)" for k
    by (rule bit_word_eqI) (auto simp: bit_simps)
  from this [of 3] this [of 2] this [of 1] this [of 0] show
    "of_nat (drop_bit 3 (v AND 8)) = (of_bool (bit v 3) :: ElemType)"
    "of_nat (drop_bit 2 (v AND 4)) = (of_bool (bit v 2) :: ElemType)"
    "of_nat (drop_bit 1 (v AND 2)) = (of_bool (bit v 1) :: ElemType)"
    "of_nat (v AND 1) = (of_bool (bit v 0) :: ElemType)" by simp_all
qed

lemma four_updates:
  "i + 4 \<le> length d \<Longrightarrow>
   d[i := a, i + 1 := b, i + 2 := c, i + 3 := e] = take i d @ [a, b, c, e] @ drop (i + 4) d"
  by (rule nth_equalityI) (auto simp: nth_list_update nth_append nth_Cons intro!: arg_cong [of _ _ "(!) d"] split: nat.splits)

lemma DES_SBOX_step_eq:
  assumes "length d = 48" and "bits d" and "c < 8"
  shows "DES_SBOX_step c d = Some (take (4 * c) d @ sbox_group d c @ drop (4 * c + 4) d)"
proof -
  let ?g = "\<lambda>j. unat (d ! (c * 6 + j))"
  have b: "d ! (c * 6 + j) = 0 \<or> d ! (c * 6 + j) = 1" if "j < 6" for j
    using assms that by (intro bits_nthE) auto
  then have g: "sint (d ! (c * 6 + j)) = int (?g j)" and g1: "?g j \<le> 1" if "j < 6" for j
    using sint_bit [OF b [OF that]] b [OF that] by auto
  let ?line = "2 * ?g 0 + ?g 5" and ?row = "8 * ?g 1 + 4 * ?g 2 + 2 * ?g 3 + ?g 4"
  have line: "push_bit 1 (sint (d ! (c * 6))) + sint (d ! (c * 6 + 5)) = int ?line"
    using g [of 0] g [of 5] by (simp add: push_bit_eq_mult)
  have row: "push_bit 3 (sint (d ! (c * 6 + 1))) + push_bit 2 (sint (d ! (c * 6 + 2))) +
      push_bit 1 (sint (d ! (c * 6 + 3))) + sint (d ! (c * 6 + 4)) = int ?row"
    using g [of 1] g [of 2] g [of 3] g [of 4] by (simp add: push_bit_eq_mult)
  have lr: "?line < 4" "?row < 16"
    using g1 [of 0] g1 [of 1] g1 [of 2] g1 [of 3] g1 [of 4] g1 [of 5] by auto
  then have S: "?line < length (S ! c)" "?row < length (S ! c ! ?line)"
    using S_shape(2,3) [OF assms(3)] by (simp_all only:)
  let ?v = "S ! c ! ?line ! ?row"
  have "DES_SBOX_step c d = Some (d[4 * c := of_bool (bit ?v 3), 4 * c + 1 := of_bool (bit ?v 2),
      4 * c + 2 := of_bool (bit ?v 1), 4 * c + 3 := of_bool (bit ?v 0)])"
    unfolding DES_SBOX_step_def Let_def using S assms S_shape(1)
    by (simp only: arr_get_ok line row arr_get_int_def nat_int arr_set_ok length_list_update Option.bind.simps nibble_bits) simp
  also have "\<dots> = Some (take (4 * c) d @ sbox_group d c @ drop (4 * c + 4) d)"
    using assms by (subst four_updates) (simp_all add: sbox_group_def mult.commute)
  finally show ?thesis .
qed

lemma sbox_group_cong:
  "(\<And>j. 6 * c \<le> j \<Longrightarrow> j < 6 * c + 6 \<Longrightarrow> d ! j = e ! j) \<Longrightarrow> sbox_group d c = sbox_group e c"
  by (simp add: sbox_group_def)

lemma DES_SBOX_eq:
  assumes "length d = 48" and "bits d"
  shows "DES_SBOX d = Some (sbox_subst d @ drop 32 d)"
proof -
  let ?P = "\<lambda>n s. s = concat (map (sbox_group d) [0..<n]) @ drop (4 * n) d"
  have "\<exists>s'. DES_SBOX d = Some s' \<and> ?P 8 s'"
    unfolding DES_SBOX_def
  proof (rule for_upto_rule [where P = ?P])
    fix c s assume c: "c < (8::nat)" and s: "?P c s"
    have l: "length s = 48" "bits s"
      using c assms by (simp_all add: s)
    have "s ! j = d ! j" if "4 * c \<le> j" for j
      using that c assms(1) by (simp add: s nth_append)
    then have "sbox_group s c = sbox_group d c"
      by (intro sbox_group_cong) simp
    then show "\<exists>s'. DES_SBOX_step c s = Some s' \<and> ?P (Suc c) s'"
      using DES_SBOX_step_eq [OF l c] by (simp add: s add.commute)
  qed simp_all
  then show ?thesis by (simp add: sbox_subst_def)
qed

lemma half_des_f: "subkey k \<Longrightarrow> half r \<Longrightarrow> half (des_f k r)"
  by (simp add: des_f_def half_def bits_permute table_ranges)

lemma map2_xor_cancel:
  "length x = length y \<Longrightarrow> map2 (XOR) (map2 (XOR) x y) y = (x :: 'a :: len word list)"
  by (induction x y rule: list_induct2) (simp_all add: xor.assoc)

locale feistel_network =
  fixes f :: "'k \<Rightarrow> 'h \<Rightarrow> 'h" and mix :: "'h \<Rightarrow> 'h \<Rightarrow> 'h" and key :: "'k \<Rightarrow> bool" and ok :: "'h \<Rightarrow> bool"
  assumes mix_cancel: "ok x \<Longrightarrow> ok y \<Longrightarrow> mix (mix x y) y = x"
    and ok_mix: "ok x \<Longrightarrow> ok y \<Longrightarrow> ok (mix x y)"
    and ok_f: "key k \<Longrightarrow> ok x \<Longrightarrow> ok (f k x)"
begin

lemma ok_round: "key k \<Longrightarrow> ok (fst p) \<Longrightarrow> ok (snd p) \<Longrightarrow>
    ok (fst (feistel_round f mix k p)) \<and> ok (snd (feistel_round f mix k p))"
  by (simp add: feistel_round_def ok_mix ok_f)

lemma round_inverse: "key k \<Longrightarrow> ok (fst p) \<Longrightarrow> ok (snd p) \<Longrightarrow>
    feistel_round f mix k (prod.swap (feistel_round f mix k p)) = prod.swap p"
  by (cases p) (simp add: feistel_round_def mix_cancel ok_f)

end

sublocale feistel_network \<subseteq> rounds: reversible_rounds "feistel_round f mix" prod.swap key "\<lambda>p. ok (fst p) \<and> ok (snd p)"
  by unfold_locales (auto simp: round_inverse ok_round)

context feistel_network
begin

lemma network_inverse:
  assumes "\<forall>k \<in> set ks. key k" and "ok (fst p)" and "ok (snd p)"
  shows "feistel f mix (rev ks) (feistel f mix ks p) = p"
  using rounds.cipher_inverse [of ks p] assms by (simp add: feistel_def)

lemma ok_network: "\<forall>k \<in> set ks. key k \<Longrightarrow> ok (fst p) \<Longrightarrow> ok (snd p) \<Longrightarrow>
    ok (fst (feistel f mix ks p)) \<and> ok (snd (feistel f mix ks p))"
  using rounds.ok_steps [of ks p] by (simp add: feistel_def)

end

interpretation des: feistel_network des_f "map2 (XOR)" subkey half
  by unfold_locales (auto simp: half_des_f, auto simp: half_def map2_xor_cancel bits_xor)

lemma DES_round_eq:
  assumes "half l" and "half r" and "length cr = 48" and "cnt < length ks" and "subkey (ks ! cnt)"
  shows "\<exists>cr'. length cr' = 48 \<and> DES_round fin ks cnt (l @ r, cr) =
    Some (if cnt \<noteq> fin then r @ map2 (XOR) l (des_f (ks ! cnt) r) else map2 (XOR) l (des_f (ks ! cnt) r) @ r, cr')"
proof -
  let ?k = "ks ! cnt" and ?cr = "r @ drop 32 cr"
  have E: "permute E_Table ?cr = permute E_Table r"
    using permute_take [OF table_ranges(3), of ?cr] assms by (simp add: half_def)
  let ?x = "map2 (XOR) (permute E_Table r) ?k"
  have x: "length ?x = 48" "bits ?x"
    using assms by (simp_all add: subkey_def half_def bits_xor bits_permute table_ranges)
  let ?s = "sbox_subst ?x @ drop 32 ?x"
  have P: "permute P_Table ?s = des_f ?k r"
    using permute_take [OF table_ranges(4), of ?s] by (simp add: des_f_def)
  show ?thesis
    using assms x E P
    by (intro exI [of _ "des_f ?k r @ drop 32 ?s"])
      (simp add: DES_round_def half_def subkey_def DES_E_Transform_eq DES_XOR_eq DES_SBOX_eq DES_P_Transform_eq
        DES_Swap_eq des_f_def)
qed

lemma DES_rounds_eq:
  assumes "half (fst p)" and "half (snd p)" and "length cr = 48"
    and "\<forall>c \<in> set cs. c < length ks \<and> subkey (ks ! c) \<and> c \<noteq> fin"
  shows "\<exists>cr'. length cr' = 48 \<and> foldM (DES_round fin ks) cs (fst p @ snd p, cr) =
    Some (let q = fold (feistel_round des_f (map2 (XOR))) (map ((!) ks) cs) p in fst q @ snd q, cr')"
  using assms
proof (induction cs arbitrary: p cr)
  case (Cons c cs)
  let ?p = "feistel_round des_f (map2 (XOR)) (ks ! c) p"
  obtain cr1 where "length cr1 = 48" "DES_round fin ks c (fst p @ snd p, cr) = Some (fst ?p @ snd ?p, cr1)"
    using DES_round_eq [of "fst p" "snd p" cr c ks fin] Cons.prems by (auto simp: feistel_round_def)
  then show ?case
    using Cons.IH [of ?p cr1] Cons.prems des.ok_round [of "ks ! c" p] by (auto simp: Let_def)
qed simp

text \<open>The rounds of a whole block: all but the last with the exchange, the last without.\<close>

lemma DES_network_eq:
  assumes "half l" and "half r" and "\<forall>c \<in> set (cs @ [fin]). c < length ks \<and> subkey (ks ! c)" and "fin \<notin> set cs"
  shows "\<exists>cr'. foldM (DES_round fin ks) (cs @ [fin]) (l @ r, replicate 48 0) =
    Some (let q = feistel des_f (map2 (XOR)) (map ((!) ks) (cs @ [fin])) (l, r) in fst q @ snd q, cr')"
proof -
  let ?q = "fold (feistel_round des_f (map2 (XOR))) (map ((!) ks) cs) (l, r)"
  obtain cr where cr: "length cr = 48"
    "foldM (DES_round fin ks) cs (l @ r, replicate 48 0) = Some (fst ?q @ snd ?q, cr)"
    using DES_rounds_eq [of "(l, r)" "replicate 48 0" cs ks fin] assms by (auto simp: Let_def)
  have q: "half (fst ?q)" "half (snd ?q)"
    using des.rounds.ok_steps [of "map ((!) ks) cs" "(l, r)"] assms by auto
  then show ?thesis
    using cr DES_round_eq [OF q cr(1), of fin ks fin] assms(3)
    by (auto simp: foldM_append feistel_def feistel_round_def Let_def)
qed

lemma bits_concat_byte_bits [simp]: "bits (concat (map byte_bits cs))"
  by (induction cs) (simp_all, simp add: bits_def)

lemma half_split:
  assumes "length block = 8"
  defines "x \<equiv> permute IP_Table (concat (map byte_bits block))"
  shows "half (take 32 x)" and "half (drop 32 x)"
  using assms by (simp_all add: half_def bits_permute table_ranges x_def)

text \<open>The common shape of \<open>DES_EncryptBlock\<close> and \<open>DES_DecryptBlock\<close>, which differ in the order of the subkeys.\<close>

lemma DES_block_eq:
  assumes "length block = 8" and "length out = 8" and "subkeys ks"
    and "set (cs @ [fin]) \<subseteq> {0..<16}" and "fin \<notin> set cs"
  shows "do {
      b \<leftarrow> Char8ToBit64 block (replicate 64 0);
      b \<leftarrow> DES_IP_Transform b;
      (b, copyRight) \<leftarrow> foldM (DES_round fin ks) (cs @ [fin]) (b, replicate 48 0);
      b \<leftarrow> DES_IP_1_Transform b;
      Bit64ToChar8 b out } = Some (des_block (map ((!) ks) (cs @ [fin])) block)"
proof -
  let ?x = "permute IP_Table (concat (map byte_bits block))" and ?ks = "map ((!) ks) (cs @ [fin])"
  let ?q = "feistel des_f (map2 (XOR)) ?ks (take 32 ?x, drop 32 ?x)"
  note h = half_split [OF assms(1)]
  have ks: "\<forall>c \<in> set (cs @ [fin]). c < length ks \<and> subkey (ks ! c)"
    using assms(3,4) by (auto simp: subkeys_def)
  obtain cr where "foldM (DES_round fin ks) (cs @ [fin]) (?x, replicate 48 0) = Some (fst ?q @ snd ?q, cr)"
    using DES_network_eq [OF h ks assms(5)] by (auto simp: Let_def)
  moreover have "length (fst ?q @ snd ?q) = 64"
    using des.ok_network [of ?ks "(take 32 ?x, drop 32 ?x)"] h ks by (auto simp: half_def)
  ultimately show ?thesis
    using assms(1,2) by (simp add: Char8ToBit64_eq DES_IP_Transform_eq DES_IP_1_Transform_eq
        Bit64ToChar8_eq des_block_def Let_def del: foldM_append)
qed

lemma subkeys_order: "subkeys ks \<Longrightarrow> map ((!) ks) [0..<16] = ks" "subkeys ks \<Longrightarrow> map ((!) ks) (rev [0..<16]) = rev ks"
  using map_nth [of ks] by (simp_all add: subkeys_def flip: rev_map)

lemma DES_EncryptBlock_eq:
  assumes "length block = 8" and "length out = 8" and "subkeys ks"
  shows "DES_EncryptBlock block ks out = Some (des_block ks block)"
proof -
  have "[0..<16] = [0..<15] @ [15::nat]" by (simp add: upt_rec)
  then show ?thesis
    using DES_block_eq [OF assms, of "[0..<15]" 15] subkeys_order [OF assms(3)] by (simp add: DES_EncryptBlock_def)
qed

lemma DES_DecryptBlock_eq:
  assumes "length block = 8" and "length out = 8" and "subkeys ks"
  shows "DES_DecryptBlock block ks out = Some (des_block (rev ks) block)"
proof -
  have "rev [0..<16] = rev [1..<16] @ [0::nat]" by (simp add: upt_rec)
  then show ?thesis
    using DES_block_eq [OF assms, of "rev [1..<16]" 0] subkeys_order [OF assms(3)] by (simp add: DES_DecryptBlock_def)
qed

lemma length_des_block [simp]: "length (des_block ks block) = 8"
  by (simp add: des_block_def Let_def chunks_conv_map)

lemma bits_to_bytes_inverse:
  assumes "length x = 64" and "bits x"
  shows "concat (map byte_bits (map bits_byte (chunks 8 x))) = x"
proof -
  have "byte_bits (bits_byte b) = b" if "b \<in> set (chunks 8 x)" for b
    using that assms by (intro byte_bits_bits_byte) (auto simp: chunks_conv_map length_in_chunks)
  then have "map byte_bits (map bits_byte (chunks 8 x)) = chunks 8 x"
    by (simp add: map_idI)
  then show ?thesis using assms(1) by (simp add: concat_chunks del: map_map)
qed

lemma bytes_to_bits_inverse: "map bits_byte (chunks 8 (concat (map byte_bits cs))) = cs"
  by (induction cs) (simp_all add: chunks_append chunks_short bits_byte_byte_bits)

lemma des_block_inverse:
  assumes "length block = 8" and "subkeys ks"
  shows "des_block (rev ks) (des_block ks block) = block"
proof -
  let ?b = "concat (map byte_bits block)"
  let ?x = "permute IP_Table ?b"
  let ?p = "(take 32 ?x, drop 32 ?x)"
  let ?q = "feistel des_f (map2 (XOR)) ks ?p"
  let ?y = "permute IP_1_Table (fst ?q @ snd ?q)"
  have ks: "\<forall>k \<in> set ks. subkey k" and h: "half (fst ?p)" "half (snd ?p)"
    using assms half_split [OF assms(1)] by (simp_all add: subkeys_def)
  then have q: "length (fst ?q) = 32" "length (snd ?q) = 32" "bits (fst ?q)" "bits (snd ?q)"
    using des.ok_network [of ks ?p] by (simp_all add: half_def)
  have "concat (map byte_bits (des_block ks block)) = ?y"
    unfolding des_block_def Let_def
    by (rule bits_to_bytes_inverse) (simp_all add: q bits_permute table_ranges)
  moreover have "permute IP_Table ?y = fst ?q @ snd ?q"
    using q by (simp add: IP_inverse)
  moreover have "feistel des_f (map2 (XOR)) (rev ks) ?q = ?p"
    using des.network_inverse [OF ks h] .
  moreover have "permute IP_1_Table ?x = ?b"
    using assms by (simp add: IP_inverse)
  ultimately show ?thesis
    using q by (simp add: des_block_def [of "rev ks"] Let_def bytes_to_bits_inverse)
qed

lemma subkeys_rev [simp]: "subkeys (rev ks) \<longleftrightarrow> subkeys ks"
  by (simp add: subkeys_def)

lemma DES_MakeSubKeys_eq:
  assumes "length key = 64" and "length ks = 16" and "\<forall>k \<in> set ks. length k = 48"
  shows "DES_MakeSubKeys key ks = Some (map (des_subkey key) [0..<16])"
proof -
  let ?cd = "permute PC_1 key" and ?n = "\<lambda>c. sum_list (take c MOVE_TIMES)"
  let ?t = "\<lambda>c. rotate (?n c) (take 28 ?cd) @ rotate (?n c) (drop 28 ?cd)"
  let ?P = "\<lambda>c s. s = (?t c, map (des_subkey key) [0..<c] @ drop c ks)"
  let ?f = "\<lambda>cnt (temp, subKeys). do {
       time \<leftarrow> arr_get MOVE_TIMES cnt;
       temp \<leftarrow> DES_ROL temp time;
       k \<leftarrow> arr_get subKeys cnt;
       k \<leftarrow> DES_PC2_Transform temp k;
       subKeys \<leftarrow> arr_set subKeys cnt k;
       Some (temp, subKeys) }"
  have "\<exists>s'. foldM ?f [0..<16] (?cd, ks) = Some s' \<and> ?P 16 s'"
  proof (rule for_upto_rule [where P = ?P])
    fix c s assume c: "c < (16::nat)" and s: "?P c s"
    have t: "MOVE_TIMES ! c \<le> 28" using table_ranges(7) c by simp
    have "DES_ROL (?t c) (MOVE_TIMES ! c) = Some (?t (Suc c))"
      using c t by (simp add: DES_ROL_eq rotate_rotate take_Suc_conv_app_nth add.commute)
    moreover have "length (drop c ks ! 0) = 48" using c assms(2,3) by simp
    moreover have "permute PC_2 (?t (Suc c)) = des_subkey key c" by (simp add: des_subkey_def Let_def)
    ultimately show "\<exists>s'. ?f c s = Some s' \<and> ?P (Suc c) s'"
      using c assms(2,3)
      by (simp add: s nth_append DES_PC2_Transform_eq list_update_append Cons_nth_drop_Suc [symmetric, of c ks])
  qed simp_all
  then show ?thesis
    using assms by (auto simp: DES_MakeSubKeys_def DES_PC1_Transform_eq)
qed

lemma subkeys_schedule:
  assumes "length key = 64" and "bits key"
  shows "subkeys (map (des_subkey key) [0..<16])"
  using assms by (auto simp: subkeys_def subkey_def des_subkey_def Let_def bits_permute table_ranges)

declare DES_Encrypt_loop.simps [simp del] DES_padding_scan.simps [simp del]

lemma DES_setkey_eq: "8 \<le> length keyStr \<Longrightarrow> DES_setkey keyStr = Some (des_keys keyStr)"
  by (simp add: DES_setkey_def Char8ToBit64_eq DES_MakeSubKeys_eq des_keys_def)

lemma subkeys_des_keys: "8 \<le> length keyStr \<Longrightarrow> subkeys (des_keys keyStr)"
  by (simp add: des_keys_def subkeys_schedule)

lemma DES_Encrypt_loop_eq:
  assumes "subkeys ks" and "length pb = 8" and "length cb = 8" and "p \<le> length bs"
  shows "\<exists>pb' cb'. DES_Encrypt_loop ks \<lparr>contents = bs, position = p, at_eof = False\<rparr> cnt pb cb out =
      Some (Some ((length bs - p) mod 8), pb', cb', out @ concat (map (des_block ks) (chunks 8 (drop p bs)))) \<and>
    length pb' = 8 \<and> length cb' = 8 \<and>
    take ((length bs - p) mod 8) pb' = drop (8 * ((length bs - p) div 8)) (drop p bs)"
  using assms
proof (induction "length bs - p" arbitrary: p cnt pb cb out rule: less_induct)
  case less
  let ?s = "\<lparr>contents = bs, position = p, at_eof = False\<rparr>"
  show ?case
  proof (cases "length bs - p < 8")
    case True
    let ?r = "drop p bs" and ?s' = "\<lparr>contents = bs, position = length bs, at_eof = True\<rparr>"
    have "fread pb 8 ?s = Some (length ?r, ?r @ drop (length ?r) pb, ?s')"
      using True less.prems by (simp add: fread_def)
    then show ?thesis using True less.prems
      by (simp add: DES_Encrypt_loop.simps [of ks ?s] DES_Encrypt_loop.simps [of ks ?s'] chunks_short)
  next
    case False
    let ?b = "take 8 (drop p bs)" and ?s' = "\<lparr>contents = bs, position = p + 8, at_eof = False\<rparr>"
    have rd: "fread pb 8 ?s = Some (8, ?b, ?s')"
      using False less.prems by (simp add: fread_def)
    have "DES_EncryptBlock ?b ks cb = Some (des_block ks ?b)"
      using False less.prems by (simp add: DES_EncryptBlock_eq)
    with rd have "DES_Encrypt_loop ks ?s cnt pb cb out =
        DES_Encrypt_loop ks ?s' (Some 8) ?b (des_block ks ?b) (out @ des_block ks ?b)"
      by (simp add: DES_Encrypt_loop.simps [of ks ?s])
    moreover have "chunks 8 (drop p bs) = ?b # chunks 8 (drop (p + 8) bs)"
      using False by (simp add: chunks_Cons [of 8 "drop p bs"] add.commute)
    moreover have "(length bs - p) mod 8 = (length bs - (p + 8)) mod 8"
      "(length bs - p) div 8 = Suc ((length bs - (p + 8)) div 8)"
      using False by (simp_all add: le_mod_geq le_div_geq)
    moreover have "p + 8 \<le> length bs" "length ?b = 8" "length bs - (p + 8) < length bs - p" using False by simp_all
    ultimately show ?thesis
      using less.hyps [of "p + 8" ?b "des_block ks ?b" "Some 8" "out @ des_block ks ?b"] less.prems
      by (simp add: ac_simps)
  qed
qed

lemma des_file_pad:
  assumes "length p mod 8 \<noteq> 0"
  shows "des_file ks (des_pad p) = des_file ks p @ des_block ks
    (drop (8 * (length p div 8)) p @ replicate (7 - length p mod 8) 0 @ [of_nat (8 - length p mod 8)])"
proof -
  let ?q = "8 * (length p div 8)" and ?c = "length p mod 8"
  let ?b = "drop ?q p @ replicate (7 - ?c) 0 @ [of_nat (8 - ?c)]"
  have "length (drop ?q p) = ?c" by (simp only: length_drop minus_mult_div_eq_mod)
  moreover have "?c < 8" by simp
  ultimately have b: "length ?b = 8" by simp
  have "des_pad p = take ?q p @ ?b" using assms by (simp add: des_pad_def Let_def)
  moreover have "8 dvd length (take ?q p)" by (simp only: length_take_blocks dvd_triv_left)
  ultimately have "chunks 8 (des_pad p) = chunks 8 p @ chunks 8 ?b"
    by (simp only: chunks_append_dvd zero_less_numeral chunks_full_blocks)
  also have "chunks 8 ?b = [?b]" using chunks_append [of 8 ?b "[]", OF _ b] by (simp add: chunks_short)
  finally show ?thesis by (simp add: des_file_def)
qed

lemma DES_Encrypt_eq:
  assumes "8 \<le> length keyStr"
  shows "DES_Encrypt (Some bytes) keyStr True = Some (DES_OK, Some (des_file (des_keys keyStr) (des_pad bytes)))"
proof -
  let ?ks = "des_keys keyStr" and ?c = "length bytes mod 8" and ?q = "8 * (length bytes div 8)"
  obtain pb cb where l: "DES_Encrypt_loop ?ks (fopen_rb bytes) None (replicate 8 0) (replicate 8 0) [] =
      Some (Some ?c, pb, cb, des_file ?ks bytes)" "length pb = 8" "length cb = 8" "take ?c pb = drop ?q bytes"
    using DES_Encrypt_loop_eq [of ?ks "replicate 8 0" "replicate 8 0" 0 bytes None "[]"] subkeys_des_keys [OF assms]
    by (auto simp: fopen_rb_def des_file_def)
  show ?thesis
  proof (cases "?c = 0")
    case True
    then show ?thesis using l assms by (simp add: DES_Encrypt_def DES_setkey_eq des_pad_def)
  next
    case False
    let ?b = "drop ?q bytes @ replicate (7 - ?c) 0 @ [of_nat (8 - ?c)]"
    have c: "?c + (7 - ?c) = 7" using mod_less_divisor [of 8 "length bytes"] by linarith
    obtain z where "drop 7 pb = [z]" using l(2) by (cases "drop 7 pb") (auto dest: arg_cong [of _ _ length])
    then have m: "memset pb ?c 0 (7 - ?c) = Some (drop ?q bytes @ replicate (7 - ?c) 0 @ [z])"
      using l(2,4) c by simp
    have d: "length (drop ?q bytes) = ?c" by (simp only: length_drop minus_mult_div_eq_mod)
    have "arr_set (drop ?q bytes @ replicate (7 - ?c) 0 @ [z]) 7 (of_nat (8 - ?c)) = Some ?b"
      using arr_set_snoc [of "drop ?q bytes @ replicate (7 - ?c) 0" 7 z] c d
      by (simp only: length_append length_replicate append_assoc)
    moreover have "DES_EncryptBlock ?b ?ks cb = Some (des_block ?ks ?b)"
      using c d l(3) subkeys_des_keys [OF assms] by (intro DES_EncryptBlock_eq) (simp_all del: length_drop)
    ultimately show ?thesis
      using l m False assms by (simp add: DES_Encrypt_def DES_setkey_eq des_file_pad)
  qed
qed

text \<open>
  The scan over a block whose last byte announces \<open>n\<close> padding bytes ends at 7 exactly when the bytes
  before the last one are zero.
\<close>

lemma DES_padding_scan_eq:
  assumes "length b = 8" and "0 \<le> c" and "c \<le> 7"
  shows "\<exists>k. DES_padding_scan b c = Some k \<and> (k = 7 \<longleftrightarrow> (\<forall>j. nat c \<le> j \<and> j < 7 \<longrightarrow> b ! j = 0))"
  using assms
proof (induction b c rule: DES_padding_scan.induct)
  case (1 b c)
  show ?case
  proof (cases "c < 7 \<and> b ! nat c = 0")
    case True
    have "nat (c + 1) = Suc (nat c)" using "1.prems" by simp
    then have "(\<forall>j. nat (c + 1) \<le> j \<and> j < 7 \<longrightarrow> b ! j = 0) \<longleftrightarrow> (\<forall>j. nat c \<le> j \<and> j < 7 \<longrightarrow> b ! j = 0)"
      using True by (metis Suc_leI le_less_Suc_eq le_neq_implies_less Suc_leD)
    moreover have "nat c < length b" using True "1.prems" by linarith
    ultimately show ?thesis
      using True "1.prems" "1.IH" [of "b ! nat c"] by (subst DES_padding_scan.simps) (simp add: arr_get_int_def)
  next
    case False
    then consider "c = 7" | "c < 7" "b ! nat c \<noteq> 0" using "1.prems" by linarith
    then show ?thesis
    proof cases
      case 1
      then show ?thesis by (subst DES_padding_scan.simps) auto
    next
      case 2
      then have "\<not> (\<forall>j. nat c \<le> j \<and> j < 7 \<longrightarrow> b ! j = 0)" by (auto intro!: exI [of _ "nat c"])
      moreover have "nat c < length b" using 2 "1.prems" by linarith
      ultimately show ?thesis using 2 "1.prems" by (subst DES_padding_scan.simps) (simp add: arr_get_int_def)
    qed
  qed
qed

lemma DES_Decrypt_loop_eq:
  assumes "subkeys ks" and "length bs = 8 * n" and "8 * n \<le> 2147483647" and "i < n" and "length cb = 8" and "length pb = 8"
  shows "DES_Decrypt_loop ks (int (length bs)) \<lparr>contents = bs, position = 8 * i, at_eof = False\<rparr> (int (8 * i)) cb pb out =
    Some (des_block (rev ks) (drop (8 * (n - 1)) bs),
      out @ concat (map (\<lambda>k. des_block (rev ks) (take 8 (drop (8 * k) bs))) [i..<n - 1]))"
  using assms
proof (induction "n - i" arbitrary: i cb pb out)
  case (Suc m)
  let ?b = "take 8 (drop (8 * i) bs)" and ?s = "\<lambda>i. \<lparr>contents = bs, position = 8 * i, at_eof = False\<rparr>"
  have rd: "fread cb 8 (?s i) = Some (8, ?b, ?s (Suc i))" and b: "length ?b = 8"
    using Suc.prems by (simp_all add: fread_def)
  have d: "DES_DecryptBlock ?b ks pb = Some (des_block (rev ks) ?b)"
    using Suc.prems b by (simp add: DES_DecryptBlock_eq)
  show ?case
  proof (cases "Suc i < n")
    case True
    have "[i..<n - 1] = i # [Suc i..<n - 1]" using True by (simp add: upt_conv_Cons)
    then show ?thesis
      using Suc.hyps(1) [of "Suc i" ?b "des_block (rev ks) ?b" "out @ des_block (rev ks) ?b"] Suc.hyps(2) Suc.prems True rd d b
      by (subst DES_Decrypt_loop.simps) (simp add: algebra_simps)
  next
    case False
    then have "i = n - 1" "?b = drop (8 * i) bs" using Suc.prems by simp_all
    then show ?thesis
      using Suc.prems rd d b by (subst DES_Decrypt_loop.simps) auto
  qed
qed simp

lemma chunks_des_file:
  assumes "8 dvd length p"
  shows "chunks 8 (des_file ks p) = map (des_block ks) (chunks 8 p)"
proof -
  have "chunks 8 (concat (map (des_block ks) bs)) = map (des_block ks) bs" for bs
    by (induction bs) (simp_all add: chunks_append chunks_short)
  then show ?thesis by (simp add: des_file_def)
qed

lemma length_des_file: "length (des_file ks p) = 8 * (length p div 8)"
proof -
  have "length (concat (map (des_block ks) bs)) = 8 * length bs" for bs
    by (induction bs) simp_all
  then show ?thesis by (simp add: des_file_def, simp add: chunks_conv_map)
qed

lemma padding_length_le: "sint (b ! 7) < 8 \<Longrightarrow> padding_length b \<le> 8"
  unfolding padding_length_def Let_def by (split if_split, intro conjI impI; linarith)

lemma DES_padding_scan_length:
  assumes "length b = 8" and "sint (b ! 7) < 8"
  shows "\<exists>k. DES_padding_scan b (8 - sint (b ! 7)) = Some k \<and>
    take (if k = 7 then nat (8 - sint (b ! 7)) else 8) b = take (8 - padding_length b) b"
proof (cases "1 \<le> sint (b ! 7)")
  case True
  obtain k where k: "DES_padding_scan b (8 - sint (b ! 7)) = Some k"
    "k = 7 \<longleftrightarrow> (\<forall>j. nat (8 - sint (b ! 7)) \<le> j \<and> j < 7 \<longrightarrow> b ! j = 0)"
    using DES_padding_scan_eq [OF assms(1), of "8 - sint (b ! 7)"] True assms(2) by auto
  have p: "padding_length b = (if k = 7 then nat (sint (b ! 7)) else 0)"
    unfolding padding_length_def Let_def Ball_def atLeastLessThan_iff k(2) using True by (simp only: simp_thms)
  have "nat (8 - sint (b ! 7)) = 8 - nat (sint (b ! 7))" using True by simp
  then show ?thesis using k(1) p by simp
next
  case False
  then have p: "padding_length b = 0" unfolding padding_length_def Let_def by (simp only: simp_thms if_False)
  have "\<not> 8 - sint (b ! 7) < 7" "8 - sint (b ! 7) \<noteq> 7" using False by linarith+
  then show ?thesis by (simp add: DES_padding_scan.simps [of b "8 - sint (b ! 7)"] p)
qed

lemma DES_Decrypt_eq:
  assumes "8 \<le> length keyStr" and "8 dvd length p" and "p \<noteq> []" and "length p \<le> 2147483647"
  defines "b \<equiv> drop (length p - 8) p"
  shows "DES_Decrypt (Some (des_file (des_keys keyStr) p)) keyStr True =
    (if sint (b ! 7) < 8 then Some (DES_OK, Some (take (length p - padding_length b) p)) else None)"
proof -
  let ?ks = "des_keys keyStr" and ?e = "des_file (des_keys keyStr) p"
  obtain n where n: "length p = 8 * n" using assms(2) by (elim dvdE)
  with assms(3) have "0 < n" by (cases n) auto
  have ks: "subkeys ?ks" using assms(1) by (rule subkeys_des_keys)
  have "take 8 (drop (8 * k) ?e) = des_block ?ks (take 8 (drop (8 * k) p))" if "k < n" for k
    using chunks_des_file [OF assms(2), of ?ks] that n
    by (auto simp: chunks_conv_map length_des_file map_eq_conv)
  then have dec: "des_block (rev ?ks) (take 8 (drop (8 * k) ?e)) = take 8 (drop (8 * k) p)" if "k < n" for k
    using that n ks by (simp add: des_block_inverse)
  have "take 8 (drop (8 * (n - 1)) ?e) = drop (8 * (n - 1)) ?e" "take 8 (drop (8 * (n - 1)) p) = b"
    using n \<open>0 < n\<close> by (simp_all add: b_def length_des_file algebra_simps)
  then have last: "des_block (rev ?ks) (drop (8 * (n - 1)) ?e) = b"
    using dec [of "n - 1"] \<open>0 < n\<close> by simp
  let ?init = "take (8 * (n - 1)) p"
  have "map (\<lambda>k. des_block (rev ?ks) (take 8 (drop (8 * k) ?e))) [0..<n - 1] = chunks 8 ?init"
    using n by (auto simp: chunks_conv_map dec drop_take min_def)
  then have init: "concat (map (\<lambda>k. des_block (rev ?ks) (take 8 (drop (8 * k) ?e))) [0..<n - 1]) = ?init"
    using n by (simp add: concat_chunks min_def)
  have loop: "DES_Decrypt_loop ?ks (int (length ?e)) (fopen_rb ?e) 0 (replicate 8 0) (replicate 8 0) [] = Some (b, ?init)"
    using DES_Decrypt_loop_eq [OF ks, of ?e n 0 "replicate 8 0" "replicate 8 0" "[]"] n \<open>0 < n\<close> assms(4)
      last init by (simp add: length_des_file fopen_rb_def)
  have b: "length b = 8" "length ?init = length p - 8" "?init @ b = p" "8 \<le> length p"
    using n \<open>0 < n\<close> by (simp_all add: b_def algebra_simps)
  show ?thesis
  proof (cases "sint (b ! 7) < 8")
    case True
    then obtain k where k: "DES_padding_scan b (8 - sint (b ! 7)) = Some k"
      "take (if k = 7 then nat (8 - sint (b ! 7)) else 8) b = take (8 - padding_length b) b"
      using DES_padding_scan_length b(1) by blast
    have "padding_length b \<le> 8" using True by (rule padding_length_le)
    then have "take (length p - padding_length b) p = ?init @ take (8 - padding_length b) b"
      using b(1,2,4) take_append [of "length p - padding_length b" ?init b] unfolding b(3) by simp
    with k True loop b(1) show ?thesis
      using assms(1) by (auto simp: DES_Decrypt_def DES_setkey_eq split: if_splits)
  next
    case False
    then show ?thesis using loop assms(1) b(1) by (simp add: DES_Decrypt_def DES_setkey_eq)
  qed
qed

lemma sint_of_small: "k < 128 \<Longrightarrow> sint (of_nat k :: ElemType) = int k"
  by (subst signed_of_nat) (simp add: signed_take_bit_int_eq_self)

lemma DES_Decrypt_padded:
  assumes "8 \<le> length keyStr" and "length p mod 8 \<noteq> 0" and "length p + 8 \<le> 2147483647"
  shows "DES_Decrypt (Some (des_file (des_keys keyStr) (des_pad p))) keyStr True = Some (DES_OK, Some p)"
proof -
  let ?c = "length p mod 8" and ?q = "8 * (length p div 8)"
  let ?b = "drop ?q p @ replicate (7 - ?c) 0 @ [of_nat (8 - ?c)]"
  have c: "?c < 8" "length p = ?q + ?c" "length (drop ?q p) = ?c"
    by (simp, simp, simp only: length_drop minus_mult_div_eq_mod)
  have pad: "des_pad p = take ?q p @ ?b" using assms(2) by (simp add: des_pad_def Let_def)
  have b: "length ?b = 8" using c(1,3) by (simp del: length_drop)
  have l: "length (des_pad p) = ?q + 8"
    unfolding pad length_append [of "take ?q p"] b by (simp only: length_take_blocks)
  have last: "drop (length (des_pad p) - 8) (des_pad p) = ?b"
    unfolding l pad by (simp add: length_take_blocks del: length_take)
  have "length (drop ?q p @ replicate (7 - ?c) 0) = 7"
    using c(1) unfolding length_append c(3) length_replicate by linarith
  then have b7: "?b ! 7 = of_nat (8 - ?c)"
    using nth_append_length [of "drop ?q p @ replicate (7 - ?c) 0" "of_nat (8 - ?c)" "[]"] by (simp only: append_assoc)
  have s: "sint (?b ! 7) = int (8 - ?c)"
    unfolding b7 by (rule sint_of_small) simp
  have z: "?b ! j = 0" if "?c \<le> j" "j < 7" for j
    using that c(3) by (simp add: nth_append del: length_drop)
  have pl: "padding_length ?b = 8 - ?c"
    using z assms(2) c(1) unfolding padding_length_def s Let_def by auto
  have p: "take (?q + 8 - (8 - ?c)) (des_pad p) = p"
    using c(1) assms(2) by (simp add: des_pad_def Let_def)
  have le: "length (des_pad p) \<le> 2147483647"
    unfolding l using c(2) assms(3) by linarith
  have "8 dvd length (des_pad p)" "des_pad p \<noteq> []" using l by auto
  from DES_Decrypt_eq [OF assms(1) this le, unfolded last, unfolded l s pl p]
  show ?thesis using assms(2) by simp
qed

lemma length_flip [simp]: "length (flip_bits x) = length x"
  by (simp add: flip_bits_def)

lemma flip_append: "flip_bits (x @ y) = flip_bits x @ flip_bits y"
  by (simp add: flip_bits_def)

lemma flip_take_drop: "take n (flip_bits x) = flip_bits (take n x)" "drop n (flip_bits x) = flip_bits (drop n x)"
  by (simp_all add: flip_bits_def take_map drop_map)

lemma permute_flip: "\<forall>k \<in> set t. k < length x \<Longrightarrow> permute t (flip_bits x) = flip_bits (permute t x)"
  by (simp add: permute_def flip_bits_def)

lemma rotate_flip: "rotate n (flip_bits x) = flip_bits (rotate n x)"
  by (simp add: flip_bits_def rotate_map)

lemma xor_flip:
  assumes "length x = length y"
  shows "map2 (XOR) (flip_bits x) (flip_bits y) = map2 (XOR) x y"
    and "map2 (XOR) (flip_bits x) y = flip_bits (map2 (XOR) x y)"
proof -
  have "(a XOR 1) XOR (b XOR 1) = a XOR b" "(a XOR 1) XOR b = (a XOR b) XOR 1" for a b :: ElemType
    by (simp_all add: bit_eq_iff bit_simps) blast+
  with assms show "map2 (XOR) (flip_bits x) (flip_bits y) = map2 (XOR) x y"
    "map2 (XOR) (flip_bits x) y = flip_bits (map2 (XOR) x y)"
    by (induction x y rule: list_induct2) (simp_all add: flip_bits_def)
qed

lemma byte_bits_NOT: "byte_bits (NOT c) = flip_bits (byte_bits c)"
  by (simp add: byte_bits_def flip_bits_def bit_simps)

lemma concat_byte_bits_NOT: "concat (map byte_bits (map NOT cs)) = flip_bits (concat (map byte_bits cs))"
  by (induction cs) (simp_all add: byte_bits_NOT flip_append, simp add: flip_bits_def)

lemma des_f_flip: "subkey k \<Longrightarrow> half r \<Longrightarrow> des_f (flip_bits k) (flip_bits r) = des_f k r"
  by (simp add: des_f_def permute_flip table_ranges half_def subkey_def xor_flip(1))

lemma feistel_flip:
  assumes "\<forall>k \<in> set ks. subkey k" and "half (fst p)" and "half (snd p)"
  shows "feistel des_f (map2 (XOR)) (map flip_bits ks) (map_prod flip_bits flip_bits p) =
    map_prod flip_bits flip_bits (feistel des_f (map2 (XOR)) ks p)"
proof -
  have "fold (feistel_round des_f (map2 (XOR))) (map flip_bits ks) (map_prod flip_bits flip_bits p) =
      map_prod flip_bits flip_bits (fold (feistel_round des_f (map2 (XOR))) ks p)"
    using assms
  proof (induction ks arbitrary: p)
    case (Cons k ks)
    have "half (des_f k (snd p))" using Cons.prems by (simp add: half_des_f)
    then have "feistel_round des_f (map2 (XOR)) (flip_bits k) (map_prod flip_bits flip_bits p) =
        map_prod flip_bits flip_bits (feistel_round des_f (map2 (XOR)) k p)"
      using Cons.prems by (cases p) (simp add: feistel_round_def des_f_flip xor_flip half_def)
    then show ?case using Cons.IH Cons.prems des.ok_round [of k p] by simp
  qed simp
  then show ?thesis by (simp add: feistel_def prod.swap_def map_prod_def split_beta)
qed

lemma des_keys_NOT:
  assumes "8 \<le> length keyStr"
  shows "des_keys (map NOT keyStr) = map flip_bits (des_keys keyStr)"
proof -
  let ?k = "concat (map byte_bits (take 8 keyStr))"
  have "des_subkey (flip_bits ?k) c = flip_bits (des_subkey ?k c)" for c
    using assms by (simp add: des_subkey_def Let_def permute_flip table_ranges flip_take_drop rotate_flip flip: flip_append)
  then show ?thesis
    using concat_byte_bits_NOT [of "take 8 keyStr"] by (simp add: des_keys_def take_map)
qed

lemma des_block_NOT:
  assumes "subkeys ks" and "length block = 8"
  shows "des_block (map flip_bits ks) (map NOT block) = map NOT (des_block ks block)"
proof -
  let ?x = "permute IP_Table (concat (map byte_bits block))"
  let ?q = "feistel des_f (map2 (XOR)) ks (take 32 ?x, drop 32 ?x)"
  let ?y = "permute IP_1_Table (fst ?q @ snd ?q)"
  have ks: "\<forall>k \<in> set ks. subkey k" using assms(1) by (simp add: subkeys_def)
  have h: "half (take 32 ?x)" "half (drop 32 ?x)" using half_split [OF assms(2)] .
  have q: "half (fst ?q)" "half (snd ?q)" using des.ok_network [OF ks, of "(take 32 ?x, drop 32 ?x)"] h by simp_all
  have x: "permute IP_Table (concat (map byte_bits (map NOT block))) = flip_bits ?x"
    using assms(2) unfolding concat_byte_bits_NOT by (simp add: permute_flip table_ranges)
  have "feistel des_f (map2 (XOR)) (map flip_bits ks) (take 32 (flip_bits ?x), drop 32 (flip_bits ?x)) =
      map_prod flip_bits flip_bits ?q"
    using feistel_flip [OF ks, of "(take 32 ?x, drop 32 ?x)"] h by (simp add: flip_take_drop)
  then have "des_block (map flip_bits ks) (map NOT block) = map bits_byte (chunks 8 (flip_bits ?y))"
    using q unfolding des_block_def x Let_def by (simp add: permute_flip table_ranges half_def flip: flip_append)
  also have "flip_bits ?y = concat (map byte_bits (map NOT (des_block ks block)))"
    unfolding concat_byte_bits_NOT using q
    by (simp add: des_block_def Let_def half_def bits_to_bytes_inverse bits_permute table_ranges del: map_map)
  finally show ?thesis by (simp only: bytes_to_bits_inverse)
qed

section \<open>Properties\<close>

text \<open>
  C14. File round trip: for every file whose length is not a multiple of eight (and below the range of the
  \<open>int\<close> byte counter) and every key of at least eight bytes, decrypting the encrypted file gives
  the file back; all buffers are used inside their bounds.
\<close>

theorem des_file_roundtrip:
  assumes "8 \<le> length keyStr" and "length p mod 8 \<noteq> 0" and "length p + 8 \<le> 2147483647"
  shows "\<exists>c. DES_Encrypt (Some p) keyStr True = Some (DES_OK, Some c) \<and>
    DES_Decrypt (Some c) keyStr True = Some (DES_OK, Some p)"
  using DES_Encrypt_eq [OF assms(1), of p] DES_Decrypt_padded [OF assms] by blast

theorem des_file_roundtrip_witness:
  "\<exists>c. DES_Encrypt (Some [72, 101, 108, 108, 111]) [1, 2, 3, 4, 5, 6, 7, 8] True = Some (DES_OK, Some c) \<and>
    DES_Decrypt (Some c) [1, 2, 3, 4, 5, 6, 7, 8] True = Some (DES_OK, Some [72, 101, 108, 108, 111])"
  using des_file_roundtrip [of "[1, 2, 3, 4, 5, 6, 7, 8]" "[72, 101, 108, 108, 111]"] by simp

text \<open>
  C15. Block round trip: with the key schedule of any key of at least eight bytes, \<open>DES_DecryptBlock\<close>
  inverts \<open>DES_EncryptBlock\<close> on every block.
\<close>

theorem des_block_roundtrip:
  assumes "8 \<le> length keyStr" and "length block = 8" and "length out = 8" and "length out' = 8"
  shows "\<exists>ks c. DES_setkey keyStr = Some ks \<and> DES_EncryptBlock block ks out = Some c \<and>
    DES_DecryptBlock c ks out' = Some block"
  using assms subkeys_des_keys [OF assms(1)]
  by (simp add: DES_setkey_eq DES_EncryptBlock_eq DES_DecryptBlock_eq des_block_inverse)

theorem des_block_roundtrip_witness:
  "\<exists>ks c. DES_setkey [1, 2, 3, 4, 5, 6, 7, 8] = Some ks \<and>
    DES_EncryptBlock [255, 0, 1, 2, 3, 128, 7, 9] ks (replicate 8 0) = Some c \<and>
    DES_DecryptBlock c ks (replicate 8 0) = Some [255, 0, 1, 2, 3, 128, 7, 9]"
  using des_block_roundtrip [of "[1, 2, 3, 4, 5, 6, 7, 8]" "[255, 0, 1, 2, 3, 128, 7, 9]" "replicate 8 0" "replicate 8 0"]
  by simp

text \<open>
  C16. Complementation: complementing the key and the block complements the encrypted block, the
  known symmetry of the cipher.
\<close>

theorem des_complementation:
  assumes "8 \<le> length keyStr" and "length block = 8" and "length out = 8" and "length out' = 8"
  shows "\<exists>ks ks' c. DES_setkey keyStr = Some ks \<and> DES_setkey (map NOT keyStr) = Some ks' \<and>
    DES_EncryptBlock block ks out = Some c \<and> DES_EncryptBlock (map NOT block) ks' out' = Some (map NOT c)"
  using assms subkeys_des_keys [of keyStr] subkeys_des_keys [of "map NOT keyStr"] des_keys_NOT [OF assms(1)]
  by (simp add: DES_setkey_eq DES_EncryptBlock_eq des_block_NOT)

theorem des_complementation_witness:
  "\<exists>ks ks' c. DES_setkey [0, 0, 0, 0, 0, 0, 0, 0] = Some ks \<and> DES_setkey (map NOT [0, 0, 0, 0, 0, 0, 0, 0]) = Some ks' \<and>
    DES_EncryptBlock [1, 2, 3, 4, 5, 6, 7, 8] ks (replicate 8 0) = Some c \<and>
    DES_EncryptBlock (map NOT [1, 2, 3, 4, 5, 6, 7, 8]) ks' (replicate 8 0) = Some (map NOT c)"
  using des_complementation [of "[0, 0, 0, 0, 0, 0, 0, 0]" "[1, 2, 3, 4, 5, 6, 7, 8]" "replicate 8 0" "replicate 8 0"]
  by simp

text \<open>
  C17. Files of a multiple of eight bytes are encrypted without padding, and decryption guesses whether
  there was any.  It gives the file without what looks like padding at its end, and is undefined
  (the variable \<open>count\<close> is read unassigned) where the last byte is 8 or more.
\<close>

theorem des_file_aligned:
  assumes "8 \<le> length keyStr" and "8 dvd length p" and "p \<noteq> []" and "length p \<le> 2147483647"
  shows "\<exists>c. DES_Encrypt (Some p) keyStr True = Some (DES_OK, Some c) \<and>
    DES_Decrypt (Some c) keyStr True =
      (if sint (drop (length p - 8) p ! 7) < 8
       then Some (DES_OK, Some (take (length p - padding_length (drop (length p - 8) p)) p)) else None)"
  using DES_Encrypt_eq [OF assms(1), of p] DES_Decrypt_eq [OF assms] assms(2) by (simp add: des_pad_def)

theorem des_file_aligned_witness:
  "(\<exists>c. DES_Encrypt (Some [1, 2, 3, 4, 5, 6, 0, 2]) [1, 2, 3, 4, 5, 6, 7, 8] True = Some (DES_OK, Some c) \<and>
      DES_Decrypt (Some c) [1, 2, 3, 4, 5, 6, 7, 8] True = Some (DES_OK, Some [1, 2, 3, 4, 5, 6])) \<and>
   (\<exists>c. DES_Encrypt (Some [1, 2, 3, 4, 5, 6, 7, 65]) [1, 2, 3, 4, 5, 6, 7, 8] True = Some (DES_OK, Some c) \<and>
      DES_Decrypt (Some c) [1, 2, 3, 4, 5, 6, 7, 8] True = None)"
proof -
  have p: "padding_length [1, 2, 3, 4, 5, 6, 0, 2] = 2" by code_simp
  have d: "(8 :: nat) dvd length [a, b, c, d, e, f, g, h]" for a b c d e f g h :: ElemType
    by (rule dvdI [of _ _ 1]) simp
  show ?thesis
    using des_file_aligned [of "[1, 2, 3, 4, 5, 6, 7, 8]" "[1, 2, 3, 4, 5, 6, 0, 2]", OF _ d]
      des_file_aligned [of "[1, 2, 3, 4, 5, 6, 7, 8]" "[1, 2, 3, 4, 5, 6, 7, 65]", OF _ d] p by simp
qed

text \<open>
  C18. The S-box pass overwrites the bits it works on, yet it equals the substitution of the original
  48 bits: no group is read after it has been overwritten.
\<close>

theorem des_sbox_inplace:
  assumes "length d = 48" and "bits d"
  shows "DES_SBOX d = Some (sbox_subst d @ drop 32 d)"
  using assms by (rule DES_SBOX_eq)

theorem des_sbox_inplace_witness:
  "DES_SBOX (replicate 48 1) = Some (sbox_subst (replicate 48 1) @ replicate 16 1)"
  using des_sbox_inplace [of "replicate 48 1"] by (simp add: bits_def)

end
