(* ===== verification/SM4.thy ===== *)
theory SM4
  imports Machine_Words
begin

text \<open>
  Model of the block cipher of \<open>java/spider/src/core/security/sm4/Sm4.java\<close>: the tables, the key expansion, the
  unrolled rounds, and the two ways the class runs over a message.  Java checks every array access; \<open>None\<close> is the
  exception.  A Java \<open>int\<close> of the cipher is a \<open>u32\<close>, a \<open>byte\<close> a \<open>u8\<close> (the masks with \<open>0xFF\<close> undo the sign extension).
  The positions in a message are Java integers that wrap around.
\<close>

section \<open>Tables\<close>

definition Sbox :: "u8 list" where
  "Sbox = [
    0xD6, 0x90, 0xE9, 0xFE, 0xCC, 0xE1, 0x3D, 0xB7, 0x16, 0xB6, 0x14, 0xC2, 0x28, 0xFB, 0x2C, 0x05,
    0x2B, 0x67, 0x9A, 0x76, 0x2A, 0xBE, 0x04, 0xC3, 0xAA, 0x44, 0x13, 0x26, 0x49, 0x86, 0x06, 0x99,
    0x9C, 0x42, 0x50, 0xF4, 0x91, 0xEF, 0x98, 0x7A, 0x33, 0x54, 0x0B, 0x43, 0xED, 0xCF, 0xAC, 0x62,
    0xE4, 0xB3, 0x1C, 0xA9, 0xC9, 0x08, 0xE8, 0x95, 0x80, 0xDF, 0x94, 0xFA, 0x75, 0x8F, 0x3F, 0xA6,
    0x47, 0x07, 0xA7, 0xFC, 0xF3, 0x73, 0x17, 0xBA, 0x83, 0x59, 0x3C, 0x19, 0xE6, 0x85, 0x4F, 0xA8,
    0x68, 0x6B, 0x81, 0xB2, 0x71, 0x64, 0xDA, 0x8B, 0xF8, 0xEB, 0x0F, 0x4B, 0x70, 0x56, 0x9D, 0x35,
    0x1E, 0x24, 0x0E, 0x5E, 0x63, 0x58, 0xD1, 0xA2, 0x25, 0x22, 0x7C, 0x3B, 0x01, 0x21, 0x78, 0x87,
    0xD4, 0x00, 0x46, 0x57, 0x9F, 0xD3, 0x27, 0x52, 0x4C, 0x36, 0x02, 0xE7, 0xA0, 0xC4, 0xC8, 0x9E,
    0xEA, 0xBF, 0x8A, 0xD2, 0x40, 0xC7, 0x38, 0xB5, 0xA3, 0xF7, 0xF2, 0xCE, 0xF9, 0x61, 0x15, 0xA1,
    0xE0, 0xAE, 0x5D, 0xA4, 0x9B, 0x34, 0x1A, 0x55, 0xAD, 0x93, 0x32, 0x30, 0xF5, 0x8C, 0xB1, 0xE3,
    0x1D, 0xF6, 0xE2, 0x2E, 0x82, 0x66, 0xCA, 0x60, 0xC0, 0x29, 0x23, 0xAB, 0x0D, 0x53, 0x4E, 0x6F,
    0xD5, 0xDB, 0x37, 0x45, 0xDE, 0xFD, 0x8E, 0x2F, 0x03, 0xFF, 0x6A, 0x72, 0x6D, 0x6C, 0x5B, 0x51,
    0x8D, 0x1B, 0xAF, 0x92, 0xBB, 0xDD, 0xBC, 0x7F, 0x11, 0xD9, 0x5C, 0x41, 0x1F, 0x10, 0x5A, 0xD8,
    0x0A, 0xC1, 0x31, 0x88, 0xA5, 0xCD, 0x7B, 0xBD, 0x2D, 0x74, 0xD0, 0x12, 0xB8, 0xE5, 0xB4, 0xB0,
    0x89, 0x69, 0x97, 0x4A, 0x0C, 0x96, 0x77, 0x7E, 0x65, 0xB9, 0xF1, 0x09, 0xC5, 0x6E, 0xC6, 0x84,
    0x18, 0xF0, 0x7D, 0xEC, 0x3A, 0xDC, 0x4D, 0x20, 0x79, 0xEE, 0x5F, 0x3E, 0xD7, 0xCB, 0x39, 0x48]"

definition CK :: "u32 list" where
  "CK = [
    0x00070E15, 0x1C232A31, 0x383F464D, 0x545B6269, 0x70777E85, 0x8C939AA1, 0xA8AFB6BD, 0xC4CBD2D9,
    0xE0E7EEF5, 0xFC030A11, 0x181F262D, 0x343B4249, 0x50575E65, 0x6C737A81, 0x888F969D, 0xA4ABB2B9,
    0xC0C7CED5, 0xDCE3EAF1, 0xF8FF060D, 0x141B2229, 0x30373E45, 0x4C535A61, 0x686F767D, 0x848B9299,
    0xA0A7AEB5, 0xBCC3CAD1, 0xD8DFE6ED, 0xF4FB0209, 0x10171E25, 0x2C333A41, 0x484F565D, 0x646B7279]"

definition ROUND :: nat where "ROUND = 32"
definition ENCRYPT :: int where "ENCRYPT = 1"
definition DECRYPT :: int where "DECRYPT = 0"
definition BLOCK :: int where "BLOCK = 16"

section \<open>Words\<close>

definition Rotl :: "u32 \<Rightarrow> nat \<Rightarrow> u32" where
  "Rotl x y = push_bit y x OR drop_bit (32 - y) x"

definition ByteSub :: "u32 \<Rightarrow> u32 option" where
  "ByteSub A = do {
     b3 \<leftarrow> arr_get Sbox (unat (drop_bit 24 A AND 0xFF));
     b2 \<leftarrow> arr_get Sbox (unat (drop_bit 16 A AND 0xFF));
     b1 \<leftarrow> arr_get Sbox (unat (drop_bit 8 A AND 0xFF));
     b0 \<leftarrow> arr_get Sbox (unat (A AND 0xFF));
     Some (push_bit 24 (ucast b3) OR push_bit 16 (ucast b2) OR push_bit 8 (ucast b1) OR ucast b0) }"

definition L1 :: "u32 \<Rightarrow> u32" where
  "L1 B = B XOR Rotl B 2 XOR Rotl B 10 XOR Rotl B 18 XOR Rotl B 24"

definition L2 :: "u32 \<Rightarrow> u32" where
  "L2 B = B XOR Rotl B 13 XOR Rotl B 23"

section \<open>Key expansion and rounds\<close>

text \<open>The loop at the start of both functions: four words, most significant byte first.\<close>

definition load_words :: "u8 list \<Rightarrow> u32 list option" where
  "load_words Input = foldM (\<lambda>i x. do { w \<leftarrow> fetch True Input (4 * i); arr_set x i w }) [0..<4] (replicate 4 0)"

text \<open>
  The three statements \<open>mid = x[a] ^ x[b] ^ x[c] ^ k; mid = ByteSub(mid); x[d] = x[d] ^ L(mid)\<close>.
\<close>

definition round_line :: "(u32 \<Rightarrow> u32) \<Rightarrow> nat \<Rightarrow> nat \<Rightarrow> nat \<Rightarrow> nat \<Rightarrow> u32 \<Rightarrow> u32 list \<Rightarrow> u32 list option" where
  "round_line L a b c d k x = do {
     xa \<leftarrow> arr_get x a; xb \<leftarrow> arr_get x b; xc \<leftarrow> arr_get x c;
     mid \<leftarrow> ByteSub (xa XOR xb XOR xc XOR k);
     xd \<leftarrow> arr_get x d;
     arr_set x d (xd XOR L mid) }"

definition crypt_rounds :: "u32 list \<Rightarrow> nat \<Rightarrow> u32 list \<Rightarrow> u32 list option" where
  "crypt_rounds rk r x = do {
     k \<leftarrow> arr_get rk r; x \<leftarrow> round_line L1 1 2 3 0 k x;
     k \<leftarrow> arr_get rk (r + 1); x \<leftarrow> round_line L1 2 3 0 1 k x;
     k \<leftarrow> arr_get rk (r + 2); x \<leftarrow> round_line L1 3 0 1 2 k x;
     k \<leftarrow> arr_get rk (r + 3); round_line L1 0 1 2 3 k x }"

definition store_word :: "u32 list \<Rightarrow> nat \<Rightarrow> u8 list \<Rightarrow> u8 list option" where
  "store_word x j Output = do {
     w \<leftarrow> arr_get x (3 - j div 4);
     Output \<leftarrow> arr_set Output j (ucast (drop_bit 24 w AND 0xFF));
     Output \<leftarrow> arr_set Output (j + 1) (ucast (drop_bit 16 w AND 0xFF));
     Output \<leftarrow> arr_set Output (j + 2) (ucast (drop_bit 8 w AND 0xFF));
     arr_set Output (j + 3) (ucast (w AND 0xFF)) }"

definition SMS4Crypt :: "u8 list \<Rightarrow> u8 list \<Rightarrow> u32 list \<Rightarrow> u8 list option" where
  "SMS4Crypt Input Output rk = do {
     x \<leftarrow> load_words Input;
     x \<leftarrow> foldM (crypt_rounds rk) [0, 4, 8, 12, 16, 20, 24, 28] x;
     foldM (store_word x) [0, 4, 8, 12] Output }"

definition key_rounds :: "nat \<Rightarrow> u32 list \<times> u32 list \<Rightarrow> (u32 list \<times> u32 list) option" where
  "key_rounds r = (\<lambda>(rk, x). do {
     k \<leftarrow> arr_get CK r; x \<leftarrow> round_line L2 1 2 3 0 k x; v \<leftarrow> arr_get x 0; rk \<leftarrow> arr_set rk r v;
     k \<leftarrow> arr_get CK (r + 1); x \<leftarrow> round_line L2 2 3 0 1 k x; v \<leftarrow> arr_get x 1; rk \<leftarrow> arr_set rk (r + 1) v;
     k \<leftarrow> arr_get CK (r + 2); x \<leftarrow> round_line L2 3 0 1 2 k x; v \<leftarrow> arr_get x 2; rk \<leftarrow> arr_set rk (r + 2) v;
     k \<leftarrow> arr_get CK (r + 3); x \<leftarrow> round_line L2 0 1 2 3 k x; v \<leftarrow> arr_get x 3; rk \<leftarrow> arr_set rk (r + 3) v;
     Some (rk, x) })"

definition xor_at :: "nat \<Rightarrow> u32 \<Rightarrow> u32 list \<Rightarrow> u32 list option" where
  "xor_at i c x = do { v \<leftarrow> arr_get x i; arr_set x i (v XOR c) }"

text \<open>The loop that exchanges the round keys from both ends.\<close>

definition exchange_keys :: "u32 list \<Rightarrow> u32 list option" where
  "exchange_keys rk = foldM (\<lambda>r rk. do {
     mid \<leftarrow> arr_get rk r; v \<leftarrow> arr_get rk (31 - r); rk \<leftarrow> arr_set rk r v; arr_set rk (31 - r) mid }) [0..<16] rk"

definition SMS4KeyExt :: "u8 list \<Rightarrow> u32 list \<Rightarrow> int \<Rightarrow> u32 list option" where
  "SMS4KeyExt Key rk CryptFlag = do {
     x \<leftarrow> load_words Key;
     x \<leftarrow> xor_at 0 0xA3B1BAC6 x; x \<leftarrow> xor_at 1 0x56AA3350 x;
     x \<leftarrow> xor_at 2 0x677D9197 x; x \<leftarrow> xor_at 3 0xB27022DC x;
     (rk, x) \<leftarrow> foldM key_rounds [0, 4, 8, 12, 16, 20, 24, 28] (rk, x);
     if CryptFlag = DECRYPT then exchange_keys rk else Some rk }"

section \<open>Messages\<close>

text \<open>\<open>Arrays.copyOfRange\<close> fills up with zeros; only a start beyond the end is an exception.\<close>

definition copyOfRange :: "u8 list \<Rightarrow> nat \<Rightarrow> nat \<Rightarrow> u8 list option" where
  "copyOfRange a from to =
     (if from \<le> length a then Some (take (to - from) (drop from a @ replicate (to - from) 0)) else None)"

function sms4_loop :: "u32 list \<Rightarrow> u8 list \<Rightarrow> int \<Rightarrow> nat \<Rightarrow> u8 list \<Rightarrow> u8 list \<Rightarrow> u8 list option" where
  "sms4_loop rk inp inLen point output out =
     (if inLen \<ge> BLOCK then do {
        input \<leftarrow> copyOfRange inp point (point + 16);
        output \<leftarrow> SMS4Crypt input output rk;
        out \<leftarrow> memcpy out point output 0 (nat BLOCK);
        sms4_loop rk inp (inLen - BLOCK) (point + nat BLOCK) output out }
      else Some out)"
  by pat_completeness auto

termination
  by (relation "measure (\<lambda>(rk, inp, inLen, point, output, out). nat inLen)") (auto simp: BLOCK_def)

declare sms4_loop.simps [simp del]

definition sms4 :: "u8 list \<Rightarrow> int \<Rightarrow> u8 list \<Rightarrow> u8 list \<Rightarrow> int \<Rightarrow> u8 list option" where
  "sms4 inp inLen key out CryptFlag = do {
     round_key \<leftarrow> SMS4KeyExt key (replicate ROUND 0) CryptFlag;
     sms4_loop round_key inp inLen 0 (replicate 16 0) out }"

definition encode16 :: "u8 list \<Rightarrow> u8 list \<Rightarrow> u8 list option" where
  "encode16 plaintext key = sms4 plaintext 16 key (replicate 16 0) ENCRYPT"

definition decode16 :: "u8 list \<Rightarrow> u8 list \<Rightarrow> u8 list option" where
  "decode16 ciphertext key = sms4 ciphertext 16 key (replicate 16 0) DECRYPT"

definition java_int :: "int \<Rightarrow> int" where
  "java_int x = (x + 2 ^ 31) mod 2 ^ 32 - 2 ^ 31"

text \<open>
  The loop of \<open>encodeSMS4\<close> and of \<open>decodeSMS4\<close>, which differ in the function for a cell.  \<open>System.arraycopy\<close> with a
  negative position is an exception.
\<close>

partial_function (option) cells_loop ::
    "(u8 list \<Rightarrow> u8 list option) \<Rightarrow> u8 list \<Rightarrow> u8 list \<Rightarrow> int \<Rightarrow> u8 list option" where
  "cells_loop crypt16 text res k =
     (if java_int (k + 16) \<le> int (length text) then
        if k < 0 then None
        else do {
          cell \<leftarrow> memcpy (replicate 16 0) 0 text (nat k) 16;
          cell \<leftarrow> crypt16 cell;
          res \<leftarrow> memcpy res (nat k) cell 0 (length cell);
          cells_loop crypt16 text res (java_int (k + 16)) }
      else Some res)"

definition encodeSMS4 :: "u8 list \<Rightarrow> u8 list \<Rightarrow> u8 list option" where
  "encodeSMS4 plaintext key =
     cells_loop (\<lambda>cell. encode16 cell key) plaintext (replicate (length plaintext) 0) 0"

definition decodeSMS4 :: "u8 list \<Rightarrow> u8 list \<Rightarrow> u8 list option" where
  "decodeSMS4 ciphertext key =
     cells_loop (\<lambda>cell. decode16 cell key) ciphertext (replicate (length ciphertext) 0) 0"

end
