(* ===== verification/SM4_Correct.thy ===== *)
theory SM4_Correct
  imports SM4
begin

text \<open>
  Correctness of the SM4 code of theory \<open>SM4\<close>: the unrolled rounds and the key expansion compute the recurrences of the
  standard, the rounds are reversible (locale \<open>reversible_rounds\<close>) and so decryption inverts encryption, and both
  ways to run over a message encrypt its full blocks.
\<close>

section \<open>The standard\<close>

text \<open>
  The standard describes the cipher by sequences of words in which every word comes from the four before it and a
  round constant or round key.
\<close>

definition sm4_tau :: "u32 \<Rightarrow> u32" where
  "sm4_tau A = word_at True (map (\<lambda>b. Sbox ! unat b) (bytes32 True A))"

definition sm4_next :: "(u32 \<Rightarrow> u32) \<Rightarrow> u32 \<Rightarrow> u32 list \<Rightarrow> u32 list" where
  "sm4_next L k xs = (let n = length xs in
     xs @ [xs ! (n - 4) XOR L (sm4_tau (xs ! (n - 3) XOR xs ! (n - 2) XOR xs ! (n - 1) XOR k))])"

definition sm4_words :: "u8 list \<Rightarrow> u32 list" where
  "sm4_words b = map (\<lambda>i. word_at True (drop (4 * i) b)) [0..<4]"

definition sm4_FK :: "u32 list" where
  "sm4_FK = [0xA3B1BAC6, 0x56AA3350, 0x677D9197, 0xB27022DC]"

text \<open>The byte \<open>j\<close> of the constant \<open>i\<close> is \<open>(4 i + j) 7 mod 256\<close>.\<close>

definition sm4_CK :: "nat \<Rightarrow> u32" where
  "sm4_CK i = word_at True (map (\<lambda>j. of_nat ((4 * i + j) * 7)) [0..<4])"

definition sm4_round_keys :: "u8 list \<Rightarrow> u32 list" where
  "sm4_round_keys key = drop 4 (fold (sm4_next L2) (map sm4_CK [0..<32]) (map2 (XOR) (sm4_words key) sm4_FK))"

definition sm4_crypt :: "u32 list \<Rightarrow> u8 list \<Rightarrow> u8 list" where
  "sm4_crypt rk b = concat (map (bytes32 True) (rev (drop 32 (fold (sm4_next L1) rk (sm4_words b)))))"

text \<open>The round keys in the order of use.\<close>

definition sm4_keys :: "u8 list \<Rightarrow> int \<Rightarrow> u32 list" where
  "sm4_keys key flag = (if flag = DECRYPT then rev (sm4_round_keys key) else sm4_round_keys key)"

text \<open>The last four words of a sequence, and what is left of a message when its full blocks are replaced.\<close>

definition sm4_step :: "(u32 \<Rightarrow> u32) \<Rightarrow> u32 \<Rightarrow> u32 list \<Rightarrow> u32 list" where
  "sm4_step L k x = [x ! 1, x ! 2, x ! 3, x ! 0 XOR L (sm4_tau (x ! 1 XOR x ! 2 XOR x ! 3 XOR k))]"

definition cells :: "(u8 list \<Rightarrow> u8 list) \<Rightarrow> u8 list \<Rightarrow> u8 list" where
  "cells f xs = concat (map f (chunks 16 xs)) @ replicate (length xs mod 16) 0"

section \<open>Rounds\<close>

lemma table_facts: "length Sbox = 256" "length CK = 32" "CK = map sm4_CK [0..<32]"
  by code_simp+

lemma byte_mask: "w AND 0xFF = take_bit 8 w" for w :: u32
proof -
  have "(0xFF :: u32) = mask 8" by (simp add: mask_eq_exp_minus_1)
  then show ?thesis by (simp add: take_bit_eq_mask)
qed

lemma unat_and_255: "unat (w AND 0xFF) = unat (ucast w :: u8)" for w :: u32
  by (simp add: byte_mask unsigned_ucast_eq unsigned_take_bit_eq)

lemma ucast_and_255: "(ucast (w AND 0xFF) :: u8) = ucast w" for w :: u32
  unfolding byte_mask by (rule bit_word_eqI) (auto simp: bit_simps)

lemma ByteSub_eq: "ByteSub A = Some (sm4_tau A)"
proof -
  have "unat (b :: u8) < 256" for b using unsigned_less [of b] by simp
  then show ?thesis
    by (simp add: ByteSub_def unat_and_255 table_facts sm4_tau_def bytes32_def word_at_def word_of_bytes_def upt_rec)
qed

lemma round_lines:
  "round_line L 1 2 3 0 k [a, b, c, d] = Some [a XOR L (sm4_tau (b XOR c XOR d XOR k)), b, c, d]"
  "round_line L 2 3 0 1 k [a, b, c, d] = Some [a, b XOR L (sm4_tau (c XOR d XOR a XOR k)), c, d]"
  "round_line L 3 0 1 2 k [a, b, c, d] = Some [a, b, c XOR L (sm4_tau (d XOR a XOR b XOR k)), d]"
  "round_line L 0 1 2 3 k [a, b, c, d] = Some [a, b, c, d XOR L (sm4_tau (a XOR b XOR c XOR k))]"
  by (simp_all add: round_line_def ByteSub_eq)

lemma take_4_more:
  "n + 4 \<le> length xs \<Longrightarrow> take (n + 4) xs = take n xs @ [xs ! n, xs ! (n + 1), xs ! (n + 2), xs ! (n + 3)]"
  by (simp add: numeral_eq_Suc take_Suc_conv_app_nth)

lemma length_steps: "length x = 4 \<Longrightarrow> length (fold (sm4_step L) ks x) = 4"
  by (induction ks arbitrary: x) (simp_all add: sm4_step_def)

lemma sm4_step_list: "sm4_step L k [a, b, c, d] = [b, c, d, a XOR L (sm4_tau (b XOR c XOR d XOR k))]"
  by (simp add: sm4_step_def)

lemma crypt_rounds_eq:
  assumes "r + 4 \<le> length rk" "length x = 4"
  shows "crypt_rounds rk r x = Some (fold (sm4_step L1) [rk ! r, rk ! (r + 1), rk ! (r + 2), rk ! (r + 3)] x)"
  using assms by (elim length_4E) (simp add: crypt_rounds_def round_lines sm4_step_list del: One_nat_def)

lemma crypt_loop_eq:
  assumes "4 * n \<le> length rk" "length x = 4"
  shows "foldM (crypt_rounds rk) (map ((*) 4) [0..<n]) x = Some (fold (sm4_step L1) (take (4 * n) rk) x)"
  using assms
proof (induction n)
  case (Suc n)
  then show ?case
    using crypt_rounds_eq [of "4 * n" rk "fold (sm4_step L1) (take (4 * n) rk) x"] take_4_more [of "4 * n" rk]
    by (simp add: foldM_append length_steps add.commute)
qed simp

lemma load_words_eq: "16 \<le> length b \<Longrightarrow> load_words b = Some (sm4_words b)"
proof -
  assume b: "16 \<le> length b"
  have "foldM (\<lambda>i x. do { w \<leftarrow> fetch True b (4 * i); arr_set x i w }) [0..<4] (replicate 4 0) =
      Some (map (\<lambda>i. word_at True (drop (4 * i) b)) [0..<4] @ drop 4 (replicate 4 0))"
    using b by (intro foldM_fill) (simp_all add: fetch_eq)
  then show ?thesis by (simp add: load_words_def sm4_words_def)
qed

lemma length_sm4_words [simp]: "length (sm4_words b) = 4"
  by (simp add: sm4_words_def)

text \<open>A sequence keeps its older words, and its last four words go through the steps.\<close>

lemma sequence_window:
  assumes "length x = 4"
  shows "\<exists>pre'. fold (sm4_next L) ks (pre @ x) = pre @ pre' @ fold (sm4_step L) ks x \<and> length pre' = length ks"
  using assms
proof (induction ks arbitrary: pre x)
  case (Cons k ks)
  from Cons.prems obtain a b c d where x: "x = [a, b, c, d]" by (rule length_4E)
  then have "sm4_next L k (pre @ x) = (pre @ [a]) @ sm4_step L k x"
    by (simp add: sm4_next_def sm4_step_def Let_def nth_append)
  moreover have "length (sm4_step L k x) = 4" by (simp add: sm4_step_def)
  ultimately show ?case using Cons.IH [of "sm4_step L k x" "pre @ [a]"] by fastforce
qed simp

lemma store_eq:
  assumes "length x = 4" "length out = 16"
  shows "foldM (store_word x) [0, 4, 8, 12] out = Some (concat (map (bytes32 True) (rev x)))"
proof -
  obtain a b c d where x: "x = [a, b, c, d]" using assms(1) by (rule length_4E)
  obtain o0 o1 o2 o3 o4 o5 o6 o7 o8 o9 oa ob oc od oe of' where
    "out = [o0, o1, o2, o3, o4, o5, o6, o7, o8, o9, oa, ob, oc, od, oe, of']"
    using assms(2) by (auto simp: numeral_eq_Suc length_Suc_conv)
  then show ?thesis
    by (simp add: x store_word_def ucast_and_255 bytes32_def upt_rec)
qed

lemma sm4_crypt_steps:
  assumes "length rk = 32"
  shows "sm4_crypt rk b = concat (map (bytes32 True) (rev (fold (sm4_step L1) rk (sm4_words b))))"
proof -
  have "\<exists>pre. fold (sm4_next L1) rk (sm4_words b) = pre @ fold (sm4_step L1) rk (sm4_words b) \<and> length pre = 32"
    using sequence_window [of "sm4_words b" L1 rk "[]"] assms by simp
  then have "drop 32 (fold (sm4_next L1) rk (sm4_words b)) = fold (sm4_step L1) rk (sm4_words b)" by auto
  then show ?thesis by (simp add: sm4_crypt_def)
qed

lemma SMS4Crypt_eq:
  assumes "16 \<le> length b" "length out = 16" "length rk = 32"
  shows "SMS4Crypt b out rk = Some (sm4_crypt rk b)"
proof -
  have idx: "[0, 4, 8, 12, 16, 20, 24, 28] = map ((*) 4) [0..<8]" by (simp add: upt_rec)
  then show ?thesis
    using assms crypt_loop_eq [of 8 rk "sm4_words b"] store_eq [of "fold (sm4_step L1) rk (sm4_words b)" out]
    by (simp add: SMS4Crypt_def load_words_eq length_steps sm4_crypt_steps del: foldM.simps)
qed

section \<open>Key expansion\<close>

lemma next_list: "sm4_next L k (pre @ [a, b, c, d]) = pre @ [a, b, c, d, a XOR L (sm4_tau (b XOR c XOR d XOR k))]"
  by (simp add: sm4_next_def Let_def nth_append)

lemma next_4:
  assumes "length x = 4"
  shows "fold (sm4_next L) [k0, k1, k2, k3] (pre @ x) = pre @ x @ fold (sm4_step L) [k0, k1, k2, k3] x"
proof -
  obtain a b c d where x: "x = [a, b, c, d]" using assms by (rule length_4E)
  define e where "e = a XOR L (sm4_tau (b XOR c XOR d XOR k0))"
  define f where "f = b XOR L (sm4_tau (c XOR d XOR e XOR k1))"
  define g where "g = c XOR L (sm4_tau (d XOR e XOR f XOR k2))"
  show ?thesis
    using next_list [of L k0 pre a b c d] next_list [of L k1 "pre @ [a]" b c d e] next_list [of L k2 "pre @ [a, b]" c d e f]
      next_list [of L k3 "pre @ [a, b, c]" d e f g]
    by (simp add: x sm4_step_list flip: e_def f_def g_def)
qed

lemma key_rounds_eq:
  assumes "length d = r" "r + 4 \<le> 32" "length x = 4"
  shows "key_rounds r (d @ p # q # u # v # rest, x) =
    Some (d @ fold (sm4_step L2) [CK ! r, CK ! (r + 1), CK ! (r + 2), CK ! (r + 3)] x @ rest,
      fold (sm4_step L2) [CK ! r, CK ! (r + 1), CK ! (r + 2), CK ! (r + 3)] x)"
proof -
  obtain a b c e where x: "x = [a, b, c, e]" using assms(3) by (rule length_4E)
  define f where "f = a XOR L2 (sm4_tau (b XOR c XOR e XOR CK ! r))"
  define g where "g = b XOR L2 (sm4_tau (c XOR e XOR f XOR CK ! (r + 1)))"
  define h where "h = c XOR L2 (sm4_tau (e XOR f XOR g XOR CK ! (r + 2)))"
  define i where "i = e XOR L2 (sm4_tau (f XOR g XOR h XOR CK ! (r + 3)))"
  have y: "fold (sm4_step L2) [CK ! r, CK ! (r + 1), CK ! (r + 2), CK ! (r + 3)] x = [f, g, h, i]"
    by (simp only: x fold_simps sm4_step_list f_def g_def h_def i_def)
  have "round_line L2 1 2 3 0 (CK ! r) [a, b, c, e] = Some [f, b, c, e]"
    "round_line L2 2 3 0 1 (CK ! (r + 1)) [f, b, c, e] = Some [f, g, c, e]"
    "round_line L2 3 0 1 2 (CK ! (r + 2)) [f, g, c, e] = Some [f, g, h, e]"
    "round_line L2 0 1 2 3 (CK ! (r + 3)) [f, g, h, e] = Some [f, g, h, i]"
    by (simp_all only: round_lines f_def g_def h_def i_def)
  then show ?thesis
    unfolding y using assms(1,2) by (simp add: x key_rounds_def table_facts(2) list_update_append)
qed

lemma key_loop_eq:
  assumes "4 * n \<le> 32" "length rk = 32" "length x = 4"
  shows "foldM key_rounds (map ((*) 4) [0..<n]) (rk, x) =
    Some (drop 4 (fold (sm4_next L2) (take (4 * n) CK) x) @ drop (4 * n) rk, fold (sm4_step L2) (take (4 * n) CK) x)"
  using assms
proof (induction n)
  case (Suc n)
  let ?t = "take (4 * n) CK"
  obtain pre where w: "fold (sm4_next L2) ?t x = pre @ fold (sm4_step L2) ?t x" "length pre = 4 * n"
    using sequence_window [of x L2 ?t "[]"] Suc.prems by (auto simp: table_facts(2))
  have l: "length (fold (sm4_step L2) ?t x) = 4" using Suc.prems by (simp add: length_steps)
  have d: "drop (4 * n) rk = rk ! (4 * n) # rk ! (4 * n + 1) # rk ! (4 * n + 2) # rk ! (4 * n + 3) # drop (4 * n + 4) rk"
    using Suc.prems by (simp add: Cons_nth_drop_Suc numeral_eq_Suc)
  have "length (drop 4 (pre @ fold (sm4_step L2) ?t x)) = 4 * n" using w l by simp
  then show ?case
    using Suc w l d take_4_more [of "4 * n" CK] next_4 [OF l, of L2 _ _ _ _ pre]
      key_rounds_eq [of "drop 4 (pre @ fold (sm4_step L2) ?t x)" "4 * n" "fold (sm4_step L2) ?t x"]
    by (simp add: foldM_append table_facts(2) add.commute)
qed simp

lemma exchange_keys_eq:
  assumes "length rk = 32"
  shows "exchange_keys rk = Some (rev rk)"
proof -
  let ?P = "\<lambda>r ys. length ys = 32 \<and> (\<forall>i < 32. ys ! i = (if i < r \<or> 31 - i < r then rk ! (31 - i) else rk ! i))"
  have "\<exists>ys. exchange_keys rk = Some ys \<and> ?P 16 ys"
    unfolding exchange_keys_def using assms by (intro for_upto_rule) (auto simp: nth_list_update)
  then obtain ys where ys: "exchange_keys rk = Some ys" "?P 16 ys" by blast
  then have "ys = rev rk" using assms by (intro nth_equalityI) (auto simp: rev_nth)
  then show ?thesis using ys(1) by simp
qed

lemma length_next: "length (fold (sm4_next L) ks xs) = length xs + length ks"
  by (induction ks arbitrary: xs) (simp_all add: sm4_next_def Let_def)

lemma length_round_keys [simp]: "length (sm4_round_keys key) = 32"
  by (simp add: sm4_round_keys_def length_next sm4_FK_def)

lemma SMS4KeyExt_eq:
  assumes "16 \<le> length key"
  shows "SMS4KeyExt key (replicate 32 0) flag =
    Some (if flag = DECRYPT then rev (sm4_round_keys key) else sm4_round_keys key)"
proof -
  have idx: "[0, 4, 8, 12, 16, 20, 24, 28] = map ((*) 4) [0..<8]" by (simp add: upt_rec)
  let ?x = "map2 (XOR) (sm4_words key) sm4_FK"
  have x: "length ?x = 4" by (simp add: sm4_FK_def)
  obtain a b c d where w: "sm4_words key = [a, b, c, d]" using length_sm4_words by (rule length_4E)
  have "drop 4 (fold (sm4_next L2) (take 32 CK) ?x) = sm4_round_keys key"
    using table_facts by (simp add: sm4_round_keys_def)
  then have "foldM key_rounds (map ((*) 4) [0..<8]) (replicate 32 0, ?x) =
      Some (sm4_round_keys key, fold (sm4_step L2) (take 32 CK) ?x)"
    using key_loop_eq [of 8 "replicate 32 0" ?x] x by simp
  moreover have "do { x \<leftarrow> load_words key; x \<leftarrow> xor_at 0 0xA3B1BAC6 x; x \<leftarrow> xor_at 1 0x56AA3350 x;
      x \<leftarrow> xor_at 2 0x677D9197 x; xor_at 3 0xB27022DC x } = Some ?x"
    using assms by (simp add: load_words_eq w xor_at_def sm4_FK_def)
  ultimately show ?thesis
    by (auto simp: SMS4KeyExt_def idx exchange_keys_eq bind_eq_Some_conv simp del: foldM.simps split: bind_splits)
qed

section \<open>Decryption\<close>

interpretation sm4_rounds: reversible_rounds "sm4_step L1" rev "\<lambda>_. True" "\<lambda>x. length x = 4"
proof
  fix k :: u32 and x :: "u32 list"
  assume "length x = 4"
  then obtain a b c d where "x = [a, b, c, d]" by (rule length_4E)
  then show "sm4_step L1 k (rev (sm4_step L1 k x)) = rev x"
    by (simp add: sm4_step_list ac_simps)
qed (simp_all add: sm4_step_def)

lemma words_bytes: "length ws = 4 \<Longrightarrow> sm4_words (concat (map (bytes32 True) ws)) = ws"
proof (elim length_4E)
  fix a b c d :: u32
  have at: "word_at True (bytes32 True w @ xs) = w" for w :: u32 and xs
    using word_at_bytes32 [of True w] word_at_take [of 4 True "bytes32 True w @ xs"] by simp
  have "word_at True (bytes32 True w) = w" for w by (rule word_at_bytes32)
  moreover assume "ws = [a, b, c, d]"
  ultimately show ?thesis by (simp add: sm4_words_def upt_rec at)
qed

lemma bytes_word: "length xs = 4 \<Longrightarrow> bytes32 True (word_at True xs) = xs"
proof (elim length_4E)
  fix a b c d :: u8
  let ?w = "push_bit 24 (ucast a) OR push_bit 16 (ucast b) OR push_bit 8 (ucast c) OR ucast d :: u32"
  have "(ucast (drop_bit 24 ?w) :: u8) = a" "(ucast (drop_bit 16 ?w) :: u8) = b" "(ucast (drop_bit 8 ?w) :: u8) = c"
    "(ucast ?w :: u8) = d"
    by (rule bit_word_eqI; auto simp: bit_simps dest: bit_u8)+
  moreover assume "xs = [a, b, c, d]"
  ultimately show ?thesis by (simp add: bytes32_def word_at_def word_of_bytes_def upt_rec)
qed

lemma bytes_words: "length b = 16 \<Longrightarrow> concat (map (bytes32 True) (sm4_words b)) = b"
proof -
  assume b: "length b = 16"
  have at: "bytes32 True (word_at True (drop k b)) = take 4 (drop k b)" if "k \<le> 12" for k
    using bytes_word [of "take 4 (drop k b)"] word_at_take [of 4 True "drop k b"] b that by simp
  have "concat (map (bytes32 True) (sm4_words b)) =
      take 4 b @ take 4 (drop 4 b) @ take 4 (drop 8 b) @ take 4 (drop 12 b)"
    using at [of 0] by (simp add: sm4_words_def upt_rec at)
  also have "\<dots> = b"
    using b append_take_drop_id [of 4 b] append_take_drop_id [of 4 "drop 4 b"] append_take_drop_id [of 4 "drop 8 b"] by simp
  finally show ?thesis .
qed

lemma length_sm4_crypt [simp]: "length rk = 32 \<Longrightarrow> length (sm4_crypt rk b) = 16"
proof -
  assume rk: "length rk = 32"
  obtain x0 x1 x2 x3 where "fold (sm4_step L1) rk (sm4_words b) = [x0, x1, x2, x3]"
    using length_steps [OF length_sm4_words] by (rule length_4E)
  then show ?thesis using rk by (simp add: sm4_crypt_steps)
qed

lemma sm4_crypt_inverse:
  assumes "length rk = 32" "length b = 16"
  shows "sm4_crypt (rev rk) (sm4_crypt rk b) = b"
  using assms sm4_rounds.cipher_inverse [of rk "sm4_words b"]
  by (simp add: sm4_crypt_steps words_bytes length_steps bytes_words)

section \<open>Messages\<close>

lemma cells_short: "length b < 16 \<Longrightarrow> cells f b = replicate (length b) 0"
  by (simp add: cells_def chunks_short)

lemma cells_block: "16 \<le> length b \<Longrightarrow> cells f b = f (take 16 b) @ cells f (drop 16 b)"
  by (simp add: cells_def chunks_Cons le_mod_geq)

lemma cells_16: "length b = 16 \<Longrightarrow> cells f b = f b"
  by (simp add: cells_block cells_short)

lemma sms4_loop_eq:
  assumes rk: "length rk = 32"
  shows "length buf = 16 \<Longrightarrow> length c = length a \<Longrightarrow>
    sms4_loop rk (a @ b) (int (length b)) (length a) buf (c @ replicate (length b) 0) = Some (c @ cells (sm4_crypt rk) b)"
proof (induction "length b" arbitrary: a b c buf rule: less_induct)
  case less
  show ?case
  proof (cases "16 \<le> length b")
    case False
    then show ?thesis by (simp add: sms4_loop.simps BLOCK_def cells_short)
  next
    case True
    let ?o = "sm4_crypt rk (take 16 b)"
    have "length (drop 16 b) < length b" using True by simp
    then have IH: "sms4_loop rk ((a @ take 16 b) @ drop 16 b) (int (length (drop 16 b))) (length (a @ take 16 b)) ?o
        ((c @ ?o) @ replicate (length (drop 16 b)) 0) = Some ((c @ ?o) @ cells (sm4_crypt rk) (drop 16 b))"
      using less.hyps [of "drop 16 b" ?o "c @ ?o" "a @ take 16 b"] less.prems True rk by simp
    have "int (length b) - BLOCK = int (length (drop 16 b))" "length a + nat BLOCK = length (a @ take 16 b)"
      using True by (simp_all add: BLOCK_def)
    moreover have "copyOfRange (a @ b) (length a) (length a + 16) = Some (take 16 b)"
      using True by (simp add: copyOfRange_def)
    moreover have "memcpy (c @ replicate (length b) 0) (length a) ?o 0 (nat BLOCK) =
        Some ((c @ ?o) @ replicate (length (drop 16 b)) 0)"
      using True less.prems rk by (simp add: BLOCK_def)
    ultimately show ?thesis
      using IH True less.prems rk
      by (subst sms4_loop.simps) (simp add: SMS4Crypt_eq cells_block BLOCK_def)
  qed
qed

lemma length_sm4_keys [simp]: "length (sm4_keys key flag) = 32"
  by (simp add: sm4_keys_def)

lemma sms4_eq:
  assumes "16 \<le> length key"
  shows "sms4 b (int (length b)) key (replicate (length b) 0) flag = Some (cells (sm4_crypt (sm4_keys key flag)) b)"
  using SMS4KeyExt_eq [OF assms, of flag] sms4_loop_eq [of "sm4_keys key flag" "replicate 16 0" "[]" "[]" b]
  by (simp add: sms4_def ROUND_def flip: sm4_keys_def)

lemma crypt16_eq:
  assumes "16 \<le> length key" "length b = 16"
  shows "encode16 b key = Some (sm4_crypt (sm4_round_keys key) b)"
    and "decode16 b key = Some (sm4_crypt (rev (sm4_round_keys key)) b)"
  using sms4_eq [OF assms(1), of b ENCRYPT] sms4_eq [OF assms(1), of b DECRYPT] assms(2)
  by (simp_all add: encode16_def decode16_def cells_16 sm4_keys_def ENCRYPT_def DECRYPT_def)

lemma java_int_id: "- (2 ^ 31) \<le> x \<Longrightarrow> x < 2 ^ 31 \<Longrightarrow> java_int x = x"
  by (simp add: java_int_def)

lemma cells_loop_eq:
  assumes f: "\<And>c. length c = 16 \<Longrightarrow> f c = Some (g c) \<and> length (g c) = 16"
  shows "length c = length a \<Longrightarrow> length (a @ b) < 2 ^ 31 - 16 \<Longrightarrow>
    cells_loop f (a @ b) (c @ replicate (length b) 0) (int (length a)) = Some (c @ cells g b)"
proof (induction "length b" arbitrary: a b c rule: less_induct)
  case less
  have k: "java_int (int (length a) + 16) = int (length a) + 16" using less.prems by (simp add: java_int_id)
  show ?case
  proof (cases "16 \<le> length b")
    case False
    then show ?thesis using k by (subst cells_loop.simps) (simp add: cells_short)
  next
    case True
    let ?o = "g (take 16 b)"
    have o: "f (take 16 b) = Some ?o" "length ?o = 16" using f [of "take 16 b"] True by simp_all
    have "length (drop 16 b) < length b" using True by simp
    then have IH: "cells_loop f (a @ b) (c @ ?o @ replicate (length b - 16) 0) (int (length a) + 16) =
        Some (c @ ?o @ cells g (drop 16 b))"
      using less.hyps [of "drop 16 b" "c @ ?o" "a @ take 16 b"] less.prems True o by (simp add: min_def)
    have m: "memcpy (replicate 16 0) 0 (a @ b) (length a) 16 = Some (take 16 b)"
      "memcpy (c @ replicate (length b) 0) (length a) ?o 0 16 = Some (c @ ?o @ replicate (length b - 16) 0)"
      using True less.prems o by simp_all
    show ?thesis
      using True by (subst cells_loop.simps) (simp add: k m o IH cells_block del: memcpy_ok)
  qed
qed

text \<open>On the longest arrays the position wraps around before the loop ends.\<close>

lemma cells_loop_long:
  assumes f: "\<And>c. length c = 16 \<Longrightarrow> \<exists>r. f c = Some r \<and> length r = 16"
    and len: "2 ^ 31 - 16 \<le> length text" "length text < 2 ^ 31"
  shows "16 * n + k = 2 ^ 31 - 16 \<Longrightarrow> length res = length text \<Longrightarrow> cells_loop f text res (int k) = None"
proof (induction n arbitrary: k res)
  case 0
  then have k: "int k = 2 ^ 31 - 16" by simp
  have "memcpy (replicate 16 0) 0 text 2147483632 16 = None" using len(2) by (simp add: memcpy_def)
  then show ?case
    by (subst cells_loop.simps) (simp add: k java_int_def)
next
  case (Suc n)
  then have k: "k + 16 \<le> 2 ^ 31 - 16" by simp
  then have j: "java_int (int k + 16) = int (k + 16)" "int (k + 16) \<le> int (length text)"
    using len by (simp_all add: java_int_id)
  obtain c where c: "memcpy (replicate 16 0) 0 text k 16 = Some c" "length c = 16"
    using k len by (simp add: memcpy_def)
  obtain r where r: "f c = Some r" "length r = 16" using f c(2) by blast
  obtain res' where m: "memcpy res k r 0 16 = Some res'" using Suc.prems(2) k len r by (simp add: memcpy_def)
  then have "length res' = length text" using Suc.prems(2) by (simp add: memcpy_length)
  then have "cells_loop f text res' (int (k + 16)) = None" using Suc.IH [of "k + 16" res'] Suc.prems(1) by simp
  then show ?case using j c r m by (subst cells_loop.simps) simp
qed

lemma length_cells:
  assumes "\<And>b. length b = 16 \<Longrightarrow> length (f b) = 16"
  shows "length (cells f p) = length p"
proof (induction "length p" arbitrary: p rule: less_induct)
  case less
  then show ?case using assms by (cases "16 \<le> length p") (simp_all add: cells_block cells_short)
qed

lemma cells_inverse:
  assumes "\<And>b. length b = 16 \<Longrightarrow> length (f b) = 16 \<and> g (f b) = b"
  shows "cells g (cells f p) = take (16 * (length p div 16)) p @ replicate (length p mod 16) 0"
proof (induction "length p" arbitrary: p rule: less_induct)
  case less
  show ?case
  proof (cases "16 \<le> length p")
    case True
    let ?q = "drop 16 p"
    have "cells g (cells f p) = take 16 p @ cells g (cells f ?q)"
      using True assms [of "take 16 p"] by (simp add: cells_block [of p] cells_block [of "f (take 16 p) @ cells f ?q"])
    moreover have "length p div 16 = Suc (length ?q div 16)" "length p mod 16 = length ?q mod 16"
      using True by (simp_all add: le_div_geq le_mod_geq)
    moreover have "take 16 p @ take n ?q = take (16 + n) p" for n by (simp add: take_add)
    ultimately show ?thesis using less [of ?q] True by (simp add: append_assoc [symmetric] del: append_assoc)
  qed (simp add: cells_short)
qed

lemma messages_eq:
  assumes "16 \<le> length key" "length p < 2 ^ 31 - 16"
  shows "encodeSMS4 p key = Some (cells (sm4_crypt (sm4_round_keys key)) p)"
    and "decodeSMS4 p key = Some (cells (sm4_crypt (rev (sm4_round_keys key))) p)"
  using cells_loop_eq [of "\<lambda>c. encode16 c key" "sm4_crypt (sm4_round_keys key)" "[]" "[]" p]
    cells_loop_eq [of "\<lambda>c. decode16 c key" "sm4_crypt (rev (sm4_round_keys key))" "[]" "[]" p]
    crypt16_eq [OF assms(1)] assms
  by (simp_all add: encodeSMS4_def decodeSMS4_def)

section \<open>Properties\<close>

text \<open>
  C19. Decrypting an encrypted message gives back its full blocks of 16 bytes, for every key of at least 16 bytes; the
  bytes after the last full block come back as zeros, so a message is recovered exactly when its length is a multiple
  of 16 or it ends in such zeros.  On arrays of at least \<open>2^31 - 16\<close> bytes both directions fail: the position wraps
  around before the loop ends.
\<close>

theorem sm4_message_roundtrip:
  assumes "16 \<le> length key" and "length p < 2 ^ 31"
  shows "(length p < 2 ^ 31 - 16 \<longrightarrow> (\<exists>c. encodeSMS4 p key = Some c \<and> length c = length p \<and>
      decodeSMS4 c key = Some (take (16 * (length p div 16)) p @ replicate (length p mod 16) 0))) \<and>
    (2 ^ 31 - 16 \<le> length p \<longrightarrow> encodeSMS4 p key = None \<and> decodeSMS4 p key = None)"
proof -
  let ?c = "cells (sm4_crypt (sm4_round_keys key)) p"
  have l: "length ?c = length p" by (rule length_cells) simp
  have "cells (sm4_crypt (rev (sm4_round_keys key))) ?c =
      take (16 * (length p div 16)) p @ replicate (length p mod 16) 0"
    by (rule cells_inverse) (simp add: sm4_crypt_inverse)
  moreover have "encodeSMS4 p key = None" "decodeSMS4 p key = None" if long: "2 ^ 31 - 16 \<le> length p"
    using cells_loop_long [of "\<lambda>c. encode16 c key" p 134217727 0 "replicate (length p) 0"]
      cells_loop_long [of "\<lambda>c. decode16 c key" p 134217727 0 "replicate (length p) 0"]
      crypt16_eq [OF assms(1)] assms(2) long
    by (simp_all add: encodeSMS4_def decodeSMS4_def)
  ultimately show ?thesis
    using messages_eq [OF assms(1), of p] messages_eq [OF assms(1), of ?c] l by simp
qed

theorem sm4_message_roundtrip_witness:
  "\<exists>c. encodeSMS4 (replicate 20 7) (replicate 16 1) = Some c \<and>
    decodeSMS4 c (replicate 16 1) = Some (replicate 16 7 @ replicate 4 0)"
  using sm4_message_roundtrip [of "replicate 16 1" "replicate 20 7"] by auto



end
