(* ===== verification/Heap_Sort.thy ===== *)
theory Heap_Sort
  imports Prelude "HOL-Library.Multiset"
begin

text \<open>
  Model of \<open>other/testCode/Sort\<close>: the two heap sorts of \<open>heapsort.cpp\<close> and the tree printer of
  \<open>sortpublic.cpp\<close> they call.  The recursive one computes with \<open>unsigned int\<close> node numbers and is
  written with the operator precedence of the source, \<open>(nodei+1) << 1 - 1\<close> being a shift by zero;
  the iterative one counts in \<open>int\<close>, where \<open>2*i+1\<close> overflows beyond node \<open>2^30 - 1\<close>.
\<close>

section \<open>The code\<close>

text \<open>
  \<open>Printfbtree\<close>: the line for \<open>level = k + 1\<close> prints the \<open>level\<close> entries from index \<open>i\<close> on, whatever
  \<open>length\<close> is.  The result lists the printed lines.
\<close>

function Printfbtree_lines :: "int list \<Rightarrow> nat \<Rightarrow> nat \<Rightarrow> nat \<Rightarrow> int list list option" where
  "Printfbtree_lines a len i k =
     (if i < len then do {
        line \<leftarrow> foldM (\<lambda>j out. do { v \<leftarrow> arr_get a j; Some (out @ [v]) }) [i..<i + (k + 1)] [];
        rest \<leftarrow> Printfbtree_lines a len (i + (k + 1)) (k + 1);
        Some (line # rest) }
      else Some [])"
  by pat_completeness auto
termination
  by (relation "measure (\<lambda>(a, len, i, k). len - i)") auto

definition Printfbtree :: "int list \<Rightarrow> nat \<Rightarrow> int list list option" where
  "Printfbtree a len = Printfbtree_lines a len 0 0"

record Heap =
  arr :: "int list"
  heapMaxIndex :: int
  arrLength :: int

text \<open>The global \<open>arraysize\<close> is a parameter.\<close>

partial_function (option) maxHeapify :: "nat \<Rightarrow> Heap \<Rightarrow> u32 \<Rightarrow> Heap option" where
  "maxHeapify arraysize hp nodei = do {
     let l = push_bit (1 - 1) (nodei + 1);
     let r = push_bit 1 (nodei + 1);
     let heapMaxI = (of_int (heapMaxIndex hp) :: u32);
     printed \<leftarrow> Printfbtree (arr hp) arraysize;
     largest \<leftarrow> (if l \<le> heapMaxI then do {
         x \<leftarrow> arr_get (arr hp) (unat l);
         y \<leftarrow> arr_get (arr hp) (unat nodei);
         Some (if x > y then l else nodei) }
       else Some nodei);
     largest \<leftarrow> (if r \<le> heapMaxI then do {
         x \<leftarrow> arr_get (arr hp) (unat r);
         y \<leftarrow> arr_get (arr hp) (unat largest);
         Some (if x > y then r else largest) }
       else Some largest);
     if largest \<noteq> nodei then do {
       tmp \<leftarrow> arr_get (arr hp) (unat largest);
       v \<leftarrow> arr_get (arr hp) (unat nodei);
       a \<leftarrow> arr_set (arr hp) (unat largest) v;
       a \<leftarrow> arr_set a (unat nodei) tmp;
       maxHeapify arraysize (hp\<lparr>arr := a\<rparr>) largest }
     else Some hp }"

declare maxHeapify.simps [code]

text \<open>The loop starts at \<open>arrLength>>1-1\<close>, a shift by zero.\<close>

definition createHeap :: "nat \<Rightarrow> int list \<Rightarrow> int \<Rightarrow> Heap \<Rightarrow> Heap option" where
  "createHeap arraysize arrp arrlen heap =
     foldM (\<lambda>i hp. maxHeapify arraysize hp (of_nat i)) (rev [0..<nat (drop_bit (1 - 1) arrlen + 1)])
       (heap\<lparr>arr := arrp, heapMaxIndex := arrlen - 1, arrLength := arrlen\<rparr>)"

partial_function (option) heapSort :: "nat \<Rightarrow> Heap \<Rightarrow> Heap option" where
  "heapSort arraysize hp =
     (if heapMaxIndex hp > 0 then do {
        let last = nat (heapMaxIndex hp);
        tmp \<leftarrow> arr_get (arr hp) last;
        v \<leftarrow> arr_get (arr hp) 0;
        a \<leftarrow> arr_set (arr hp) last v;
        a \<leftarrow> arr_set a 0 tmp;
        hp \<leftarrow> maxHeapify arraysize (hp\<lparr>arr := a, heapMaxIndex := heapMaxIndex hp - 1\<rparr>) 0;
        heapSort arraysize hp }
      else Some hp)"

declare heapSort.simps [code]

function HeapAjust_loop :: "int \<Rightarrow> int \<Rightarrow> int list \<Rightarrow> int \<Rightarrow> int list option" where
  "HeapAjust_loop nTemp len data i = do {
     i2 \<leftarrow> int32 (2 * i);
     l \<leftarrow> int32 (i2 + 1);
     if l < len then do {
       m \<leftarrow> int32 (len - 1);
       nChild \<leftarrow> (if l < m then do {
           x \<leftarrow> arr_get_int data (l + 1);
           y \<leftarrow> arr_get_int data l;
           Some (if x > y then l + 1 else l) }
         else Some l);
       c \<leftarrow> arr_get_int data nChild;
       if nTemp < c then do {
         data \<leftarrow> arr_set_int data i c;
         data \<leftarrow> arr_set_int data nChild nTemp;
         HeapAjust_loop nTemp len data nChild }
       else Some data }
     else Some data }"
  by pat_completeness auto
termination
  by (relation "measure (\<lambda>(t, len, data, i). nat (len - i))")
    (auto simp: int32_def arr_get_int_def split: if_splits Option.bind_splits)

definition HeapAjust :: "int list \<Rightarrow> int \<Rightarrow> int \<Rightarrow> int list option" where
  "HeapAjust data i len = do { nTemp \<leftarrow> arr_get_int data i; HeapAjust_loop nTemp len data i }"

definition HeapSort2 :: "int list \<Rightarrow> int \<Rightarrow> int list option" where
  "HeapSort2 data len = do {
     data \<leftarrow> foldM (\<lambda>i data. HeapAjust data i len) (rev [0..drop_bit 1 len - 1]) data;
     last \<leftarrow> int32 (len - 1);
     foldM (\<lambda>j data. do {
       temp \<leftarrow> arr_get_int data j;
       v \<leftarrow> arr_get_int data 0;
       data \<leftarrow> arr_set_int data j v;
       data \<leftarrow> arr_set_int data 0 temp;
       HeapAjust data 0 j }) (rev [1..last]) data }"

section \<open>Heap and order predicates\<close>

text \<open>Descending lists.\<close>

abbreviation desc :: "int list \<Rightarrow> bool" where
  "desc xs \<equiv> sorted_wrt (\<ge>) xs"

abbreviation insert_desc :: "int \<Rightarrow> int list \<Rightarrow> int list" where
  "insert_desc \<equiv> insort_key uminus"

text \<open>Node \<open>j\<close> dominates its children among the first \<open>n\<close> entries; all nodes from \<open>k\<close> on but those in \<open>X\<close> do.\<close>

definition dominates :: "int list \<Rightarrow> nat \<Rightarrow> nat \<Rightarrow> bool" where
  "dominates a n j \<longleftrightarrow> (2 * j + 1 < n \<longrightarrow> a ! (2 * j + 1) \<le> a ! j) \<and> (2 * j + 2 < n \<longrightarrow> a ! (2 * j + 2) \<le> a ! j)"

definition heap_from :: "nat \<Rightarrow> nat \<Rightarrow> int list \<Rightarrow> bool" where
  "heap_from k n a \<longleftrightarrow> (\<forall>j \<ge> k. dominates a n j)"

text \<open>The loop invariant of \<open>HeapAjust\<close>: only node \<open>i\<close> may fail, and its parent dominates its children.\<close>

definition heap_except :: "nat \<Rightarrow> nat \<Rightarrow> nat \<Rightarrow> int list \<Rightarrow> bool" where
  "heap_except i k n a \<longleftrightarrow> k \<le> i \<and> (\<forall>j \<ge> k. j \<noteq> i \<longrightarrow> dominates a n j) \<and>
     (\<forall>p \<ge> k. (i = 2 * p + 1 \<or> i = 2 * p + 2) \<longrightarrow>
        (2 * i + 1 < n \<longrightarrow> a ! (2 * i + 1) \<le> a ! p) \<and> (2 * i + 2 < n \<longrightarrow> a ! (2 * i + 2) \<le> a ! p))"

section \<open>The recursive heap sort\<close>

declare Printfbtree_lines.simps [simp del] HeapAjust_loop.simps [simp del]

lemma Printfbtree_0 [simp]: "Printfbtree a 0 = Some []"
  by (simp add: Printfbtree_def Printfbtree_lines.simps)

lemma desc_insert: "desc ys \<Longrightarrow> desc (insert_desc x ys)"
  by (induction ys) (auto simp: set_insort_key)

lemma desc_unique: "desc xs \<Longrightarrow> desc ys \<Longrightarrow> mset xs = mset ys \<Longrightarrow> xs = ys"
  by (metis mset_rev properties_for_sort rev_rev_ident sorted_wrt_rev)

lemma desc_rev_sort: "desc (rev (sort xs))"
  using sorted_sort [of xs] by (simp add: sorted_wrt_rev)

text \<open>One call of \<open>maxHeapify\<close> in terms of natural numbers.\<close>

lemma maxHeapify_nat:
  fixes hp :: Heap
  defines "a \<equiv> arr hp"
  assumes "heapMaxIndex hp = int m" and "m < length a" and "i \<le> length a" and "length a + 1 < 2 ^ 31"
  defines "c1 \<equiv> (if i + 1 \<le> m \<and> a ! (i + 1) > a ! i then i + 1 else i)"
  defines "c2 \<equiv> (if 2 * i + 2 \<le> m \<and> a ! (2 * i + 2) > a ! c1 then 2 * i + 2 else c1)"
  shows "maxHeapify 0 hp (of_nat i) =
    (if c2 \<noteq> i then maxHeapify 0 (hp\<lparr>arr := a[c2 := a ! i, i := a ! c2]\<rparr>) (of_nat c2) else Some hp)"
proof -
  have l: "push_bit (1 - 1) (of_nat i + 1) = (of_nat (i + 1) :: u32)" by (simp add: add.commute)
  have r: "push_bit 1 (of_nat i + 1) = (of_nat (2 * i + 2) :: u32)" by (simp add: push_bit_eq_mult algebra_simps)
  have u: "unat (of_nat k :: u32) = k" if "k < 2 ^ 32" for k
    using that by (simp add: unat_of_nat)
  have le: "(of_nat k :: u32) \<le> of_int (heapMaxIndex hp) \<longleftrightarrow> k \<le> m" if "k < 2 ^ 32" for k
    using that assms(3,5) by (simp add: assms(2) word_le_nat_alt u)
  have eq: "(of_nat k :: u32) = of_nat j \<longleftrightarrow> k = j" if "k < 2 ^ 32" "j < 2 ^ 32" for k j
    using u [OF that(1)] u [OF that(2)] by metis
  have sel: "(if (of_nat k :: u32) \<le> of_int (heapMaxIndex hp) then do {
         x \<leftarrow> arr_get a (unat (of_nat k :: u32));
         y \<leftarrow> arr_get a (unat (of_nat j :: u32));
         Some (if x > y then of_nat k else of_nat j) }
       else Some (of_nat j)) = Some (of_nat (if k \<le> m \<and> a ! k > a ! j then k else j) :: u32)"
    if "k < 2 ^ 32" "j < 2 ^ 32" "k \<le> m \<Longrightarrow> j \<le> m" for k j
    using that assms(3) le [OF that(1)] u [OF that(1)] u [OF that(2)] by (cases "k \<le> m") auto
  have c: "c1 \<le> i + 1" "c2 \<le> 2 * i + 2" "c2 \<noteq> i \<Longrightarrow> c2 \<le> m \<and> i < m"
    by (auto simp: c1_def c2_def)
  note 1 = sel [of "i + 1" i, folded c1_def] and 2 = sel [of "2 * i + 2" c1, folded c2_def]
  have b: "c2 < 2 ^ 32" "i < 2 ^ 32" "c1 < 2 ^ 32" "i + 1 < 2 ^ 32" "2 * i + 2 < 2 ^ 32"
    using c assms(3-5) by auto
  have "maxHeapify 0 hp (of_nat i) = (if (of_nat c2 :: u32) \<noteq> of_nat i then do {
       tmp \<leftarrow> arr_get a (unat (of_nat c2 :: u32));
       v \<leftarrow> arr_get a (unat (of_nat i :: u32));
       a \<leftarrow> arr_set a (unat (of_nat c2 :: u32)) v;
       a \<leftarrow> arr_set a (unat (of_nat i :: u32)) tmp;
       maxHeapify 0 (hp\<lparr>arr := a\<rparr>) (of_nat c2) }
     else Some hp)"
    using 1 [OF b(4,2)] 2 [OF b(5,3)]
    by (subst maxHeapify.simps) (simp only: Let_def l r Printfbtree_0 Option.bind.simps flip: a_def, simp add: c1_def)
  moreover have "c2 \<noteq> i \<Longrightarrow> c2 < length a" "c2 \<noteq> i \<Longrightarrow> i < length a" using c(3) assms(3) by auto
  ultimately show ?thesis using b by (auto simp: eq u)
qed

lemma maxHeapify_sinks:
  assumes "arr hp = p @ x # ys @ q" and "desc ys" and "heapMaxIndex hp = int (length p + length ys)"
    and "length (arr hp) + 1 < 2 ^ 31"
  shows "maxHeapify 0 hp (of_nat (length p)) = Some (hp\<lparr>arr := p @ insert_desc x ys @ q\<rparr>)"
  using assms
proof (induction ys arbitrary: p x hp)
  case Nil
  then show ?case
    by (subst maxHeapify_nat) auto
next
  case (Cons y ys)
  let ?i = "length p" and ?m = "length p + length (y # ys)"
  have nth: "arr hp ! ?i = x" "arr hp ! (?i + 1) = y" using Cons.prems(1) by (simp_all add: nth_append)
  have r: "arr hp ! (2 * ?i + 2) \<le> y" if "2 * ?i + 2 \<le> ?m"
  proof -
    have "arr hp ! (2 * ?i + 2) = ys ! ?i" using that Cons.prems(1) by (simp add: nth_append)
    then show ?thesis using that Cons.prems(2) by simp
  qed
  have m: "?m < length (arr hp)" "?i \<le> length (arr hp)" "?i + 1 \<le> ?m" using Cons.prems(1) by simp_all
  note step = maxHeapify_nat [OF Cons.prems(3) m(1,2) Cons.prems(4), unfolded nth]
  show ?case
  proof (cases "y > x")
    case True
    then have "\<not> (2 * ?i + 2 \<le> ?m \<and> arr hp ! (2 * ?i + 2) > arr hp ! (?i + 1))" using r nth by auto
    moreover have "(arr hp)[?i + 1 := x, ?i := y] = (p @ [y]) @ x # ys @ q"
      using Cons.prems(1) by (simp add: list_update_append)
    ultimately have "maxHeapify 0 hp (of_nat ?i) = maxHeapify 0 (hp\<lparr>arr := (p @ [y]) @ x # ys @ q\<rparr>) (of_nat (length (p @ [y])))"
      using True m(3) nth unfolding step by (auto simp del: append_assoc)
    also have "\<dots> = Some (hp\<lparr>arr := p @ insert_desc x (y # ys) @ q\<rparr>)"
      using Cons.IH [of "hp\<lparr>arr := (p @ [y]) @ x # ys @ q\<rparr>" "p @ [y]" x] Cons.prems True by simp
    finally show ?thesis .
  next
    case False
    then have "\<not> (2 * ?i + 2 \<le> ?m \<and> arr hp ! (2 * ?i + 2) > x)" using r by auto
    moreover have "hp = hp\<lparr>arr := p @ insert_desc x (y # ys) @ q\<rparr>"
      using False Cons.prems(1) by simp
    ultimately show ?thesis using False nth unfolding step by auto
  qed
qed

text \<open>
  With the left child of \<open>i\<close> at \<open>i + 1\<close>, building the heap is an insertion sort into descending order, and
  the sorting phase still works: the new root sinks to the end of the descending prefix.
\<close>

lemma createHeap_descending:
  assumes "0 < length xs" and "length xs + 1 < 2 ^ 31"
  shows "createHeap 0 xs (int (length xs)) h =
    Some (h\<lparr>arr := rev (sort xs), heapMaxIndex := int (length xs) - 1, arrLength := int (length xs)\<rparr>)"
proof -
  let ?n = "length xs"
  let ?h = "\<lambda>a. h\<lparr>arr := a, heapMaxIndex := int ?n - 1, arrLength := int ?n\<rparr>"
  let ?f = "\<lambda>i hp. maxHeapify 0 hp (of_nat i)"
  have n: "?f ?n (?h xs) = Some (?h xs)"
    using assms by (subst maxHeapify_nat [where m = "?n - 1"]) (auto simp: of_nat_diff Suc_leI)
  have "\<exists>a. foldM ?f (rev [i..<?n]) (?h xs) = Some (?h (take i xs @ a)) \<and> desc a \<and> mset a = mset (drop i xs)"
    if "i \<le> ?n" for i
    using that
  proof (induction rule: inc_induct)
    case (step i)
    then obtain a where a: "foldM ?f (rev [Suc i..<?n]) (?h xs) = Some (?h (take (Suc i) xs @ a))"
      "desc a" "mset a = mset (drop (Suc i) xs)" by auto
    have l: "length a = ?n - Suc i" using arg_cong [OF a(3), of size] by simp
    have "?f i (?h (take (Suc i) xs @ a)) = Some (?h (take i xs @ insert_desc (xs ! i) a))"
      using maxHeapify_sinks [of "?h (take (Suc i) xs @ a)" "take i xs" "xs ! i" a "[]"] a(2) step.hyps assms l
      by (simp add: take_Suc_conv_app_nth)
    moreover have "rev [i..<?n] = rev [Suc i..<?n] @ [i]" using step.hyps by (simp add: upt_conv_Cons)
    moreover have "mset (drop i xs) = add_mset (xs ! i) (mset (drop (Suc i) xs))"
      using step.hyps by (simp flip: Cons_nth_drop_Suc)
    ultimately show ?case using a desc_insert [OF a(2)]
      by (intro exI [of _ "insert_desc (xs ! i) a"]) (simp add: foldM_append)
  qed simp
  from this [of 0] obtain a where a: "foldM ?f (rev [0..<?n]) (?h xs) = Some (?h a)" "desc a" "mset a = mset xs"
    by auto
  then have "a = rev (sort xs)" by (intro desc_unique desc_rev_sort) simp_all
  moreover have "rev [0..<nat (drop_bit (1 - 1) (int ?n) + 1)] = ?n # rev [0..<?n]"
    by (simp add: nat_add_distrib)
  ultimately show ?thesis using a n by (simp add: createHeap_def)
qed

lemma heapSort_phase:
  assumes "sorted s" and "k < length s" and "length s + 1 < 2 ^ 31"
    and "arr hp = rev (take (Suc k) s) @ drop (Suc k) s" and "heapMaxIndex hp = int k"
  shows "heapSort 0 hp = Some (hp\<lparr>arr := s, heapMaxIndex := 0\<rparr>)"
  using assms(2,4,5)
proof (induction k arbitrary: hp)
  case 0
  then have "arr hp = s" by (cases s) auto
  with 0 show ?case by (subst heapSort.simps) simp
next
  case (Suc k)
  let ?mid = "rev (take k (tl s))" and ?hi = "s ! Suc k" and ?q = "drop (Suc (Suc k)) s"
  obtain x t where s: "s = x # t" using Suc.prems(1) by (cases s) auto
  have a: "arr hp = ?hi # ?mid @ x # ?q"
    using Suc.prems by (simp add: s take_Suc_conv_app_nth)
  have swap: "(arr hp)[Suc k := ?hi, 0 := x] = x # ?mid @ ?hi # ?q"
    using Suc.prems(1) by (simp add: a s list_update_append)
  have lookups: "arr hp ! Suc k = x" "arr hp ! 0 = ?hi" "nat (heapMaxIndex hp) = Suc k" "Suc k < length (arr hp)" "0 < length (arr hp)"
    using Suc.prems(1,3) unfolding a by (simp_all add: s nth_append)
  let ?hp = "hp\<lparr>arr := x # ?mid @ ?hi # ?q, heapMaxIndex := int k\<rparr>"
  have "desc ?mid" using assms(1) by (simp add: s sorted_wrt_rev sorted_wrt_take)
  then have sink: "maxHeapify 0 ?hp 0 = Some (hp\<lparr>arr := insert_desc x ?mid @ ?hi # ?q, heapMaxIndex := int k\<rparr>)"
    using maxHeapify_sinks [of ?hp "[]" x ?mid "?hi # ?q"] Suc.prems(1) assms(3) by (simp add: s)
  have "insert_desc x ?mid = rev (take (Suc k) s)"
    using \<open>desc ?mid\<close> assms(1)
    by (intro desc_unique desc_insert) (auto simp: s sorted_wrt_append sorted_wrt_rev sorted_wrt_take dest: in_set_takeD)
  moreover have "?hi # ?q = drop (Suc k) s" using Suc.prems(1) by (simp add: Cons_nth_drop_Suc)
  ultimately have "heapSort 0 hp = heapSort 0 (hp\<lparr>arr := rev (take (Suc k) s) @ drop (Suc k) s, heapMaxIndex := int k\<rparr>)"
    using lookups swap sink Suc.prems(3) by (subst heapSort.simps) (simp add: Let_def)
  then show ?case using Suc.IH [of "hp\<lparr>arr := rev (take (Suc k) s) @ drop (Suc k) s, heapMaxIndex := int k\<rparr>"] Suc.prems(1)
    by simp
qed

section \<open>The iterative heap sort\<close>

lemma mset_swap_nth: "i < length a \<Longrightarrow> j < length a \<Longrightarrow> mset (a[i := a ! j, j := a ! i]) = mset a"
  by (metis mset_swap)

lemma heap_except_swap:
  assumes "heap_except i k n a" and "n \<le> length a" and "c = 2 * i + 1 \<or> c = 2 * i + 2" and "c < n"
    and "a ! i < a ! c" and "2 * i + 1 < n \<Longrightarrow> a ! (2 * i + 1) \<le> a ! c" and "2 * i + 2 < n \<Longrightarrow> a ! (2 * i + 2) \<le> a ! c"
  shows "heap_except c k n (a[i := a ! c, c := a ! i])"
proof -
  let ?b = "a[i := a ! c, c := a ! i]"
  have l: "i < length a" "c < length a" "i \<noteq> c" using assms by auto
  have nth: "?b ! j = (if j = c then a ! i else if j = i then a ! c else a ! j)" for j
    using l by (auto simp: nth_list_update)
  have dom: "dominates ?b n j" if "k \<le> j" "j \<noteq> c" for j
  proof (cases "j = i")
    case True
    then show ?thesis using assms by (auto simp: dominates_def nth)
  next
    case False
    then have d: "dominates a n j" using assms(1) that by (auto simp: heap_except_def)
    have ne: "2 * j + 1 \<noteq> c" "2 * j + 2 \<noteq> c" using assms(3) False by presburger+
    have up: "a ! c \<le> a ! j" if "i = 2 * j + 1 \<or> i = 2 * j + 2"
      using assms(1,3,4) \<open>k \<le> j\<close> that unfolding heap_except_def by blast
    have "?b ! j = a ! j" "?b ! (2 * j + 1) = (if 2 * j + 1 = i then a ! c else a ! (2 * j + 1))"
      "?b ! (2 * j + 2) = (if 2 * j + 2 = i then a ! c else a ! (2 * j + 2))"
      using False that(2) ne by (simp_all only: nth if_False)
    then show ?thesis using d up unfolding dominates_def by presburger
  qed
  have "i < c" using assms(3) by linarith
  then have "2 * c + 1 \<noteq> c" "2 * c + 1 \<noteq> i" "2 * c + 2 \<noteq> c" "2 * c + 2 \<noteq> i" by linarith+
  then have e: "?b ! (2 * c + 1) = a ! (2 * c + 1)" "?b ! (2 * c + 2) = a ! (2 * c + 2)"
    by (simp_all only: nth if_False)
  have "k \<le> c" "dominates a n c" using assms(1) \<open>i < c\<close> by (auto simp: heap_except_def)
  then have "(2 * c + 1 < n \<longrightarrow> ?b ! (2 * c + 1) \<le> a ! c) \<and> (2 * c + 2 < n \<longrightarrow> ?b ! (2 * c + 2) \<le> a ! c)"
    unfolding e dominates_def by blast
  moreover have "p = i" if "c = 2 * p + 1 \<or> c = 2 * p + 2" for p using that assms(3) by presburger
  moreover have "?b ! i = a ! c" using nth [of i] l by simp
  ultimately show ?thesis
    using dom \<open>k \<le> c\<close> unfolding heap_except_def by metis
qed

lemma int_arr [simp]: "arr_get_int xs (int i) = arr_get xs i" "arr_set_int xs (int i) v = arr_set xs i v"
  by (simp_all add: arr_get_int_def arr_set_int_def)

lemma zero_arr [simp]: "arr_get_int xs 0 = arr_get xs 0" "arr_set_int xs 0 v = arr_set xs 0 v"
  by (simp_all add: arr_get_int_def arr_set_int_def)

lemma child_in_range:
  assumes "i < 2 ^ 30"
  shows "int32 (2 * int i) = Some (2 * int i)" "int32 (2 * int i + 1) = Some (int (2 * i + 1))"
  using assms by (auto simp: int32_def)

lemma HeapAjust_loop_step:
  assumes "2 * i + 1 < n" and "n \<le> length a" and "n \<le> 2 ^ 30"
  obtains c where "c = 2 * i + 1 \<or> c = 2 * i + 2" and "c < n"
    and "a ! (2 * i + 1) \<le> a ! c" and "2 * i + 2 < n \<longrightarrow> a ! (2 * i + 2) \<le> a ! c"
    and "\<forall>t. HeapAjust_loop t (int n) a (int i) =
      (if t < a ! c then HeapAjust_loop t (int n) (a[i := a ! c, c := t]) (int c) else Some a)"
proof
  define c where "c = (if 2 * i + 1 < n - 1 \<and> a ! (2 * i + 1) < a ! (2 * i + 2) then 2 * i + 2 else 2 * i + 1)"
  show "c = 2 * i + 1 \<or> c = 2 * i + 2" by (simp add: c_def)
  show cn: "c < n" using assms by (auto simp: c_def)
  show "a ! (2 * i + 1) \<le> a ! c" "2 * i + 2 < n \<longrightarrow> a ! (2 * i + 2) \<le> a ! c" by (auto simp: c_def)
  have m: "int32 (int n - 1) = Some (int (n - 1))" using assms by (auto simp: int32_def)
  have get: "arr_get_int a (int (2 * i + 1) + 1) = arr_get a (2 * i + 2)"
    using int_arr(1) [of a "2 * i + 2"] by (simp add: add.commute)
  have child: "(if int (2 * i + 1) < int (n - 1) then do {
       x \<leftarrow> arr_get_int a (int (2 * i + 1) + 1); y \<leftarrow> arr_get_int a (int (2 * i + 1));
       Some (if x > y then int (2 * i + 1) + 1 else int (2 * i + 1)) } else Some (int (2 * i + 1))) = Some (int c)"
    unfolding get int_arr using assms by (auto simp: less_diff_conv c_def)
  have len: "i < length a" "c < length a" using assms(1,2) cn by linarith+
  have "i < 2 ^ 30" "int (2 * i + 1) < int n" using assms by linarith+
  then have "HeapAjust_loop t (int n) a (int i) = do { x \<leftarrow> arr_get_int a (int c);
      if t < x then do { data \<leftarrow> arr_set_int a (int i) x; data \<leftarrow> arr_set_int data (int c) t;
        HeapAjust_loop t (int n) data (int c) } else Some a }" for t
    by (subst HeapAjust_loop.simps) (simp only: child_in_range m child Option.bind.bind_lunit if_True)
  then show "\<forall>t. HeapAjust_loop t (int n) a (int i) =
      (if t < a ! c then HeapAjust_loop t (int n) (a[i := a ! c, c := t]) (int c) else Some a)"
    using len by simp
qed

lemma HeapAjust_loop_leaf:
  assumes "n \<le> 2 * i + 1" and "i < 2 ^ 30"
  shows "HeapAjust_loop t (int n) a (int i) = Some a"
proof -
  have "\<not> int (2 * i + 1) < int n" using assms(1) by linarith
  then show ?thesis
    by (subst HeapAjust_loop.simps) (simp only: child_in_range [OF assms(2)] Option.bind.bind_lunit if_False)
qed

lemma HeapAjust_loop_heap:
  assumes "heap_except i k n a" and "n \<le> length a" and "i < length a" and "length a \<le> 2 ^ 30"
  shows "\<exists>b. HeapAjust_loop (a ! i) (int n) a (int i) = Some b \<and> heap_from k n b \<and> mset b = mset a \<and> drop n b = drop n a"
  using assms
proof (induction "n - i" arbitrary: a i rule: less_induct)
  case less
  show ?case
  proof (cases "2 * i + 1 < n")
    case True
    obtain c where c: "c = 2 * i + 1 \<or> c = 2 * i + 2" "c < n"
      "a ! (2 * i + 1) \<le> a ! c" "2 * i + 2 < n \<longrightarrow> a ! (2 * i + 2) \<le> a ! c"
      "\<forall>t. HeapAjust_loop t (int n) a (int i) =
        (if t < a ! c then HeapAjust_loop t (int n) (a[i := a ! c, c := t]) (int c) else Some a)"
      by (rule HeapAjust_loop_step [OF True less.prems(2) le_trans [OF less.prems(2,4)]])
    show ?thesis
    proof (cases "a ! i < a ! c")
      case True
      let ?b = "a[i := a ! c, c := a ! i]"
      have e: "heap_except c k n ?b" using heap_except_swap [OF less.prems(1,2) c(1,2) True] c(3,4) by blast
      have "c < length a" "i < c" using c less.prems(2) by auto
      then have "?b ! c = a ! i" "mset ?b = mset a" "drop n ?b = drop n a"
        using less.prems(3) c(2) by (simp_all add: mset_swap_nth)
      then show ?thesis
        using less.hyps [of c ?b] e c(2,5) less.prems True \<open>i < c\<close> by auto
    next
      case False
      then have "dominates a n i" using c(3,4) by (auto simp: dominates_def)
      then have "heap_from k n a" using less.prems(1) by (auto simp: heap_from_def heap_except_def)
      then show ?thesis using False c(5) by simp
    qed
  next
    case False
    then have "dominates a n i" by (simp add: dominates_def)
    then have "heap_from k n a" using less.prems(1) by (auto simp: heap_from_def heap_except_def)
    then show ?thesis using False less.prems(3,4) by (simp add: HeapAjust_loop_leaf)
  qed
qed

lemma HeapAjust_heap:
  assumes "heap_from (Suc k) n a" and "k < n" and "n \<le> length a" and "length a \<le> 2 ^ 30"
  shows "\<exists>b. HeapAjust a (int k) (int n) = Some b \<and> heap_from k n b \<and> mset b = mset a \<and> drop n b = drop n a"
proof -
  have "heap_except k k n a" using assms(1) by (auto simp: heap_except_def heap_from_def)
  then show ?thesis using HeapAjust_loop_heap [of k k n a] assms(2-4) by (simp add: HeapAjust_def)
qed

lemma heap_root_max:
  assumes "heap_from 0 n a" and "i < n"
  shows "a ! i \<le> a ! 0"
  using assms(2)
proof (induction i rule: less_induct)
  case (less i)
  show ?case
  proof (cases "i = 0")
    case False
    have "i = 2 * ((i - 1) div 2) + 1 \<or> i = 2 * ((i - 1) div 2) + 2" using False by presburger
    then obtain p where p: "i = 2 * p + 1 \<or> i = 2 * p + 2" by blast
    have "dominates a n p" using assms(1) by (simp add: heap_from_def)
    then have "a ! i \<le> a ! p" using p less.prems unfolding dominates_def by blast
    also have "\<dots> \<le> a ! 0" using p less.prems by (intro less.IH) auto
    finally show ?thesis .
  qed simp
qed

lemma mset_take_eq: "mset b = mset a \<Longrightarrow> drop n b = drop n a \<Longrightarrow> mset (take n b) = mset (take n a)"
  by (metis add_right_cancel append_take_drop_id mset_append)

lemma build_heap:
  assumes "n \<le> length a" and "length a \<le> 2 ^ 30"
  shows "\<exists>b. foldM (\<lambda>i data. HeapAjust data (int i) (int n)) (rev [0..<n div 2]) a = Some b \<and>
    heap_from 0 n b \<and> mset b = mset a"
proof -
  have "\<exists>b. foldM (\<lambda>i data. HeapAjust data (int i) (int n)) (rev [i..<n div 2]) a = Some b \<and>
    heap_from i n b \<and> mset b = mset a" if "i \<le> n div 2" for i
    using that
  proof (induction rule: inc_induct)
    case base
    have "heap_from (n div 2) n a" by (auto simp: heap_from_def dominates_def)
    then show ?case by simp
  next
    case (step i)
    then obtain b where b: "foldM (\<lambda>i data. HeapAjust data (int i) (int n)) (rev [Suc i..<n div 2]) a = Some b"
      "heap_from (Suc i) n b" "mset b = mset a" by auto
    have "i < n" using step.hyps by linarith
    then obtain c where "HeapAjust b (int i) (int n) = Some c" "heap_from i n c" "mset c = mset b"
      using HeapAjust_heap [OF b(2)] step.hyps assms mset_eq_length [OF b(3)] by auto
    moreover have "rev [i..<n div 2] = rev [Suc i..<n div 2] @ [i]" using step.hyps by (simp add: upt_conv_Cons)
    ultimately show ?case using b by (simp add: foldM_append)
  qed
  from this [of 0] show ?thesis by simp
qed

lemma sort_phase_step:
  assumes "heap_from 0 (Suc j) a" and "j < length a" and "0 < j"
    and "sorted (drop (Suc j) a)" and "\<forall>x \<in> set (take (Suc j) a). \<forall>y \<in> set (drop (Suc j) a). x \<le> y"
    and "length a \<le> 2 ^ 30"
  shows "\<exists>b. HeapAjust (a[j := a ! 0, 0 := a ! j]) 0 (int j) = Some b \<and> heap_from 0 j b \<and> mset b = mset a \<and>
    sorted (drop j b) \<and> (\<forall>x \<in> set (take j b). \<forall>y \<in> set (drop j b). x \<le> y)"
proof -
  let ?s = "a[j := a ! 0, 0 := a ! j]"
  have len: "0 < length a" using assms(2) by linarith
  have nth: "?s ! i = a ! i" if "i \<noteq> 0" "i \<noteq> j" for i using that by simp
  have "heap_from (Suc 0) j ?s"
    unfolding heap_from_def
  proof (intro allI impI)
    fix i assume "Suc 0 \<le> i"
    moreover have "dominates a (Suc j) i" using assms(1) by (simp add: heap_from_def)
    ultimately show "dominates ?s j i" by (auto simp: dominates_def)
  qed
  then obtain b where b: "HeapAjust ?s 0 (int j) = Some b" "heap_from 0 j b" "mset b = mset ?s" "drop j b = drop j ?s"
    using HeapAjust_heap [of 0 j ?s] assms(2,3,6) by auto
  have s: "mset ?s = mset a" using assms(2) len by (metis list_update_swap mset_swap_nth)
  have drop: "drop j ?s = a ! 0 # drop (Suc j) a"
    using assms(2,3) by (simp add: Cons_nth_drop_Suc [symmetric] drop_update_swap)
  have "mset (take j b) = mset (take j ?s)" using b(3,4) by (rule mset_take_eq)
  then have tb: "set (take j b) = set (take j ?s)" by (metis set_mset_mset)
  have "mset (take j ?s) + mset (drop j ?s) = mset (take (Suc j) a) + mset (drop (Suc j) a)"
    unfolding mset_append [symmetric] append_take_drop_id by (rule s)
  then have "mset (take j ?s) + {#a ! 0#} = mset (take (Suc j) a)"
    unfolding drop by simp
  then have sub: "set (take j ?s) \<subseteq> set (take (Suc j) a)"
    by (metis set_mset_mset set_mset_union Un_upper1)
  have root: "x \<le> a ! 0" if "x \<in> set (take (Suc j) a)" for x
    using that heap_root_max [OF assms(1)] assms(2) by (auto simp: in_set_conv_nth)
  have "a ! 0 \<in> set (take (Suc j) a)" using len by (cases a) auto
  then have "sorted (drop j b)" using assms(4,5) b(4) drop by simp
  moreover have "\<forall>x \<in> set (take j b). \<forall>y \<in> set (drop j b). x \<le> y"
    using tb sub root assms(5) b(4) drop by auto
  ultimately show ?thesis using b s by auto
qed

lemma upto_nat: "[int m..int n - 1] = map int [m..<n]"
proof (induction n)
  case (Suc n)
  then show ?case
    using upto_rec2 [of "int m" "int n"] by (cases "m \<le> n") simp_all
qed simp

lemma HeapSort2_sorts:
  assumes "length a \<le> 2 ^ 30"
  shows "HeapSort2 a (int (length a)) = Some (sort a)"
proof -
  let ?f = "\<lambda>j data. do {
       temp \<leftarrow> arr_get_int data (int j);
       v \<leftarrow> arr_get_int data 0;
       data \<leftarrow> arr_set_int data (int j) v;
       data \<leftarrow> arr_set_int data 0 temp;
       HeapAjust data 0 (int j) }"
  let ?I = "\<lambda>j b. heap_from 0 j b \<and> mset b = mset a \<and> sorted (drop j b) \<and>
    (\<forall>x \<in> set (take j b). \<forall>y \<in> set (drop j b). x \<le> y)"
  obtain h where h: "foldM (\<lambda>i data. HeapAjust data (int i) (int (length a))) (rev [0..<length a div 2]) a = Some h"
    "heap_from 0 (length a) h" "mset h = mset a"
    using build_heap [of "length a" a] assms by auto
  have l: "length h = length a" using h(3) by (rule mset_eq_length)
  have inv: "\<exists>b. foldM ?f (rev [i..<length a]) h = Some b \<and> ?I i b" if "i \<le> length a" "1 \<le> i" for i
    using that
  proof (induction rule: inc_induct)
    case base
    then show ?case using h l by simp
  next
    case (step j)
    have "1 \<le> Suc j" by simp
    from step.IH [OF this] obtain b where b: "foldM ?f (rev [Suc j..<length a]) h = Some b" "?I (Suc j) b" by blast
    have len: "j < length b" "0 < length b" using step.hyps mset_eq_length [of b a] b(2) by auto
    obtain c where c: "HeapAjust (b[j := b ! 0, 0 := b ! j]) 0 (int j) = Some c" "?I j c"
      using sort_phase_step [of j b] len b(2) step.prems assms mset_eq_length [of b a] by auto
    then have "?f j b = Some c" using len by simp
    from foldM_snocI [OF b(1) this] have "foldM ?f (rev [j..<length a]) h = Some c"
      using step.hyps by (simp only: upt_conv_Cons rev.simps)
    with c(2) show ?case by blast
  qed
  have "\<exists>b. foldM ?f (rev [1..<length a]) h = Some b \<and> sorted b \<and> mset b = mset a"
  proof (cases "1 \<le> length a")
    case True
    then obtain b where b: "foldM ?f (rev [1..<length a]) h = Some b" "?I 1 b"
      using inv by blast
    then have "sorted b" by (cases b) auto
    with b show ?thesis by blast
  next
    case False
    then have "a = []" by (cases a) auto
    then show ?thesis using h by simp
  qed
  then obtain b where "foldM ?f (rev [1..<length a]) h = Some b" "b = sort a"
    by (metis properties_for_sort)
  moreover have "rev [0..drop_bit 1 (int (length a)) - 1] = map int (rev [0..<length a div 2])"
    using upto_nat [of 0 "length a div 2"] by (simp add: drop_bit_eq_div zdiv_int rev_map)
  moreover have "int32 (int (length a) - 1) = Some (int (length a) - 1)" using assms by (auto simp: int32_def)
  moreover have "rev [1..int (length a) - 1] = map int (rev [1..<length a])"
    using upto_nat [of 1 "length a"] by (simp add: rev_map)
  ultimately show ?thesis using h(1) by (simp add: HeapSort2_def foldM_map)
qed

section \<open>Properties\<close>

text \<open>
  C21. \<open>HeapSort2\<close> returns, stays inside the array, never overflows an index and sorts the array, for every array of at
  most \<open>2^30\<close> elements.
\<close>

theorem heapsort2_sorts:
  assumes "length a \<le> 2 ^ 30"
  shows "\<exists>b. HeapSort2 a (int (length a)) = Some b \<and> sorted b \<and> mset b = mset a"
  by (simp add: HeapSort2_sorts [OF assms])

theorem heapsort2_sorts_witness: "\<exists>b. HeapSort2 [15, 25, 32, - 4] 4 = Some b \<and> sorted b \<and> mset b = mset [15, 25, 32, - 4]"
  using heapsort2_sorts [of "[15, 25, 32, - 4]"] by simp

text \<open>
  C22. \<open>HeapAjust\<close> on a node whose subtrees are heaps makes the tree from that node on a heap, permutes the array and
  leaves everything from \<open>length\<close> on alone, on arrays of at most \<open>2^30\<close> elements.  From node \<open>2^30\<close> on, computing the
  child overflows an \<open>int\<close>, whatever the length.
\<close>

theorem heapajust_restores_heap:
  assumes "heap_from (Suc k) n a" and "k < n" and "n \<le> length a"
  shows "(length a \<le> 2 ^ 30 \<longrightarrow>
      (\<exists>b. HeapAjust a (int k) (int n) = Some b \<and> heap_from k n b \<and> mset b = mset a \<and> drop n b = drop n a)) \<and>
    (2 ^ 30 \<le> k \<longrightarrow> HeapAjust a (int k) (int n) = None)"
proof -
  have "HeapAjust_loop t (int n) a (int k) = None" if "2 ^ 30 \<le> k" for t
    using that by (subst HeapAjust_loop.simps) (auto simp: int32_def split: Option.bind_splits)
  then show ?thesis
    using HeapAjust_heap [OF assms] by (auto simp: HeapAjust_def split: Option.bind_splits)
qed

theorem heapajust_restores_heap_witness:
  "\<exists>b. HeapAjust [1, 9, 5, 3] 0 3 = Some b \<and> heap_from 0 3 b \<and> mset b = mset [1, 9, 5, 3] \<and> drop 3 b = drop 3 [1, 9, 5, 3]"
proof -
  have "heap_from (Suc 0) 3 [1, 9, 5, 3]" by (auto simp: heap_from_def dominates_def)
  then show ?thesis using heapajust_restores_heap [of 0 3 "[1, 9, 5, 3]"] by simp
qed

text \<open>
  C23. The recursive sort: although \<open>(nodei+1) << 1 - 1\<close> makes node \<open>nodei + 1\<close> the left child and
  \<open>arrLength>>1-1\<close> starts at the end of the array, \<open>createHeap\<close> followed by \<open>heapSort\<close> returns and
  sorts every nonempty array (with \<open>arraysize\<close> 0, so that nothing is printed).
\<close>

theorem heapsort_sorts:
  assumes "xs \<noteq> []" and "length xs + 1 < 2 ^ 31"
  shows "\<exists>h'. createHeap 0 xs (int (length xs)) h = Some h' \<and> arr h' = rev (sort xs) \<and>
    heapSort 0 h' = Some (h'\<lparr>arr := sort xs, heapMaxIndex := 0\<rparr>)"
proof -
  let ?h = "h\<lparr>arr := rev (sort xs), heapMaxIndex := int (length xs) - 1, arrLength := int (length xs)\<rparr>"
  have "heapSort 0 ?h = Some (?h\<lparr>arr := sort xs, heapMaxIndex := 0\<rparr>)"
    using assms by (intro heapSort_phase [of "sort xs" "length xs - 1"]) (auto simp: of_nat_diff Suc_leI)
  then show ?thesis using createHeap_descending [of xs h] assms by simp
qed

theorem heapsort_sorts_witness:
  "\<exists>h'. createHeap 0 [3, 1, 2] 3 \<lparr>arr = [], heapMaxIndex = 0, arrLength = 0\<rparr> = Some h' \<and> arr h' = [3, 2, 1] \<and>
    heapSort 0 h' = Some (h'\<lparr>arr := [1, 2, 3], heapMaxIndex := 0\<rparr>)"
  using heapsort_sorts [of "[3, 1, 2]" "\<lparr>arr = [], heapMaxIndex = 0, arrLength = 0\<rparr>"] by simp

end
