(* ===== verification/Calculator.thy ===== *)
theory Calculator
  imports Prelude "HOL-Library.Signed_Division" "HOL-Library.Char_ord"
begin

text \<open>
  Model of \<open>calculate\<close> in \<open>other/testCode/testFullFile/compute.cpp\<close>: the expression string is rewritten
  in place to postfix order with an operator stack, and evaluated with a stack of \<open>int\<close> values.
  Both stacks are arrays of 200 entries with an \<open>int\<close> index of the top, \<open>-1\<close> when empty.  Arithmetic
  outside the range of \<open>int\<close> is undefined (\<open>None\<close>).
\<close>

section \<open>The code\<close>

definition NUL :: char where "NUL = CHR 0x00"

text \<open>The state of the conversion: the string, the length \<open>t\<close> of the postfix part, and \<open>opstack\<close>.\<close>

record conv =
  expStr :: "char list"
  postlen :: nat
  opdata :: "char list"
  optop :: int

text \<open>The body of the three popping loops, \<open>expStr[t] = opstack.opdata[opstack.top]; top--; t++\<close>.\<close>

definition calc_pop :: "conv \<Rightarrow> conv option" where
  "calc_pop s = do {
     c \<leftarrow> arr_get_int (opdata s) (optop s);
     e \<leftarrow> arr_set (expStr s) (postlen s) c;
     Some (s\<lparr>expStr := e, optop := optop s - 1, postlen := postlen s + 1\<rparr>) }"

definition calc_push :: "char \<Rightarrow> conv \<Rightarrow> conv option" where
  "calc_push ch s = do {
     ops \<leftarrow> arr_set_int (opdata s) (optop s + 1) ch;
     Some (s\<lparr>optop := optop s + 1, opdata := ops\<rparr>) }"

partial_function (option) calc_pop_all :: "conv \<Rightarrow> conv option" where
  "calc_pop_all s = (if optop s \<noteq> -1 then do { s \<leftarrow> calc_pop s; calc_pop_all s } else Some s)"

partial_function (option) calc_pop_mul :: "conv \<Rightarrow> conv option" where
  "calc_pop_mul s =
     (if optop s \<noteq> -1 then do {
        c \<leftarrow> arr_get_int (opdata s) (optop s);
        if c = CHR ''*'' \<or> c = CHR ''/'' then do { s \<leftarrow> calc_pop s; calc_pop_mul s } else Some s }
      else Some s)"

definition calc_char :: "char \<Rightarrow> conv \<Rightarrow> conv option" where
  "calc_char ch s =
     (if ch = CHR ''+'' \<or> ch = CHR ''-'' then do { s \<leftarrow> calc_pop_all s; calc_push ch s }
      else if ch = CHR ''*'' \<or> ch = CHR ''/'' then do { s \<leftarrow> calc_pop_mul s; calc_push ch s }
      else do {
        e \<leftarrow> arr_set (expStr s) (postlen s) ch;
        Some (s\<lparr>expStr := e, postlen := postlen s + 1\<rparr>) })"

partial_function (option) calc_convert :: "nat \<Rightarrow> conv \<Rightarrow> conv option" where
  "calc_convert i s = do {
     ch \<leftarrow> arr_get (expStr s) i;
     if ch \<noteq> NUL then do { s \<leftarrow> calc_char ch s; calc_convert (i + 1) s } else Some s }"

text \<open>One step of the evaluation; \<open>Inl r\<close> is an early \<open>return r\<close>.\<close>

definition calc_binop :: "(int \<Rightarrow> int \<Rightarrow> int) \<Rightarrow> int list \<times> int \<Rightarrow> (int list \<times> int) option" where
  "calc_binop f = (\<lambda>(numeric, top). do {
     x \<leftarrow> arr_get_int numeric (top - 1);
     y \<leftarrow> arr_get_int numeric top;
     tmp \<leftarrow> int32 (f x y);
     numeric \<leftarrow> arr_set_int numeric (top - 1) tmp;
     Some (numeric, top - 1) })"

definition calc_step :: "char \<Rightarrow> int list \<times> int \<Rightarrow> (int + int list \<times> int) option" where
  "calc_step ch = (\<lambda>(numeric, top).
     if CHR ''0'' \<le> ch \<and> ch \<le> CHR ''9'' then do {
       numeric \<leftarrow> arr_set_int numeric (top + 1) (of_char ch - of_char (CHR ''0''));
       Some (Inr (numeric, top + 1)) }
     else if ch = CHR ''+'' then map_option Inr (calc_binop (+) (numeric, top))
     else if ch = CHR ''-'' then map_option Inr (calc_binop (-) (numeric, top))
     else if ch = CHR ''*'' then map_option Inr (calc_binop (*) (numeric, top))
     else if ch = CHR ''/'' then do {
       y \<leftarrow> arr_get_int numeric top;
       if y = 0 then Some (Inl (- 10000)) else map_option Inr (calc_binop (sdiv) (numeric, top)) }
     else Some (Inr (numeric, top)))"

partial_function (option) calc_eval :: "char list \<Rightarrow> nat \<Rightarrow> int list \<times> int \<Rightarrow> int option" where
  "calc_eval e i s = do {
     ch \<leftarrow> arr_get e i;
     if ch \<noteq> NUL then do {
       r \<leftarrow> calc_step ch s;
       (case r of Inl v \<Rightarrow> Some v | Inr s \<Rightarrow> calc_eval e (i + 1) s) }
     else arr_get_int (fst s) (snd s) }"

declare calc_pop_all.simps [code] calc_pop_mul.simps [code] calc_convert.simps [code] calc_eval.simps [code]

definition calculate :: "char list \<Rightarrow> int option" where
  "calculate e = do {
     s \<leftarrow> calc_convert 0 \<lparr>expStr = e, postlen = 0, opdata = replicate 200 NUL, optop = -1\<rparr>;
     s \<leftarrow> calc_pop_all s;
     e \<leftarrow> arr_set (expStr s) (postlen s) NUL;
     calc_eval e 0 (replicate 200 0, -1) }"

section \<open>Expressions\<close>

text \<open>
  The grammar of the input: sums of products of digits, both associating to the left.  Evaluation
  gives \<open>None\<close> on overflow, and \<open>Inl (-10000)\<close> at the first division by zero.
\<close>

datatype prod = Digit nat | Mul prod char nat
datatype expr = Prod prod | Add expr char prod

definition digit_char :: "nat \<Rightarrow> char" where
  "digit_char d = char_of (48 + d)"

fun print_prod :: "prod \<Rightarrow> char list" where
  "print_prod (Digit d) = [digit_char d]"
| "print_prod (Mul p c d) = print_prod p @ [c, digit_char d]"

fun print_expr :: "expr \<Rightarrow> char list" where
  "print_expr (Prod p) = print_prod p"
| "print_expr (Add e c p) = print_expr e @ c # print_prod p"

fun valid_prod :: "prod \<Rightarrow> bool" where
  "valid_prod (Digit d) \<longleftrightarrow> d \<le> 9"
| "valid_prod (Mul p c d) \<longleftrightarrow> valid_prod p \<and> c \<in> {CHR ''*'', CHR ''/''} \<and> d \<le> 9"

fun valid_expr :: "expr \<Rightarrow> bool" where
  "valid_expr (Prod p) \<longleftrightarrow> valid_prod p"
| "valid_expr (Add e c p) \<longleftrightarrow> valid_expr e \<and> c \<in> {CHR ''+'', CHR ''-''} \<and> valid_prod p"

definition apply_op :: "char \<Rightarrow> int \<Rightarrow> int \<Rightarrow> (int + int) option" where
  "apply_op c x y =
     (if c = CHR ''/'' \<and> y = 0 then Some (Inl (- 10000))
      else map_option Inr (int32 (if c = CHR ''+'' then x + y else if c = CHR ''-'' then x - y
        else if c = CHR ''*'' then x * y else x sdiv y)))"

fun eval_prod :: "prod \<Rightarrow> (int + int) option" where
  "eval_prod (Digit d) = Some (Inr (int d))"
| "eval_prod (Mul p c d) = do {
     r \<leftarrow> eval_prod p;
     (case r of Inl v \<Rightarrow> Some (Inl v) | Inr x \<Rightarrow> apply_op c x (int d)) }"

fun eval_expr :: "expr \<Rightarrow> (int + int) option" where
  "eval_expr (Prod p) = eval_prod p"
| "eval_expr (Add e c p) = do {
     r \<leftarrow> eval_expr e;
     (case r of Inl v \<Rightarrow> Some (Inl v) | Inr x \<Rightarrow> do {
        r \<leftarrow> eval_prod p;
        (case r of Inl v \<Rightarrow> Some (Inl v) | Inr y \<Rightarrow> apply_op c x y) }) }"

definition result :: "(int + int) option \<Rightarrow> int option" where
  "result r = map_option (case_sum id id) r"

section \<open>Abstract stacks and postfix text\<close>

text \<open>
  The array state stands for the output \<open>out\<close>, the operator stack \<open>ops\<close> (top first) and the unread
  characters \<open>rest\<close>.  Every consumed character is in one of the first two, so the write position
  never passes the read position.
\<close>

definition conv_rel :: "conv \<Rightarrow> char list \<Rightarrow> char list \<Rightarrow> char list \<Rightarrow> bool" where
  "conv_rel s out ops rest \<longleftrightarrow>
     (\<exists>junk. expStr s = out @ junk @ rest \<and> length junk = length ops) \<and> postlen s = length out \<and>
     length (opdata s) = 200 \<and> optop s = int (length ops) - 1 \<and> length ops \<le> 200 \<and>
     take (length ops) (opdata s) = rev ops"

abbreviation mulop :: "char \<Rightarrow> bool" where
  "mulop c \<equiv> c = CHR ''*'' \<or> c = CHR ''/''"

definition shunt :: "char \<Rightarrow> char list \<times> char list \<Rightarrow> char list \<times> char list" where
  "shunt ch = (\<lambda>(out, ops).
     if ch = CHR ''+'' \<or> ch = CHR ''-'' then (out @ ops, [ch])
     else if mulop ch then (out @ takeWhile mulop ops, ch # dropWhile mulop ops)
     else (out @ [ch], ops))"

text \<open>The operator stack never holds more than one multiplicative above one additive operator.\<close>

definition shallow :: "char list \<Rightarrow> bool" where
  "shallow ops \<longleftrightarrow> (\<exists>m a. ops = m @ a \<and> length m \<le> 1 \<and> length a \<le> 1 \<and> (\<forall>c \<in> set m. mulop c) \<and> (\<forall>c \<in> set a. \<not> mulop c))"

fun post_prod :: "prod \<Rightarrow> char list" where
  "post_prod (Digit d) = [digit_char d]"
| "post_prod (Mul p c d) = post_prod p @ [digit_char d, c]"

fun post_expr :: "expr \<Rightarrow> char list" where
  "post_expr (Prod p) = post_prod p"
| "post_expr (Add e c p) = post_expr e @ post_prod p @ [c]"

definition num_rel :: "int list \<times> int \<Rightarrow> int list \<Rightarrow> bool" where
  "num_rel s st \<longleftrightarrow> length (fst s) = 200 \<and> snd s = int (length st) - 1 \<and> length st \<le> 200 \<and>
     take (length st) (fst s) = rev st"

text \<open>
  Reading the postfix text \<open>cs\<close> from position \<open>i\<close> with stack \<open>st\<close> has outcome \<open>r\<close>: undefined, an early
  return, or one more value on the stack.
\<close>

definition evals :: "char list \<Rightarrow> nat \<Rightarrow> char list \<Rightarrow> (int + int) option \<Rightarrow> int list \<Rightarrow> bool" where
  "evals e i cs r st \<longleftrightarrow> (\<forall>s. num_rel s st \<longrightarrow>
     (case r of
        None \<Rightarrow> calc_eval e i s = None
      | Some (Inl v) \<Rightarrow> calc_eval e i s = Some v
      | Some (Inr x) \<Rightarrow> \<exists>s'. num_rel s' (x # st) \<and> calc_eval e i s = calc_eval e (i + length cs) s'))"

section \<open>The conversion\<close>

lemma conv_rel_top:
  "conv_rel s out (c # ops) rest \<Longrightarrow> arr_get_int (opdata s) (optop s) = Some c"
  by (auto simp: conv_rel_def arr_get_int_def dest: arg_cong [of _ _ "\<lambda>xs. xs ! length ops"] simp: nth_append)

lemma calc_pop_rel:
  assumes "conv_rel s out (c # ops) rest"
  shows "\<exists>s'. calc_pop s = Some s' \<and> conv_rel s' (out @ [c]) ops rest"
proof -
  obtain x junk where e: "expStr s = out @ (x # junk) @ rest" "length junk = length ops"
    using assms by (auto simp: conv_rel_def length_Suc_conv)
  have "take (length ops) (opdata s) = rev ops"
    using assms by (auto simp: conv_rel_def dest: arg_cong [of _ _ "take (length ops)"])
  then show ?thesis
    using assms e conv_rel_top [OF assms]
    by (auto simp: calc_pop_def conv_rel_def list_update_append intro!: exI [of _ junk])
qed

lemma calc_push_rel:
  assumes "conv_rel s out ops (ch # rest)" and "length ops < 200"
  shows "\<exists>s'. calc_push ch s = Some s' \<and> conv_rel s' out (ch # ops) rest"
proof -
  obtain junk where e: "expStr s = out @ junk @ ch # rest" "length junk = length ops"
    using assms by (auto simp: conv_rel_def)
  show ?thesis
    using assms e
    by (auto simp: calc_push_def conv_rel_def arr_set_int_def take_Suc_conv_app_nth intro!: exI [of _ "junk @ [ch]"])
qed

lemma calc_pop_all_rel:
  "conv_rel s out ops rest \<Longrightarrow> \<exists>s'. calc_pop_all s = Some s' \<and> conv_rel s' (out @ ops) [] rest"
proof (induction ops arbitrary: s out)
  case Nil
  then show ?case by (subst calc_pop_all.simps) (simp add: conv_rel_def)
next
  case (Cons c ops)
  obtain s1 where "calc_pop s = Some s1" "conv_rel s1 (out @ [c]) ops rest"
    using calc_pop_rel [OF Cons.prems] by blast
  moreover have "optop s \<noteq> -1" using Cons.prems by (simp add: conv_rel_def)
  ultimately show ?case using Cons.IH [of s1 "out @ [c]"] by (subst calc_pop_all.simps) simp
qed

lemma calc_pop_mul_rel:
  "conv_rel s out ops rest \<Longrightarrow>
   \<exists>s'. calc_pop_mul s = Some s' \<and> conv_rel s' (out @ takeWhile mulop ops) (dropWhile mulop ops) rest"
proof (induction ops arbitrary: s out)
  case Nil
  then show ?case by (subst calc_pop_mul.simps) (simp add: conv_rel_def)
next
  case (Cons c ops)
  obtain s1 where "calc_pop s = Some s1" "conv_rel s1 (out @ [c]) ops rest"
    using calc_pop_rel [OF Cons.prems] by blast
  moreover have "optop s \<noteq> -1" using Cons.prems by (simp add: conv_rel_def)
  ultimately show ?case
    using Cons.IH [of s1 "out @ [c]"] Cons.prems conv_rel_top [OF Cons.prems]
    by (subst calc_pop_mul.simps) auto
qed

lemma calc_char_rel:
  assumes "conv_rel s out ops (ch # rest)" and "length ops < 200"
  shows "\<exists>s'. calc_char ch s = Some s' \<and> (case shunt ch (out, ops) of (out', ops') \<Rightarrow> conv_rel s' out' ops' rest)"
proof -
  have push: "\<exists>s'. do { s \<leftarrow> Some s1; calc_push ch s } = Some s' \<and> conv_rel s' out' (ch # ops') rest"
    if "conv_rel s1 out' ops' (ch # rest)" "length ops' \<le> length ops" for s1 out' ops'
    using calc_push_rel [OF that(1)] that(2) assms(2) by auto
  consider "ch = CHR ''+'' \<or> ch = CHR ''-''" | "mulop ch" | "\<not> (ch = CHR ''+'' \<or> ch = CHR ''-'')" "\<not> mulop ch" by blast
  then show ?thesis
  proof cases
    case 1
    then show ?thesis
      using calc_pop_all_rel [OF assms(1)] push [of _ "out @ ops" "[]"] by (auto simp: calc_char_def shunt_def)
  next
    case 2
    moreover have "length (dropWhile mulop ops) \<le> length ops" by (rule length_dropWhile_le)
    ultimately show ?thesis
      using calc_pop_mul_rel [OF assms(1)] push [of _ "out @ takeWhile mulop ops" "dropWhile mulop ops"]
      by (auto simp: calc_char_def shunt_def)
  next
    case 3
    obtain junk where e: "expStr s = out @ junk @ ch # rest" "length junk = length ops"
      using assms by (auto simp: conv_rel_def)
    show ?thesis
    proof (cases junk)
      case Nil
      then show ?thesis using 3 e assms by (auto simp: calc_char_def shunt_def conv_rel_def)
    next
      case (Cons x js)
      then show ?thesis
        using 3 e assms by (auto simp: calc_char_def shunt_def conv_rel_def list_update_append intro!: exI [of _ "js @ [ch]"])
    qed
  qed
qed

lemma shallow_length: "shallow ops \<Longrightarrow> length ops \<le> 2"
  unfolding shallow_def by (elim exE conjE) (simp only: length_append)

lemma shallow_Nil [simp]: "shallow []"
  by (auto simp: shallow_def)

lemma shallow_shunt: "shallow ops \<Longrightarrow> shallow (snd (shunt ch (out, ops)))"
proof -
  assume "shallow ops"
  then obtain m a where ma: "ops = m @ a" "length m \<le> 1" "length a \<le> 1" "\<forall>c \<in> set m. mulop c" "\<forall>c \<in> set a. \<not> mulop c"
    by (auto simp: shallow_def)
  then have "dropWhile mulop ops = a" by (cases a) (simp_all add: dropWhile_append2)
  moreover have "shallow [ch]" if "\<not> mulop ch" unfolding shallow_def using that by (intro exI [of _ "[]"] exI [of _ "[ch]"]) simp
  moreover have "shallow (ch # a)" if "mulop ch"
    unfolding shallow_def using that ma by (intro exI [of _ "[ch]"] exI [of _ a]) simp
  ultimately show ?thesis
    using \<open>shallow ops\<close> by (auto simp: shunt_def)
qed

lemma calc_convert_rel:
  assumes "conv_rel s out ops (cs @ NUL # tail)" and "shallow ops" and "NUL \<notin> set cs" and "i = length out + length ops"
  shows "\<exists>s'. calc_convert i s = Some s' \<and>
    (case fold shunt cs (out, ops) of (out', ops') \<Rightarrow> conv_rel s' out' ops' (NUL # tail))"
  using assms
proof (induction cs arbitrary: s out ops i)
  case Nil
  then have "expStr s ! i = NUL" "i < length (expStr s)" by (auto simp: conv_rel_def nth_append)
  with Nil show ?case by (subst calc_convert.simps) simp
next
  case (Cons ch cs)
  then have ch: "expStr s ! i = ch" "i < length (expStr s)" by (auto simp: conv_rel_def nth_append)
  obtain out1 ops1 where sh: "shunt ch (out, ops) = (out1, ops1)" by fastforce
  obtain s1 where s1: "calc_char ch s = Some s1" "conv_rel s1 out1 ops1 (cs @ NUL # tail)"
    using calc_char_rel [of s out ops ch "cs @ NUL # tail"] Cons.prems shallow_length [OF Cons.prems(2)] sh by auto
  have "length takeWhile_len + length dropWhile_len = length ops"
    if "takeWhile_len = takeWhile mulop ops" "dropWhile_len = dropWhile mulop ops" for takeWhile_len dropWhile_len
    using that by (metis length_append takeWhile_dropWhile_id)
  then have "i + 1 = length out1 + length ops1"
    using sh Cons.prems(4) by (auto simp: shunt_def split: if_splits)
  moreover have "shallow ops1" using shallow_shunt [OF Cons.prems(2), of ch out] sh by simp
  ultimately show ?case
    using Cons.IH [OF s1(2)] Cons.prems(3) ch s1(1) sh by (subst calc_convert.simps) auto
qed

lemma digit_char_props:
  assumes "d \<le> 9"
  shows "digit_char d \<noteq> NUL" "digit_char d \<noteq> CHR ''+''" "digit_char d \<noteq> CHR ''-''" "\<not> mulop (digit_char d)"
    "CHR ''0'' \<le> digit_char d" "digit_char d \<le> CHR ''9''" "of_char (digit_char d) - of_char (CHR ''0'') = int d"
proof -
  have "list_all (\<lambda>d. digit_char d \<noteq> NUL \<and> digit_char d \<noteq> CHR ''+'' \<and> digit_char d \<noteq> CHR ''-'' \<and> \<not> mulop (digit_char d) \<and>
    CHR ''0'' \<le> digit_char d \<and> digit_char d \<le> CHR ''9'' \<and> of_char (digit_char d) - of_char (CHR ''0'') = int d) [0..<10]"
    by code_simp
  then have "digit_char d \<noteq> NUL \<and> digit_char d \<noteq> CHR ''+'' \<and> digit_char d \<noteq> CHR ''-'' \<and> \<not> mulop (digit_char d) \<and>
    CHR ''0'' \<le> digit_char d \<and> digit_char d \<le> CHR ''9'' \<and> of_char (digit_char d) - of_char (CHR ''0'') = int d"
    using assms by (simp only: list_all_iff set_upt) auto
  then show "digit_char d \<noteq> NUL" "digit_char d \<noteq> CHR ''+''" "digit_char d \<noteq> CHR ''-''" "\<not> mulop (digit_char d)"
    "CHR ''0'' \<le> digit_char d" "digit_char d \<le> CHR ''9''" "of_char (digit_char d) - of_char (CHR ''0'') = int d" by blast+
qed

lemma shunt_digit: "d \<le> 9 \<Longrightarrow> shunt (digit_char d) (out, ops) = (out @ [digit_char d], ops)"
  using digit_char_props [of d] by (simp add: shunt_def)

lemma shunt_prod:
  assumes "valid_prod p" and "takeWhile mulop ops = []"
  shows "\<exists>out' m. fold shunt (print_prod p) (out, ops) = (out', m @ ops) \<and> out' @ m = out @ post_prod p \<and> (\<forall>c \<in> set m. mulop c)"
  using assms(1)
proof (induction p)
  case (Digit d)
  then show ?case by (simp add: shunt_digit)
next
  case (Mul p c d)
  then obtain out' m where *: "fold shunt (print_prod p) (out, ops) = (out', m @ ops)" "out' @ m = out @ post_prod p"
    "\<forall>c \<in> set m. mulop c" by auto
  have "dropWhile mulop ops = ops"
    using takeWhile_dropWhile_id [of mulop ops] assms(2) by simp
  then have "takeWhile mulop (m @ ops) = m" "dropWhile mulop (m @ ops) = ops"
    using *(3) assms(2) by (simp_all only: takeWhile_append2 dropWhile_append2 append_Nil2)
  then have "shunt c (out', m @ ops) = (out' @ m, c # ops)" using Mul.prems by (auto simp: shunt_def)
  then have "fold shunt (print_prod (Mul p c d)) (out, ops) = ((out' @ m) @ [digit_char d], [c] @ ops)"
    using *(1) Mul.prems by (simp add: shunt_digit)
  moreover have "((out' @ m) @ [digit_char d]) @ [c] = out @ post_prod (Mul p c d)"
    unfolding *(2) by simp
  moreover have "\<forall>c' \<in> set [c]. mulop c'" using Mul.prems by simp
  ultimately show ?case by blast
qed

lemma shunt_expr:
  "valid_expr e \<Longrightarrow> \<exists>out' ops'. fold shunt (print_expr e) (out, []) = (out', ops') \<and> out' @ ops' = out @ post_expr e"
proof (induction e)
  case (Prod p)
  then show ?case using shunt_prod [of p "[]" out] by auto
next
  case (Add e c p)
  then obtain out1 ops1 where 1: "fold shunt (print_expr e) (out, []) = (out1, ops1)" "out1 @ ops1 = out @ post_expr e"
    by auto
  have c: "shunt c (out1, ops1) = (out1 @ ops1, [c])" "takeWhile mulop [c] = []" using Add.prems by (auto simp: shunt_def)
  obtain out2 m where "fold shunt (print_prod p) (out1 @ ops1, [c]) = (out2, m @ [c])" "out2 @ m = (out1 @ ops1) @ post_prod p"
    using shunt_prod [OF _ c(2), of p "out1 @ ops1"] Add.prems by auto
  then show ?case using 1 c by (intro exI [of _ out2] exI [of _ "m @ [c]"]) simp
qed

section \<open>The evaluation\<close>

lemma num_rel_push:
  assumes "num_rel (ns, tp) st" and "length st < 200"
  shows "\<exists>ns'. arr_set_int ns (tp + 1) v = Some ns' \<and> num_rel (ns', tp + 1) (v # st)"
  using assms by (auto simp: num_rel_def arr_set_int_def take_Suc_conv_app_nth)

lemma num_rel_top: "num_rel (ns, tp) (y # st) \<Longrightarrow> arr_get_int ns tp = Some y"
  by (auto simp: num_rel_def arr_get_int_def nth_append dest: arg_cong [of _ _ "\<lambda>xs. xs ! length st"])

lemma num_rel_tail: "num_rel (ns, tp) (y # st) \<Longrightarrow> num_rel (ns, tp - 1) st"
  by (auto simp: num_rel_def dest: arg_cong [of _ _ "take (length st)"])

lemma calc_binop_rel:
  assumes "num_rel (ns, tp) (y # x # st)"
  shows "calc_binop f (ns, tp) = None \<and> int32 (f x y) = None \<or>
    (\<exists>v s'. int32 (f x y) = Some v \<and> calc_binop f (ns, tp) = Some s' \<and> num_rel s' (v # st))"
proof (cases "int32 (f x y)")
  case None
  then show ?thesis
    using num_rel_top [OF assms] num_rel_top [OF num_rel_tail [OF assms]] by (simp add: calc_binop_def)
next
  case (Some v)
  have l: "length st < 200" using assms by (simp add: num_rel_def)
  obtain ns' where "arr_set_int ns (tp - 1) v = Some ns'" "num_rel (ns', tp - 1) (v # st)"
    using num_rel_push [OF num_rel_tail [OF num_rel_tail [OF assms]] l, of v] by auto
  then show ?thesis
    using Some num_rel_top [OF assms] num_rel_top [OF num_rel_tail [OF assms]] by (simp add: calc_binop_def)
qed

lemma evalsD:
  "evals e i cs r st \<Longrightarrow> num_rel s st \<Longrightarrow>
   case r of None \<Rightarrow> calc_eval e i s = None | Some (Inl v) \<Rightarrow> calc_eval e i s = Some v
   | Some (Inr x) \<Rightarrow> \<exists>s'. num_rel s' (x # st) \<and> calc_eval e i s = calc_eval e (i + length cs) s'"
  by (simp only: evals_def)

lemma calc_eval_char:
  "i < length e \<Longrightarrow> e ! i = ch \<Longrightarrow> ch \<noteq> NUL \<Longrightarrow> calc_eval e i s =
     do { r \<leftarrow> calc_step ch s; (case r of Inl v \<Rightarrow> Some v | Inr s \<Rightarrow> calc_eval e (i + 1) s) }"
  by (subst calc_eval.simps) simp

lemma evals_digit:
  assumes "d \<le> 9" and "drop i e = digit_char d # rest" and "length st < 200"
  shows "evals e i [digit_char d] (Some (Inr (int d))) st"
proof -
  have i: "i < length e" "e ! i = digit_char d"
    using assms(2) by (auto simp: nth_via_drop dest: arg_cong [of _ _ length] intro: ccontr)
  show ?thesis
    unfolding evals_def
  proof (intro allI impI)
    fix s assume "num_rel s st"
    then obtain ns where "arr_set_int (fst s) (snd s + 1) (int d) = Some ns" "num_rel (ns, snd s + 1) (int d # st)"
      using num_rel_push [of "fst s" "snd s" st "int d"] assms(3) by auto
    then have "calc_eval e i s = calc_eval e (i + 1) (ns, snd s + 1)"
      using digit_char_props [OF assms(1)] i by (simp add: calc_eval_char calc_step_def split_beta)
    then show "case Some (Inr (int d)) of None \<Rightarrow> calc_eval e i s = None | Some (Inl v) \<Rightarrow> calc_eval e i s = Some v
      | Some (Inr x) \<Rightarrow> \<exists>s'. num_rel s' (x # st) \<and> calc_eval e i s = calc_eval e (i + length [digit_char d]) s'"
      using \<open>num_rel (ns, snd s + 1) _\<close> by auto
  qed
qed

lemma calc_step_op:
  assumes "num_rel s (y # x # st)" and "c \<in> {CHR ''+'', CHR ''-'', CHR ''*'', CHR ''/''}"
  shows "case apply_op c x y of
      None \<Rightarrow> calc_step c s = None
    | Some (Inl v) \<Rightarrow> calc_step c s = Some (Inl v)
    | Some (Inr v) \<Rightarrow> \<exists>s'. calc_step c s = Some (Inr s') \<and> num_rel s' (v # st)"
proof -
  obtain ns tp where s: "s = (ns, tp)" by fastforce
  have bin: "case map_option Inr (int32 (f x y)) of
      None \<Rightarrow> map_option Inr (calc_binop f s) = None
    | Some (Inl v) \<Rightarrow> map_option Inr (calc_binop f s) = Some (Inl v)
    | Some (Inr v) \<Rightarrow> \<exists>s'. map_option Inr (calc_binop f s) = Some (Inr s') \<and> num_rel s' (v # st)" for f
    using calc_binop_rel [OF assms(1) [unfolded s], of f] unfolding s by (elim disjE exE conjE) simp_all
  consider "c = CHR ''+''" | "c = CHR ''-''" | "c = CHR ''*''" | "c = CHR ''/''" using assms(2) by blast
  then show ?thesis
  proof cases
    case 1
    then have "calc_step c s = map_option Inr (calc_binop (+) s)" "apply_op c x y = map_option Inr (int32 (x + y))"
      by (simp_all add: s calc_step_def apply_op_def less_eq_char_def)
    then show ?thesis using bin [of "(+)"] by (simp only:)
  next
    case 2
    then have "calc_step c s = map_option Inr (calc_binop (-) s)" "apply_op c x y = map_option Inr (int32 (x - y))"
      by (simp_all add: s calc_step_def apply_op_def less_eq_char_def)
    then show ?thesis using bin [of "(-)"] by (simp only:)
  next
    case 3
    then have "calc_step c s = map_option Inr (calc_binop (*) s)" "apply_op c x y = map_option Inr (int32 (x * y))"
      by (simp_all add: s calc_step_def apply_op_def less_eq_char_def)
    then show ?thesis using bin [of "(*)"] by (simp only:)
  next
    case 4
    show ?thesis
    proof (cases "y = 0")
      case True
      then show ?thesis
        using 4 num_rel_top [OF assms(1) [unfolded s]] by (simp add: s calc_step_def apply_op_def less_eq_char_def)
    next
      case False
      then have "calc_step c s = map_option Inr (calc_binop (sdiv) s)" "apply_op c x y = map_option Inr (int32 (x sdiv y))"
        using 4 num_rel_top [OF assms(1) [unfolded s]] by (simp_all add: s calc_step_def apply_op_def less_eq_char_def)
      then show ?thesis using bin [of "(sdiv)"] by (simp only:)
    qed
  qed
qed

lemma evals_stop: "evals e i cs None st \<Longrightarrow> evals e i cs' None st"
    "evals e i cs (Some (Inl v)) st \<Longrightarrow> evals e i cs' (Some (Inl v)) st"
  by (simp_all only: evals_def option.case sum.case)

lemma evals_op:
  assumes "evals e i cs (Some (Inr x)) st" and "evals e (i + length cs) ds r (x # st)"
    and "drop (i + length cs + length ds) e = c # rest" and "c \<in> {CHR ''+'', CHR ''-'', CHR ''*'', CHR ''/''}"
  shows "evals e i (cs @ ds @ [c])
    (do { r \<leftarrow> r; (case r of Inl v \<Rightarrow> Some (Inl v) | Inr y \<Rightarrow> apply_op c x y) }) st"
  unfolding evals_def
proof (intro allI impI)
  let ?j = "i + length cs + length ds"
  have j: "?j < length e" "e ! ?j = c" "c \<noteq> NUL"
    using assms(3,4) by (auto simp: nth_via_drop NUL_def dest: arg_cong [of _ _ length] intro: ccontr)
  fix s assume "num_rel s st"
  then obtain s1 where s1: "num_rel s1 (x # st)" "calc_eval e i s = calc_eval e (i + length cs) s1"
    using evalsD [OF assms(1), of s] by auto
  let ?q = "case r of None \<Rightarrow> calc_eval e i s = None | Some (Inl v) \<Rightarrow> calc_eval e i s = Some v
      | Some (Inr y) \<Rightarrow> \<exists>s'. num_rel s' (y # x # st) \<and> calc_eval e i s = calc_eval e ?j s'"
  have r: ?q using evalsD [OF assms(2) s1(1)] unfolding s1(2) .
  show "case do { r \<leftarrow> r; (case r of Inl v \<Rightarrow> Some (Inl v) | Inr y \<Rightarrow> apply_op c x y) } of
      None \<Rightarrow> calc_eval e i s = None | Some (Inl v) \<Rightarrow> calc_eval e i s = Some v
    | Some (Inr v) \<Rightarrow> \<exists>s'. num_rel s' (v # st) \<and> calc_eval e i s = calc_eval e (i + length (cs @ ds @ [c])) s'"
  proof (cases r)
    case None
    then show ?thesis using r by simp
  next
    case (Some a)
    show ?thesis
    proof (cases a)
      case (Inl v)
      then show ?thesis using r Some by simp
    next
      case (Inr y)
      then obtain s2 where s2: "num_rel s2 (y # x # st)" "calc_eval e i s = calc_eval e ?j s2"
        using r Some by auto
      have "calc_eval e ?j s2 = do { r \<leftarrow> calc_step c s2; (case r of Inl v \<Rightarrow> Some v | Inr s \<Rightarrow> calc_eval e (?j + 1) s) }"
        using j by (rule calc_eval_char)
      then show ?thesis
        using calc_step_op [OF s2(1) assms(4)] s2(2) Some Inr
        by (auto simp: add.assoc split: option.splits sum.splits) blast
    qed
  qed
qed

lemma evals_seq:
  assumes "evals e i cs q st" and "\<And>x. evals e (i + length cs) ds r (x # st)"
    and "drop (i + length cs + length ds) e = c # rest" and "c \<in> {CHR ''+'', CHR ''-'', CHR ''*'', CHR ''/''}"
  shows "evals e i (cs @ ds @ [c])
    (do { q \<leftarrow> q; (case q of Inl v \<Rightarrow> Some (Inl v) | Inr x \<Rightarrow>
       do { r \<leftarrow> r; (case r of Inl v \<Rightarrow> Some (Inl v) | Inr y \<Rightarrow> apply_op c x y) }) }) st"
proof (cases q)
  case None
  then show ?thesis using assms(1) evals_stop(1) by simp
next
  case (Some a)
  show ?thesis
  proof (cases a)
    case (Inl v)
    then show ?thesis using assms(1) evals_stop(2) Some by simp
  next
    case (Inr x)
    then show ?thesis using evals_op [OF _ assms(2-4)] assms(1) Some by simp
  qed
qed

lemma evals_prod:
  assumes "valid_prod p" and "drop i e = post_prod p @ rest" and "length st + 1 < 200"
  shows "evals e i (post_prod p) (eval_prod p) st"
  using assms
proof (induction p arbitrary: rest)
  case (Digit d)
  then show ?case using evals_digit [of d i e rest st] by simp
next
  case (Mul p c d)
  let ?j = "i + length (post_prod p)"
  have d: "drop ?j e = [digit_char d, c] @ rest"
    using arg_cong [OF Mul.prems(2), of "drop (length (post_prod p))"] by (simp add: add.commute)
  have c: "drop (?j + length [digit_char d]) e = c # rest"
    using arg_cong [OF d, of tl] by (simp add: drop_Suc tl_drop)
  have "evals e i (post_prod p) (eval_prod p) st" using Mul by simp
  moreover have "evals e ?j [digit_char d] (Some (Inr (int d))) (x # st)" for x
    using d Mul.prems by (intro evals_digit [of _ _ _ "c # rest"]) simp_all
  ultimately show ?case
    using evals_seq [of e i "post_prod p" "eval_prod p" st "[digit_char d]" "Some (Inr (int d))", OF _ _ c] Mul.prems(1)
    by simp
qed

lemma evals_expr:
  assumes "valid_expr x" and "drop i e = post_expr x @ rest" and "length st + 2 < 200"
  shows "evals e i (post_expr x) (eval_expr x) st"
  using assms
proof (induction x arbitrary: rest)
  case (Prod p)
  then show ?case using evals_prod [of p i e rest st] by simp
next
  case (Add x c p)
  let ?j = "i + length (post_expr x)"
  have d: "drop ?j e = post_prod p @ c # rest"
    using arg_cong [OF Add.prems(2), of "drop (length (post_expr x))"] by (simp add: add.commute)
  have c: "drop (?j + length (post_prod p)) e = c # rest"
    using arg_cong [OF d, of "drop (length (post_prod p))"] by (simp add: add.commute)
  have "evals e i (post_expr x) (eval_expr x) st" using Add by simp
  moreover have "evals e ?j (post_prod p) (eval_prod p) (y # st)" for y
    using d Add.prems by (intro evals_prod [of _ _ _ "c # rest"]) simp_all
  ultimately show ?case
    using evals_seq [of e i "post_expr x" "eval_expr x" st "post_prod p" "eval_prod p", OF _ _ c] Add.prems(1)
    by auto
qed

lemma NUL_not_printed: "valid_expr x \<Longrightarrow> NUL \<notin> set (print_expr x)"
proof -
  have "valid_prod p \<Longrightarrow> NUL \<notin> set (print_prod p)" for p
  proof (induction p)
    case (Digit d)
    then show ?case using digit_char_props(1) [of d] by auto
  next
    case (Mul p c d)
    then show ?case using digit_char_props(1) [of d] by (auto simp: NUL_def)
  qed
  then show "valid_expr x \<Longrightarrow> NUL \<notin> set (print_expr x)"
    by (induction x) (auto simp: NUL_def)
qed

lemma calculate_print:
  assumes "valid_expr x"
  shows "calculate (print_expr x @ NUL # tail) = result (eval_expr x)"
proof -
  let ?s0 = "\<lparr>expStr = print_expr x @ NUL # tail, postlen = 0, opdata = replicate 200 NUL, optop = -1\<rparr>"
  have r0: "conv_rel ?s0 [] [] (print_expr x @ NUL # tail)" by (simp add: conv_rel_def)
  obtain out ops where o: "fold shunt (print_expr x) ([], []) = (out, ops)" "out @ ops = post_expr x"
    using shunt_expr [OF assms, of "[]"] by auto
  obtain s1 where s1: "calc_convert 0 ?s0 = Some s1" "conv_rel s1 out ops (NUL # tail)"
    using calc_convert_rel [OF r0 _ NUL_not_printed [OF assms]] o(1) by auto
  obtain s2 where s2: "calc_pop_all s1 = Some s2" "conv_rel s2 (post_expr x) [] (NUL # tail)"
    using calc_pop_all_rel [OF s1(2)] o(2) by auto
  then have e: "expStr s2 = post_expr x @ NUL # tail" "postlen s2 = length (post_expr x)"
    by (simp_all add: conv_rel_def)
  let ?e = "post_expr x @ NUL # tail" and ?n = "(replicate 200 0, -1) :: int list \<times> int"
  have n: "num_rel ?n []" by (simp add: num_rel_def)
  have "evals ?e 0 (post_expr x) (eval_expr x) []"
    using assms by (intro evals_expr [of _ _ _ "NUL # tail"]) simp_all
  from evalsD [OF this n] have "calc_eval ?e 0 ?n = result (eval_expr x)"
    by (auto simp: result_def num_rel_top calc_eval.simps [of ?e "length (post_expr x)"] nth_append
        split: option.splits sum.splits)
  then show ?thesis
    using s1(1) s2(1) e by (simp add: calculate_def list_update_append)
qed

section \<open>Properties\<close>

text \<open>
  C24. On every sum of products of digits \<open>calculate\<close> returns what evaluation with the usual precedence and
  associativity gives: the value, the error code at the first division by zero, and nothing on
  overflow.  The conversion in place never overwrites an unread character and both stacks stay
  inside their 200 entries, for expressions of any length an \<open>int\<close> can index.
\<close>

theorem calculate_evaluates:
  assumes "valid_expr x"
  shows "calculate (print_expr x @ NUL # tail) = result (eval_expr x)"
  using assms by (rule calculate_print)

theorem calculate_evaluates_witness:
  "calculate (''2+9*3-5'' @ [NUL]) = Some 24 \<and> calculate (''1/0+4'' @ [NUL]) = Some (- 10000)"
proof -
  let ?x = "Add (Add (Prod (Digit 2)) CHR ''+'' (Mul (Digit 9) CHR ''*'' 3)) CHR ''-'' (Digit 5)"
  let ?y = "Add (Prod (Mul (Digit 1) CHR ''/'' 0)) CHR ''+'' (Digit 4)"
  have "valid_expr ?x" "print_expr ?x = ''2+9*3-5''" "result (eval_expr ?x) = Some 24"
    "valid_expr ?y" "print_expr ?y = ''1/0+4''" "result (eval_expr ?y) = Some (- 10000)"
    by code_simp+
  then show ?thesis using calculate_evaluates [of ?x "[]"] calculate_evaluates [of ?y "[]"] by simp
qed

end
