(* ===== verification/Hashfunc.thy ===== *)
theory Hashfunc
  imports Machine_Words
begin

text \<open>
  Model of the hash functions of \<open>other/postgresql-11.1/src/backend/access/hash/hashfunc.c\<close>.  The
  key is an array of bytes.  The flag \<open>be\<close> stands for \<open>WORDS_BIGENDIAN\<close> and \<open>aligned\<close> for the
  outcome of the test of the key's address; the results about \<open>hash_any\<close> hold for all four code
  paths.  A \<open>Datum\<close> is the word it carries.
\<close>

section \<open>The code\<close>

type_synonym hash_state = "u32 \<times> u32 \<times> u32"

definition rot :: "u32 \<Rightarrow> nat \<Rightarrow> u32" where
  "rot x k = push_bit k x OR drop_bit (32 - k) x"

definition mix :: "hash_state \<Rightarrow> hash_state" where
  "mix = (\<lambda>(a, b, c).
     let a = a - c; a = a XOR rot c 4; c = c + b;
         b = b - a; b = b XOR rot a 6; a = a + c;
         c = c - b; c = c XOR rot b 8; b = b + a;
         a = a - c; a = a XOR rot c 16; c = c + b;
         b = b - a; b = b XOR rot a 19; a = a + c;
         c = c - b; c = c XOR rot b 4; b = b + a
     in (a, b, c))"

definition final :: "hash_state \<Rightarrow> hash_state" where
  "final = (\<lambda>(a, b, c).
     let c = c XOR b; c = c - rot b 14;
         a = a XOR c; a = a - rot c 11;
         b = b XOR a; b = b - rot a 25;
         c = c XOR b; c = c - rot b 16;
         a = a XOR c; a = a - rot c 4;
         b = b XOR a; b = b - rot a 14;
         c = c XOR b; c = c - rot b 24
     in (a, b, c))"

text \<open>The addition of a byte shifted into place.\<close>

definition add_byte :: "bool \<Rightarrow> u8 list \<Rightarrow> nat \<Rightarrow> nat \<Rightarrow> u32 \<Rightarrow> u32 option" where
  "add_byte reached k i sh x =
     (if reached then do { v \<leftarrow> arr_get k i; Some (x + push_bit sh (ucast v)) } else Some x)"

text \<open>The loops over the twelve-byte blocks; the state is followed by the offset and the rest length.\<close>

function hash_loop_aligned :: "bool \<Rightarrow> u8 list \<Rightarrow> hash_state \<Rightarrow> nat \<Rightarrow> nat \<Rightarrow> (hash_state \<times> nat \<times> nat) option" where
  "hash_loop_aligned be k s p len =
     (if 12 \<le> len then do {
        let (a, b, c) = s;
        a' \<leftarrow> fetch be k p;
        b' \<leftarrow> fetch be k (p + 4);
        c' \<leftarrow> fetch be k (p + 8);
        hash_loop_aligned be k (mix (a + a', b + b', c + c')) (p + 12) (len - 12) }
      else Some (s, p, len))"
  by pat_completeness auto
termination by (relation "measure (\<lambda>(_, _, _, _, len). len)") auto

text \<open>The sum \<open>k[i] + (k[j] << 8) + (k[l] << 16) + (k[m] << 24)\<close> of the unaligned paths.\<close>

definition sum_bytes :: "u8 list \<Rightarrow> nat \<Rightarrow> nat \<Rightarrow> nat \<Rightarrow> nat \<Rightarrow> u32 option" where
  "sum_bytes k i j l m = do {
     b0 \<leftarrow> arr_get k i; b1 \<leftarrow> arr_get k j; b2 \<leftarrow> arr_get k l; b3 \<leftarrow> arr_get k m;
     Some (ucast b0 + push_bit 8 (ucast b1) + push_bit 16 (ucast b2) + push_bit 24 (ucast b3)) }"

function hash_loop_unaligned :: "bool \<Rightarrow> u8 list \<Rightarrow> hash_state \<Rightarrow> nat \<Rightarrow> nat \<Rightarrow> (hash_state \<times> nat \<times> nat) option" where
  "hash_loop_unaligned be k s p len =
     (if 12 \<le> len then do {
        let (a, b, c) = s;
        a' \<leftarrow> (if be then sum_bytes k (p + 3) (p + 2) (p + 1) p else sum_bytes k p (p + 1) (p + 2) (p + 3));
        b' \<leftarrow> (if be then sum_bytes k (p + 7) (p + 6) (p + 5) (p + 4)
               else sum_bytes k (p + 4) (p + 5) (p + 6) (p + 7));
        c' \<leftarrow> (if be then sum_bytes k (p + 11) (p + 10) (p + 9) (p + 8)
               else sum_bytes k (p + 8) (p + 9) (p + 10) (p + 11));
        hash_loop_unaligned be k (mix (a + a', b + b', c + c')) (p + 12) (len - 12) }
      else Some (s, p, len))"
  by pat_completeness auto
termination by (relation "measure (\<lambda>(_, _, _, _, len). len)") auto

declare hash_loop_aligned.simps [simp del] hash_loop_unaligned.simps [simp del]

text \<open>
  The four \<open>switch\<close> statements over the last bytes.  A label is reached by falling through from
  every greater one up to the last \<open>break\<close>.
\<close>

definition tail_aligned_be :: "u8 list \<Rightarrow> hash_state \<Rightarrow> nat \<Rightarrow> nat \<Rightarrow> hash_state option" where
  "tail_aligned_be k = (\<lambda>(a, b, c) p len.
     if 8 \<le> len then do {
       c \<leftarrow> add_byte (11 \<le> len) k (p + 10) 8 c;
       c \<leftarrow> add_byte (10 \<le> len) k (p + 9) 16 c;
       c \<leftarrow> add_byte (9 \<le> len) k (p + 8) 24 c;
       b' \<leftarrow> fetch True k (p + 4);
       a' \<leftarrow> fetch True k p;
       Some (a + a', b + b', c) }
     else if 4 \<le> len then do {
       b \<leftarrow> add_byte (7 \<le> len) k (p + 6) 8 b;
       b \<leftarrow> add_byte (6 \<le> len) k (p + 5) 16 b;
       b \<leftarrow> add_byte (5 \<le> len) k (p + 4) 24 b;
       a' \<leftarrow> fetch True k p;
       Some (a + a', b, c) }
     else do {
       a \<leftarrow> add_byte (3 \<le> len) k (p + 2) 8 a;
       a \<leftarrow> add_byte (2 \<le> len) k (p + 1) 16 a;
       a \<leftarrow> add_byte (1 \<le> len) k p 24 a;
       Some (a, b, c) })"

definition tail_aligned_le :: "u8 list \<Rightarrow> hash_state \<Rightarrow> nat \<Rightarrow> nat \<Rightarrow> hash_state option" where
  "tail_aligned_le k = (\<lambda>(a, b, c) p len.
     if 8 \<le> len then do {
       c \<leftarrow> add_byte (11 \<le> len) k (p + 10) 24 c;
       c \<leftarrow> add_byte (10 \<le> len) k (p + 9) 16 c;
       c \<leftarrow> add_byte (9 \<le> len) k (p + 8) 8 c;
       b' \<leftarrow> fetch False k (p + 4);
       a' \<leftarrow> fetch False k p;
       Some (a + a', b + b', c) }
     else if 4 \<le> len then do {
       b \<leftarrow> add_byte (7 \<le> len) k (p + 6) 16 b;
       b \<leftarrow> add_byte (6 \<le> len) k (p + 5) 8 b;
       b \<leftarrow> add_byte (5 \<le> len) k (p + 4) 0 b;
       a' \<leftarrow> fetch False k p;
       Some (a + a', b, c) }
     else do {
       a \<leftarrow> add_byte (3 \<le> len) k (p + 2) 16 a;
       a \<leftarrow> add_byte (2 \<le> len) k (p + 1) 8 a;
       a \<leftarrow> add_byte (1 \<le> len) k p 0 a;
       Some (a, b, c) })"

definition tail_unaligned_be :: "u8 list \<Rightarrow> hash_state \<Rightarrow> nat \<Rightarrow> nat \<Rightarrow> hash_state option" where
  "tail_unaligned_be k = (\<lambda>(a, b, c) p len. do {
     c \<leftarrow> add_byte (11 \<le> len) k (p + 10) 8 c;
     c \<leftarrow> add_byte (10 \<le> len) k (p + 9) 16 c;
     c \<leftarrow> add_byte (9 \<le> len) k (p + 8) 24 c;
     b \<leftarrow> add_byte (8 \<le> len) k (p + 7) 0 b;
     b \<leftarrow> add_byte (7 \<le> len) k (p + 6) 8 b;
     b \<leftarrow> add_byte (6 \<le> len) k (p + 5) 16 b;
     b \<leftarrow> add_byte (5 \<le> len) k (p + 4) 24 b;
     a \<leftarrow> add_byte (4 \<le> len) k (p + 3) 0 a;
     a \<leftarrow> add_byte (3 \<le> len) k (p + 2) 8 a;
     a \<leftarrow> add_byte (2 \<le> len) k (p + 1) 16 a;
     a \<leftarrow> add_byte (1 \<le> len) k p 24 a;
     Some (a, b, c) })"

definition tail_unaligned_le :: "u8 list \<Rightarrow> hash_state \<Rightarrow> nat \<Rightarrow> nat \<Rightarrow> hash_state option" where
  "tail_unaligned_le k = (\<lambda>(a, b, c) p len. do {
     c \<leftarrow> add_byte (11 \<le> len) k (p + 10) 24 c;
     c \<leftarrow> add_byte (10 \<le> len) k (p + 9) 16 c;
     c \<leftarrow> add_byte (9 \<le> len) k (p + 8) 8 c;
     b \<leftarrow> add_byte (8 \<le> len) k (p + 7) 24 b;
     b \<leftarrow> add_byte (7 \<le> len) k (p + 6) 16 b;
     b \<leftarrow> add_byte (6 \<le> len) k (p + 5) 8 b;
     b \<leftarrow> add_byte (5 \<le> len) k (p + 4) 0 b;
     a \<leftarrow> add_byte (4 \<le> len) k (p + 3) 24 a;
     a \<leftarrow> add_byte (3 \<le> len) k (p + 2) 16 a;
     a \<leftarrow> add_byte (2 \<le> len) k (p + 1) 8 a;
     a \<leftarrow> add_byte (1 \<le> len) k p 0 a;
     Some (a, b, c) })"

definition hash_key :: "bool \<Rightarrow> bool \<Rightarrow> u8 list \<Rightarrow> nat \<Rightarrow> hash_state \<Rightarrow> hash_state option" where
  "hash_key be aligned k len s =
     (if aligned then do {
        (s, p, len) \<leftarrow> hash_loop_aligned be k s 0 len;
        (if be then tail_aligned_be k s p len else tail_aligned_le k s p len) }
      else do {
        (s, p, len) \<leftarrow> hash_loop_unaligned be k s 0 len;
        (if be then tail_unaligned_be k s p len else tail_unaligned_le k s p len) })"

definition hash_init :: "nat \<Rightarrow> hash_state" where
  "hash_init len = (let x = 0x9e3779b9 + of_nat len + 3923095 in (x, x, x))"

definition hash_any :: "bool \<Rightarrow> bool \<Rightarrow> u8 list \<Rightarrow> nat \<Rightarrow> u32 option" where
  "hash_any be aligned k keylen = do {
     s \<leftarrow> hash_key be aligned k keylen (hash_init keylen);
     let (a, b, c) = final s;
     Some c }"

definition hash_seed :: "u64 \<Rightarrow> hash_state \<Rightarrow> hash_state" where
  "hash_seed seed = (\<lambda>(a, b, c).
     if seed \<noteq> 0 then mix (a + ucast (drop_bit 32 seed), b + ucast seed, c) else (a, b, c))"

text \<open>\<open>hash_any_extended\<close> has loops and \<open>switch\<close> statements of its own.\<close>

function loop_aligned_extended :: "bool \<Rightarrow> u8 list \<Rightarrow> hash_state \<Rightarrow> nat \<Rightarrow> nat \<Rightarrow> (hash_state \<times> nat \<times> nat) option" where
  "loop_aligned_extended be k s p len =
     (if 12 \<le> len then do {
        let (a, b, c) = s;
        a' \<leftarrow> fetch be k p;
        b' \<leftarrow> fetch be k (p + 4);
        c' \<leftarrow> fetch be k (p + 8);
        loop_aligned_extended be k (mix (a + a', b + b', c + c')) (p + 12) (len - 12) }
      else Some (s, p, len))"
  by pat_completeness auto
termination by (relation "measure (\<lambda>(_, _, _, _, len). len)") auto

function loop_unaligned_extended :: "bool \<Rightarrow> u8 list \<Rightarrow> hash_state \<Rightarrow> nat \<Rightarrow> nat \<Rightarrow> (hash_state \<times> nat \<times> nat) option" where
  "loop_unaligned_extended be k s p len =
     (if 12 \<le> len then do {
        let (a, b, c) = s;
        a' \<leftarrow> (if be then sum_bytes k (p + 3) (p + 2) (p + 1) p else sum_bytes k p (p + 1) (p + 2) (p + 3));
        b' \<leftarrow> (if be then sum_bytes k (p + 7) (p + 6) (p + 5) (p + 4)
               else sum_bytes k (p + 4) (p + 5) (p + 6) (p + 7));
        c' \<leftarrow> (if be then sum_bytes k (p + 11) (p + 10) (p + 9) (p + 8)
               else sum_bytes k (p + 8) (p + 9) (p + 10) (p + 11));
        loop_unaligned_extended be k (mix (a + a', b + b', c + c')) (p + 12) (len - 12) }
      else Some (s, p, len))"
  by pat_completeness auto
termination by (relation "measure (\<lambda>(_, _, _, _, len). len)") auto

definition tail_aligned_be_extended :: "u8 list \<Rightarrow> hash_state \<Rightarrow> nat \<Rightarrow> nat \<Rightarrow> hash_state option" where
  "tail_aligned_be_extended k = (\<lambda>(a, b, c) p len.
     if 8 \<le> len then do {
       c \<leftarrow> add_byte (11 \<le> len) k (p + 10) 8 c;
       c \<leftarrow> add_byte (10 \<le> len) k (p + 9) 16 c;
       c \<leftarrow> add_byte (9 \<le> len) k (p + 8) 24 c;
       b' \<leftarrow> fetch True k (p + 4);
       a' \<leftarrow> fetch True k p;
       Some (a + a', b + b', c) }
     else if 4 \<le> len then do {
       b \<leftarrow> add_byte (7 \<le> len) k (p + 6) 8 b;
       b \<leftarrow> add_byte (6 \<le> len) k (p + 5) 16 b;
       b \<leftarrow> add_byte (5 \<le> len) k (p + 4) 24 b;
       a' \<leftarrow> fetch True k p;
       Some (a + a', b, c) }
     else do {
       a \<leftarrow> add_byte (3 \<le> len) k (p + 2) 8 a;
       a \<leftarrow> add_byte (2 \<le> len) k (p + 1) 16 a;
       a \<leftarrow> add_byte (1 \<le> len) k p 24 a;
       Some (a, b, c) })"

definition tail_aligned_le_extended :: "u8 list \<Rightarrow> hash_state \<Rightarrow> nat \<Rightarrow> nat \<Rightarrow> hash_state option" where
  "tail_aligned_le_extended k = (\<lambda>(a, b, c) p len.
     if 8 \<le> len then do {
       c \<leftarrow> add_byte (11 \<le> len) k (p + 10) 24 c;
       c \<leftarrow> add_byte (10 \<le> len) k (p + 9) 16 c;
       c \<leftarrow> add_byte (9 \<le> len) k (p + 8) 8 c;
       b' \<leftarrow> fetch False k (p + 4);
       a' \<leftarrow> fetch False k p;
       Some (a + a', b + b', c) }
     else if 4 \<le> len then do {
       b \<leftarrow> add_byte (7 \<le> len) k (p + 6) 16 b;
       b \<leftarrow> add_byte (6 \<le> len) k (p + 5) 8 b;
       b \<leftarrow> add_byte (5 \<le> len) k (p + 4) 0 b;
       a' \<leftarrow> fetch False k p;
       Some (a + a', b, c) }
     else do {
       a \<leftarrow> add_byte (3 \<le> len) k (p + 2) 16 a;
       a \<leftarrow> add_byte (2 \<le> len) k (p + 1) 8 a;
       a \<leftarrow> add_byte (1 \<le> len) k p 0 a;
       Some (a, b, c) })"

definition tail_unaligned_be_extended :: "u8 list \<Rightarrow> hash_state \<Rightarrow> nat \<Rightarrow> nat \<Rightarrow> hash_state option" where
  "tail_unaligned_be_extended k = (\<lambda>(a, b, c) p len. do {
     c \<leftarrow> add_byte (11 \<le> len) k (p + 10) 8 c;
     c \<leftarrow> add_byte (10 \<le> len) k (p + 9) 16 c;
     c \<leftarrow> add_byte (9 \<le> len) k (p + 8) 24 c;
     b \<leftarrow> add_byte (8 \<le> len) k (p + 7) 0 b;
     b \<leftarrow> add_byte (7 \<le> len) k (p + 6) 8 b;
     b \<leftarrow> add_byte (6 \<le> len) k (p + 5) 16 b;
     b \<leftarrow> add_byte (5 \<le> len) k (p + 4) 24 b;
     a \<leftarrow> add_byte (4 \<le> len) k (p + 3) 0 a;
     a \<leftarrow> add_byte (3 \<le> len) k (p + 2) 8 a;
     a \<leftarrow> add_byte (2 \<le> len) k (p + 1) 16 a;
     a \<leftarrow> add_byte (1 \<le> len) k p 24 a;
     Some (a, b, c) })"

definition tail_unaligned_le_extended :: "u8 list \<Rightarrow> hash_state \<Rightarrow> nat \<Rightarrow> nat \<Rightarrow> hash_state option" where
  "tail_unaligned_le_extended k = (\<lambda>(a, b, c) p len. do {
     c \<leftarrow> add_byte (11 \<le> len) k (p + 10) 24 c;
     c \<leftarrow> add_byte (10 \<le> len) k (p + 9) 16 c;
     c \<leftarrow> add_byte (9 \<le> len) k (p + 8) 8 c;
     b \<leftarrow> add_byte (8 \<le> len) k (p + 7) 24 b;
     b \<leftarrow> add_byte (7 \<le> len) k (p + 6) 16 b;
     b \<leftarrow> add_byte (6 \<le> len) k (p + 5) 8 b;
     b \<leftarrow> add_byte (5 \<le> len) k (p + 4) 0 b;
     a \<leftarrow> add_byte (4 \<le> len) k (p + 3) 24 a;
     a \<leftarrow> add_byte (3 \<le> len) k (p + 2) 16 a;
     a \<leftarrow> add_byte (2 \<le> len) k (p + 1) 8 a;
     a \<leftarrow> add_byte (1 \<le> len) k p 0 a;
     Some (a, b, c) })"

definition hash_key_extended :: "bool \<Rightarrow> bool \<Rightarrow> u8 list \<Rightarrow> nat \<Rightarrow> hash_state \<Rightarrow> hash_state option" where
  "hash_key_extended be aligned k len s =
     (if aligned then do {
        (s, p, len) \<leftarrow> loop_aligned_extended be k s 0 len;
        (if be then tail_aligned_be_extended k s p len else tail_aligned_le_extended k s p len) }
      else do {
        (s, p, len) \<leftarrow> loop_unaligned_extended be k s 0 len;
        (if be then tail_unaligned_be_extended k s p len else tail_unaligned_le_extended k s p len) })"

declare loop_aligned_extended.simps [simp del] loop_unaligned_extended.simps [simp del]

definition hash_any_extended :: "bool \<Rightarrow> bool \<Rightarrow> u8 list \<Rightarrow> nat \<Rightarrow> u64 \<Rightarrow> u64 option" where
  "hash_any_extended be aligned k keylen seed = do {
     s \<leftarrow> hash_key_extended be aligned k keylen (hash_seed seed (hash_init keylen));
     let (a, b, c) = final s;
     Some (push_bit 32 (ucast b) OR ucast c) }"

definition hash_uint32 :: "u32 \<Rightarrow> u32" where
  "hash_uint32 k =
     (let (a, b, c) = hash_init 4;
          a = a + k;
          (a, b, c) = final (a, b, c)
      in c)"

definition hash_uint32_extended :: "u32 \<Rightarrow> u64 \<Rightarrow> u64" where
  "hash_uint32_extended k seed =
     (let (a, b, c) = hash_seed seed (hash_init 4);
          a = a + k;
          (a, b, c) = final (a, b, c)
      in push_bit 32 (ucast b) OR ucast c)"

text \<open>The functions per data type.\<close>

definition hashchar :: "u8 \<Rightarrow> u32" where "hashchar x = hash_uint32 (scast x)"

definition hashcharextended :: "u8 \<Rightarrow> u64 \<Rightarrow> u64" where
  "hashcharextended x seed = hash_uint32_extended (scast x) seed"

definition hashint2 :: "u16 \<Rightarrow> u32" where "hashint2 x = hash_uint32 (scast x)"

definition hashint2extended :: "u16 \<Rightarrow> u64 \<Rightarrow> u64" where
  "hashint2extended x seed = hash_uint32_extended (scast x) seed"

definition hashint4 :: "u32 \<Rightarrow> u32" where "hashint4 x = hash_uint32 x"

definition hashint4extended :: "u32 \<Rightarrow> u64 \<Rightarrow> u64" where
  "hashint4extended x seed = hash_uint32_extended x seed"

definition int8_fold :: "u64 \<Rightarrow> u32" where
  "int8_fold val =
     (let lohalf = ucast val; hihalf = ucast (signed_drop_bit 32 val)
      in lohalf XOR (if 0 \<le> sint val then hihalf else NOT hihalf))"

definition hashint8 :: "u64 \<Rightarrow> u32" where "hashint8 val = hash_uint32 (int8_fold val)"

definition hashint8extended :: "u64 \<Rightarrow> u64 \<Rightarrow> u64" where
  "hashint8extended val seed = hash_uint32_extended (int8_fold val) seed"

definition hashoid :: "u32 \<Rightarrow> u32" where "hashoid x = hash_uint32 x"

definition hashoidextended :: "u32 \<Rightarrow> u64 \<Rightarrow> u64" where
  "hashoidextended x seed = hash_uint32_extended x seed"

definition hashenum :: "u32 \<Rightarrow> u32" where "hashenum x = hash_uint32 x"

definition hashenumextended :: "u32 \<Rightarrow> u64 \<Rightarrow> u64" where
  "hashenumextended x seed = hash_uint32_extended x seed"

definition bytes64 :: "bool \<Rightarrow> u64 \<Rightarrow> u8 list" where
  "bytes64 be w = (let bs = map (\<lambda>i. ucast (drop_bit (8 * i) w)) [0..<8] in if be then rev bs else bs)"

text \<open>
  A floating-point number is its bit pattern: sign, exponent and fraction.  Its value is given in units of \<open>2^-1074\<close>,
  the smallest positive \<open>float8\<close>, so that it is an integer; the infinities lie one exponent beyond the finite numbers,
  and NaN has no value.
\<close>

definition float8_value :: "u64 \<Rightarrow> int option" where
  "float8_value x =
     (let s = unat x div 2 ^ 63; e = unat x div 2 ^ 52 mod 2 ^ 11; f = unat x mod 2 ^ 52 in
      if e = 2047 \<and> f \<noteq> 0 then None
      else Some ((- 1) ^ s * (if e = 0 then int f else (2 ^ 52 + int f) * 2 ^ (e - 1))))"

definition float4_value :: "u32 \<Rightarrow> int option" where
  "float4_value x =
     (let s = unat x div 2 ^ 31; e = unat x div 2 ^ 23 mod 2 ^ 8; f = unat x mod 2 ^ 23 in
      if e = 255 \<and> f \<noteq> 0 then None
      else Some ((- 1) ^ s * (if e = 255 then 2 ^ 52 * 2 ^ 2046 else if e = 0 then int f * 2 ^ 925
        else (2 ^ 23 + int f) * 2 ^ (e + 924))))"

text \<open>The conversion from \<open>float4\<close> to \<open>float8\<close>, which normalises a subnormal number; the payload of a NaN is kept.\<close>

fun top_bit :: "nat \<Rightarrow> nat" where
  "top_bit n = (if n < 2 then 0 else Suc (top_bit (n div 2)))"

declare top_bit.simps [simp del]

definition float8_bits :: "nat \<Rightarrow> nat \<Rightarrow> nat \<Rightarrow> u64" where
  "float8_bits s e f = of_nat (s * 2 ^ 63 + e * 2 ^ 52 + f)"

definition float8_of_float4 :: "u32 \<Rightarrow> u64" where
  "float8_of_float4 x =
     (let s = unat x div 2 ^ 31; e = unat x div 2 ^ 23 mod 2 ^ 8; f = unat x mod 2 ^ 23 in
      if e = 255 then float8_bits s 2047 (f * 2 ^ 29)
      else if e = 0 then
        if f = 0 then float8_bits s 0 0
        else float8_bits s (top_bit f + 874) ((f - 2 ^ top_bit f) * 2 ^ (52 - top_bit f))
      else float8_bits s (e + 896) (f * 2 ^ 29))"

definition hashfloat4 :: "bool \<Rightarrow> bool \<Rightarrow> u32 \<Rightarrow> u32 option" where
  "hashfloat4 be aligned key =
     (if float4_value key = Some 0 then Some 0
      else do { let key8 = float8_of_float4 key; hash_any be aligned (bytes64 be key8) 8 })"

definition hashfloat4extended :: "bool \<Rightarrow> bool \<Rightarrow> u32 \<Rightarrow> u64 \<Rightarrow> u64 option" where
  "hashfloat4extended be aligned key seed =
     (if float4_value key = Some 0 then Some seed
      else do { let key8 = float8_of_float4 key; hash_any_extended be aligned (bytes64 be key8) 8 seed })"

definition hashfloat8 :: "bool \<Rightarrow> bool \<Rightarrow> u64 \<Rightarrow> u32 option" where
  "hashfloat8 be aligned key =
     (if float8_value key = Some 0 then Some 0 else hash_any be aligned (bytes64 be key) 8)"

definition hashfloat8extended :: "bool \<Rightarrow> bool \<Rightarrow> u64 \<Rightarrow> u64 \<Rightarrow> u64 option" where
  "hashfloat8extended be aligned key seed =
     (if float8_value key = Some 0 then Some seed else hash_any_extended be aligned (bytes64 be key) 8 seed)"

definition hashoidvector :: "bool \<Rightarrow> bool \<Rightarrow> u32 list \<Rightarrow> nat \<Rightarrow> u32 option" where
  "hashoidvector be aligned vals dim1 = hash_any be aligned (concat (map (bytes32 be) vals)) (dim1 * 4)"

definition hashoidvectorextended :: "bool \<Rightarrow> bool \<Rightarrow> u32 list \<Rightarrow> nat \<Rightarrow> u64 \<Rightarrow> u64 option" where
  "hashoidvectorextended be aligned vals dim1 seed =
     hash_any_extended be aligned (concat (map (bytes32 be) vals)) (dim1 * 4) seed"

definition strlen :: "u8 list \<Rightarrow> nat option" where
  "strlen s = (if 0 \<in> set s then Some (length (takeWhile (\<lambda>b. b \<noteq> 0) s)) else None)"

definition hashname :: "bool \<Rightarrow> bool \<Rightarrow> u8 list \<Rightarrow> u32 option" where
  "hashname be aligned key = do { n \<leftarrow> strlen key; hash_any be aligned key n }"

definition hashnameextended :: "bool \<Rightarrow> bool \<Rightarrow> u8 list \<Rightarrow> u64 \<Rightarrow> u64 option" where
  "hashnameextended be aligned key seed = do { n \<leftarrow> strlen key; hash_any_extended be aligned key n seed }"

text \<open>A detoasted varlena value is its data bytes.\<close>

definition hashtext :: "bool \<Rightarrow> bool \<Rightarrow> u8 list \<Rightarrow> u32 option" where
  "hashtext be aligned dat = hash_any be aligned dat (length dat)"

definition hashtextextended :: "bool \<Rightarrow> bool \<Rightarrow> u8 list \<Rightarrow> u64 \<Rightarrow> u64 option" where
  "hashtextextended be aligned dat seed = hash_any_extended be aligned dat (length dat) seed"

definition hashvarlena :: "bool \<Rightarrow> bool \<Rightarrow> u8 list \<Rightarrow> u32 option" where
  "hashvarlena be aligned dat = hash_any be aligned dat (length dat)"

definition hashvarlenaextended :: "bool \<Rightarrow> bool \<Rightarrow> u8 list \<Rightarrow> u64 \<Rightarrow> u64 option" where
  "hashvarlenaextended be aligned dat seed = hash_any_extended be aligned dat (length dat) seed"

end
