(* ===== verification/Hashfunc_Correct.thy ===== *)
theory Hashfunc_Correct
  imports Hashfunc
begin

text \<open>
  Correctness of the hash functions: every code path of \<open>hash_any\<close> and of \<open>hash_any_extended\<close> computes one reference
  hash of the key, the mixing step loses nothing, and equal values of different data types hash alike.
\<close>

section \<open>Reference definitions\<close>

text \<open>
  The key is cut into blocks of twelve bytes.  A block is three words, added to the state before
  \<open>mix\<close>; the incomplete last block is padded with zeros and added before \<open>final\<close>, where the low byte
  of the third word stays free for the length.
\<close>

definition pad4 :: "u8 list \<Rightarrow> u8 list" where
  "pad4 xs = take 4 (xs @ replicate 4 0)"

definition block_words :: "bool \<Rightarrow> u8 list \<Rightarrow> hash_state" where
  "block_words be xs = (word_at be xs, word_at be (drop 4 xs), word_at be (drop 8 xs))"

definition last_words :: "bool \<Rightarrow> u8 list \<Rightarrow> hash_state" where
  "last_words be xs =
     (word_at be (pad4 xs), word_at be (pad4 (drop 4 xs)),
      word_at be (pad4 ((if be then [] else [0]) @ drop 8 xs)))"

definition add_words :: "hash_state \<Rightarrow> hash_state \<Rightarrow> hash_state" where
  "add_words = (\<lambda>(a, b, c) (x, y, z). (a + x, b + y, c + z))"

definition hash_spec :: "bool \<Rightarrow> u8 list \<Rightarrow> hash_state \<Rightarrow> hash_state" where
  "hash_spec be xs s =
     add_words (fold (\<lambda>blk s. mix (add_words s (block_words be blk))) (chunks 12 xs) s)
       (last_words be (drop (12 * (length xs div 12)) xs))"

text \<open>A seed as a block of twelve bytes, and the magnitude of a floating-point number with the given fields.\<close>

definition seed_block :: "bool \<Rightarrow> u64 \<Rightarrow> u8 list" where
  "seed_block be seed = bytes32 be (ucast (drop_bit 32 seed)) @ bytes32 be (ucast seed) @ [0, 0, 0, 0]"


definition mix_step :: "nat \<Rightarrow> hash_state \<Rightarrow> hash_state" where
  "mix_step r = (\<lambda>(x, y, z). ((x - z) XOR rot z r, y, z + y))"

definition unmix_step :: "nat \<Rightarrow> hash_state \<Rightarrow> hash_state" where
  "unmix_step r = (\<lambda>(x, y, z). let z = z - y in ((x XOR rot z r) + z, y, z))"

definition turn :: "hash_state \<Rightarrow> hash_state" where
  "turn = (\<lambda>(x, y, z). (y, z, x))"


section \<open>Fetching words\<close>

lemma sum_bytes_eq:
  "max (max i j) (max l m) < length k \<Longrightarrow> sum_bytes k i j l m = Some (word_of_bytes False (k ! i) (k ! j) (k ! l) (k ! m))"
  by (simp add: sum_bytes_def word_of_bytes_sum)

lemma word_of_bytes_swap: "word_of_bytes False b3 b2 b1 b0 = word_of_bytes True b0 b1 b2 b3"
  by (simp add: word_of_bytes_sum ac_simps)

lemma hash_loop_unaligned_eq:
  assumes "p + len \<le> length k"
  shows "hash_loop_unaligned be k s p len = hash_loop_aligned be k s p len"
  using assms
proof (induction be k s p len rule: hash_loop_aligned.induct)
  case (1 be k s p len)
  show ?case
  proof (cases "12 \<le> len")
    case True
    have 2: "sum_bytes k (q + 3) (q + 2) (q + 1) q = fetch True k q"
        "sum_bytes k q (q + 1) (q + 2) (q + 3) = fetch False k q" if "q + 4 \<le> length k" for q
      using that by (simp_all add: sum_bytes_eq fetch_def word_of_bytes_swap)
    have 3: "p + 4 \<le> length k" "(p + 4) + 4 \<le> length k" "(p + 8) + 4 \<le> length k"
      using True 1(2) by simp_all
    have n: "Suc p = p + 1" "Suc (Suc p) = p + 2" by simp_all
    have fetches: "sum_bytes k (p + 3) (p + 2) (p + 1) p = fetch True k p"
      "sum_bytes k p (p + 1) (p + 2) (p + 3) = fetch False k p"
      "sum_bytes k (p + 7) (p + 6) (p + 5) (p + 4) = fetch True k (p + 4)"
      "sum_bytes k (p + 4) (p + 5) (p + 6) (p + 7) = fetch False k (p + 4)"
      "sum_bytes k (p + 11) (p + 10) (p + 9) (p + 8) = fetch True k (p + 8)"
      "sum_bytes k (p + 8) (p + 9) (p + 10) (p + 11) = fetch False k (p + 8)"
      using 2 [OF 3(1)] 2 [OF 3(2)] 2 [OF 3(3)] by (simp_all add: ac_simps)
    obtain a b c where s: "s = (a, b, c)" by (cases s)
    show ?thesis
      using True 3 1(2)
        1(1) [OF True refl s [symmetric] refl fetch_eq [OF 3(1)] fetch_eq [OF 3(2)] fetch_eq [OF 3(3)]]
      by (subst hash_loop_unaligned.simps, subst hash_loop_aligned.simps)
        (cases be; simp add: s fetch_eq fetches [unfolded n(1) [symmetric] n(2) [symmetric]] fetches [simplified])
  next
    case False
    then show ?thesis by (simp add: hash_loop_aligned.simps hash_loop_unaligned.simps)
  qed
qed

lemma hash_loop_aligned_eq:
  assumes "p + len \<le> length k"
  shows "hash_loop_aligned be k s p len =
    Some (fold (\<lambda>blk s. mix (add_words s (block_words be blk))) (chunks 12 (take len (drop p k))) s,
      p + 12 * (len div 12), len mod 12)"
  using assms
proof (induction be k s p len rule: hash_loop_aligned.induct)
  case (1 be k s p len)
  show ?case
  proof (cases "12 \<le> len")
    case True
    obtain a b c where s: "s = (a, b, c)" by (cases s)
    let ?xs = "take len (drop p k)"
    have ch: "chunks 12 ?xs = take 12 (drop p k) # chunks 12 (take (len - 12) (drop (p + 12) k))"
      using True 1(2) by (subst chunks_Cons) (simp_all add: drop_take add.commute)
    have b: "block_words be (take 12 (drop p k)) =
        (word_at be (drop p k), word_at be (drop (p + 4) k), word_at be (drop (p + 8) k))"
      by (simp add: block_words_def word_at_def nth_append add.commute drop_take)
    have d: "len div 12 = Suc ((len - 12) div 12)" "len mod 12 = (len - 12) mod 12"
      using True by (simp_all add: le_div_geq le_mod_geq)
    show ?thesis
      using True 1(2) 1(1) [OF True refl s [symmetric] refl]
      by (subst hash_loop_aligned.simps) (simp add: s fetch_eq ch b d add_words_def)
  next
    case False
    then show ?thesis by (simp add: hash_loop_aligned.simps chunks_short)
  qed
qed

section \<open>The last bytes\<close>

lemma less_12_cases:
  fixes n :: nat
  assumes "n < 12"
  shows "n = 0 \<or> n = 1 \<or> n = 2 \<or> n = 3 \<or> n = 4 \<or> n = 5 \<or> n = 6 \<or> n = 7 \<or> n = 8 \<or> n = 9 \<or> n = 10 \<or> n = 11"
  using assms by arith

lemma take_drop_nth: "p + n \<le> length k \<Longrightarrow> take n (drop p k) = map (\<lambda>i. k ! (p + i)) [0..<n]"
  by (rule nth_equalityI) simp_all

lemmas tail_simps = take_drop_nth upt_rec last_words_def add_words_def pad4_def word_at_def word_of_bytes_sum
  add_byte_def fetch_def

lemma tail_unaligned_le_eq:
  assumes "p + len \<le> length k" "len < 12"
  shows "tail_unaligned_le k s p len = Some (add_words s (last_words False (take len (drop p k))))"
proof -
  obtain a b c where s: "s = (a, b, c)" by (cases s)
  from less_12_cases [OF assms(2)] assms(1) show ?thesis
    by (elim disjE) (simp_all add: s tail_unaligned_le_def tail_simps numeral_eq_Suc ac_simps)
qed

lemma tail_unaligned_be_eq:
  assumes "p + len \<le> length k" "len < 12"
  shows "tail_unaligned_be k s p len = Some (add_words s (last_words True (take len (drop p k))))"
proof -
  obtain a b c where s: "s = (a, b, c)" by (cases s)
  from less_12_cases [OF assms(2)] assms(1) show ?thesis
    by (elim disjE) (simp_all add: s tail_unaligned_be_def tail_simps numeral_eq_Suc ac_simps)
qed

lemma tail_aligned_le_eq:
  assumes "p + len \<le> length k" "len < 12"
  shows "tail_aligned_le k s p len = Some (add_words s (last_words False (take len (drop p k))))"
proof -
  obtain a b c where s: "s = (a, b, c)" by (cases s)
  from less_12_cases [OF assms(2)] assms(1) show ?thesis
    by (elim disjE) (simp_all add: s tail_aligned_le_def tail_simps numeral_eq_Suc ac_simps)
qed

lemma tail_aligned_be_eq:
  assumes "p + len \<le> length k" "len < 12"
  shows "tail_aligned_be k s p len = Some (add_words s (last_words True (take len (drop p k))))"
proof -
  obtain a b c where s: "s = (a, b, c)" by (cases s)
  from less_12_cases [OF assms(2)] assms(1) show ?thesis
    by (elim disjE) (simp_all add: s tail_aligned_be_def tail_simps numeral_eq_Suc ac_simps)
qed

lemma hash_key_eq:
  assumes "len \<le> length k"
  shows "hash_key be aligned k len s = Some (hash_spec be (take len k) s)"
proof -
  have loop: "hash_loop_aligned be k s 0 len =
      Some (fold (\<lambda>blk s. mix (add_words s (block_words be blk))) (chunks 12 (take len k)) s,
        12 * (len div 12), len mod 12)"
    using assms by (subst hash_loop_aligned_eq) simp_all
  have "12 * (len div 12) + len mod 12 = len" by simp
  then have le: "12 * (len div 12) + len mod 12 \<le> length k" and lt: "len mod 12 < 12"
    and rest: "take (len mod 12) (drop (12 * (len div 12)) k) = drop (12 * (len div 12)) (take len k)"
    using assms by (simp_all add: drop_take minus_mult_div_eq_mod)
  note tails = tail_aligned_be_eq [OF le lt] tail_aligned_le_eq [OF le lt]
    tail_unaligned_be_eq [OF le lt] tail_unaligned_le_eq [OF le lt]
  have unal: "hash_loop_unaligned be k s 0 len = hash_loop_aligned be k s 0 len"
    using assms by (simp add: hash_loop_unaligned_eq)
  show ?thesis
    using assms unfolding hash_key_def unal loop hash_spec_def
    by (simp add: tails rest min_absorb2)
qed

lemma hash_any_eq:
  "len \<le> length k \<Longrightarrow>
   hash_any be aligned k len = Some (snd (snd (final (hash_spec be (take len k) (hash_init len)))))"
  by (simp add: hash_any_def hash_key_eq split_def)

lemma loop_aligned_extended_eq: "loop_aligned_extended be k s p len = hash_loop_aligned be k s p len"
proof (induction be k s p len rule: hash_loop_aligned.induct)
  case (1 be k s p len)
  then show ?case
    by (subst loop_aligned_extended.simps, subst hash_loop_aligned.simps) (auto intro!: Option.bind_cong split: prod.splits)
qed

lemma loop_unaligned_extended_eq: "loop_unaligned_extended be k s p len = hash_loop_unaligned be k s p len"
proof (induction be k s p len rule: hash_loop_unaligned.induct)
  case (1 be k s p len)
  then show ?case
    by (subst loop_unaligned_extended.simps, subst hash_loop_unaligned.simps) (auto intro!: Option.bind_cong split: prod.splits)
qed

lemma tails_extended_eq:
  "tail_aligned_be_extended = tail_aligned_be" "tail_aligned_le_extended = tail_aligned_le"
  "tail_unaligned_be_extended = tail_unaligned_be" "tail_unaligned_le_extended = tail_unaligned_le"
  by (rule ext, simp only: tail_aligned_be_extended_def tail_aligned_be_def tail_aligned_le_extended_def tail_aligned_le_def
      tail_unaligned_be_extended_def tail_unaligned_be_def tail_unaligned_le_extended_def tail_unaligned_le_def)+

lemma hash_key_extended_eq: "len \<le> length k \<Longrightarrow> hash_key_extended be aligned k len s = Some (hash_spec be (take len k) s)"
  using hash_key_eq [of len k be aligned s]
  by (simp only: hash_key_extended_def hash_key_def loop_aligned_extended_eq loop_unaligned_extended_eq tails_extended_eq)

lemma hash_any_extended_eq:
  "len \<le> length k \<Longrightarrow>
   hash_any_extended be aligned k len seed =
     (let (a, b, c) = final (hash_spec be (take len k) (hash_seed seed (hash_init len)))
      in Some (push_bit 32 (ucast b) OR ucast c))"
  by (simp add: hash_any_extended_def hash_key_extended_eq split_def)

section \<open>Reversibility of mix\<close>

lemma bij_mix_step: "bij (mix_step r)"
  by (rule o_bij [of "unmix_step r"])
    (auto simp: fun_eq_iff mix_step_def unmix_step_def Let_def xor.assoc)

lemma bij_turn: "bij turn"
  by (rule o_bij [of "\<lambda>(x, y, z). (z, x, y)"]) (auto simp: fun_eq_iff turn_def)

lemma mix_conv_steps:
  "mix = turn \<circ> mix_step 4 \<circ> turn \<circ> mix_step 19 \<circ> turn \<circ> mix_step 16 \<circ>
    turn \<circ> mix_step 8 \<circ> turn \<circ> mix_step 6 \<circ> turn \<circ> mix_step 4"
  by (simp add: fun_eq_iff mix_def mix_step_def turn_def Let_def)

lemma bij_mix: "bij mix"
  unfolding mix_conv_steps by (intro bij_comp bij_mix_step bij_turn)

section \<open>Special cases\<close>

lemma hash_spec_bytes32: "hash_spec be (bytes32 be w) (a, b, c) = (a + w, b, c)"
proof -
  have "pad4 (bytes32 be w) = bytes32 be w" by (simp add: pad4_def)
  moreover have "word_at be (pad4 []) = 0" "word_at be (pad4 (if be then [] else [0])) = 0"
    by (simp_all add: pad4_def word_at_def word_of_bytes_sum numeral_eq_Suc)
  ultimately show ?thesis
    by (simp add: hash_spec_def chunks_short last_words_def word_at_bytes32 add_words_def)
qed

lemma hash_uint32_bytes: "hash_any be aligned (bytes32 be w) 4 = Some (hash_uint32 w)"
  by (simp add: hash_any_eq hash_uint32_def hash_init_def hash_spec_bytes32 Let_def split_def)

lemma hash_uint32_extended_bytes:
  "hash_any_extended be aligned (bytes32 be w) 4 seed = Some (hash_uint32_extended w seed)"
  by (cases "hash_seed seed (hash_init 4)")
    (simp add: hash_any_extended_eq hash_uint32_extended_def hash_spec_bytes32 Let_def split_def)

lemma ucast_push_or: "(ucast (push_bit 32 (ucast b :: u64) OR ucast c) :: u32) = c" for b c :: u32
  by (rule bit_word_eqI) (auto simp: bit_simps)

lemma int8_fold_scast: "int8_fold (scast x) = (x :: u32)"
proof -
  have "sint (scast x :: u64) < 0 \<longleftrightarrow> bit x 31"
    using bit_last_iff [of "scast x :: u64"] by (simp add: bit_simps)
  then show ?thesis
    by (intro bit_word_eqI) (auto simp: int8_fold_def Let_def bit_simps)
qed

lemma scast_scast_16: "(scast (scast x :: u32) :: u64) = scast (x :: u16)"
proof (rule bit_word_eqI)
  have "min 15 (min 31 n) = min 15 n" "min 31 n < 32" for n :: nat by simp_all
  then show "bit (scast (scast x :: u32) :: u64) n \<longleftrightarrow> bit (scast x :: u64) n" for n
    by (simp add: bit_simps)
qed

lemma length_bytes64 [simp]: "length (bytes64 be w) = 8"
  by (simp add: bytes64_def Let_def)






section \<open>The seed\<close>

lemma word_at_bytes32_append: "word_at be (bytes32 be w @ xs) = w"
  using word_at_take [of 4 be "bytes32 be w @ xs"] by (simp add: word_at_bytes32)

lemma hash_spec_block:
  assumes "length blk = 12"
  shows "hash_spec be (blk @ xs) s = hash_spec be xs (mix (add_words s (block_words be blk)))"
proof -
  have "12 * ((length blk + length xs) div 12) = 12 + 12 * (length xs div 12)"
    using assms div_add_self1 [of 12 "length xs"] by simp
  then show ?thesis using assms by (simp add: hash_spec_def chunks_append)
qed

lemma block_words_seed: "block_words be (seed_block be seed) = (ucast (drop_bit 32 seed), ucast seed, 0)"
proof -
  have "word_at be [0, 0, 0, 0] = 0" by (simp add: word_at_def word_of_bytes_sum)
  then show ?thesis by (simp add: block_words_def seed_block_def word_at_bytes32_append)
qed

section \<open>Floating-point numbers\<close>












section \<open>Properties\<close>

text \<open>
  C25. On either byte order and for any alignment of the key \<open>hash_any\<close> reads no byte outside the key and
  returns the reference value: words fetched at once and bytes added one by one give the same hash.
\<close>

theorem hash_any_reference:
  assumes "len \<le> length k"
  shows "hash_any be aligned k len = Some (snd (snd (final (hash_spec be (take len k) (hash_init len)))))"
  using assms by (rule hash_any_eq)

theorem hash_any_reference_witness:
  "hash_any False True (replicate 15 7) 14 = hash_any False False (replicate 15 7) 14"
  using hash_any_reference [of 14 "replicate 15 7" False True]
    hash_any_reference [of 14 "replicate 15 7" False False] by simp

text \<open>C26. The mixing step is reversible: it is a bijection on triples of words, so no block is lost before \<open>final\<close>.\<close>

theorem mix_reversible: "bij mix"
  by (rule bij_mix)

text \<open>
  C27. \<open>hash_uint32\<close> has the same result as \<open>hash_any\<close> on the bytes of its argument, and likewise the
  extended variant with every seed.
\<close>

theorem hash_uint32_same_result:
  "hash_any be aligned (bytes32 be w) 4 = Some (hash_uint32 w) \<and>
   hash_any_extended be aligned (bytes32 be w) 4 seed = Some (hash_uint32_extended w seed)"
  by (simp add: hash_uint32_bytes hash_uint32_extended_bytes)

text \<open>
  C28. \<open>hash_any_extended\<close>, with loops and \<open>switch\<close> statements of its own, agrees with \<open>hash_any\<close>: with seed zero its low
  half is the value of \<open>hash_any\<close>, and any other seed has the effect of twelve bytes hashed before the key, the two
  halves of the seed and four zeros.
\<close>

theorem hash_any_extended_seed:
  "map_option ucast (hash_any_extended be aligned k len 0) = hash_any be aligned k len \<and>
   (seed \<noteq> 0 \<and> len \<le> length k \<longrightarrow>
     hash_any_extended be aligned k len seed =
       (let (a, b, c) = final (hash_spec be (seed_block be seed @ take len k) (hash_init len))
        in Some (push_bit 32 (ucast b) OR ucast c)))"
proof
  have "hash_key_extended be aligned k len s = hash_key be aligned k len s" for s
    by (simp only: hash_key_extended_def hash_key_def loop_aligned_extended_eq loop_unaligned_extended_eq tails_extended_eq)
  then show "map_option ucast (hash_any_extended be aligned k len 0) = hash_any be aligned k len"
    by (cases "hash_key be aligned k len (hash_init len)")
      (simp_all add: hash_any_extended_def hash_any_def hash_seed_def split_def Let_def ucast_push_or)
  have "length (seed_block be seed) = 12" by (simp add: seed_block_def)
  then have "hash_spec be (seed_block be seed @ xs) (hash_init len) = hash_spec be xs (hash_seed seed (hash_init len))"
    if "seed \<noteq> 0" for xs
    using that by (simp add: hash_spec_block block_words_seed hash_seed_def add_words_def split: prod.splits)
  then show "seed \<noteq> 0 \<and> len \<le> length k \<longrightarrow> hash_any_extended be aligned k len seed =
      (let (a, b, c) = final (hash_spec be (seed_block be seed @ take len k) (hash_init len))
       in Some (push_bit 32 (ucast b) OR ucast c))"
    by (simp add: hash_any_extended_eq)
qed

theorem hash_any_extended_seed_witness:
  "hash_any_extended True False [1, 2, 3] 3 5 =
     (let (a, b, c) = final (hash_spec True ([0, 0, 0, 0, 0, 0, 0, 5, 0, 0, 0, 0] @ [1, 2, 3]) (hash_init 3))
      in Some (push_bit 32 (ucast b) OR ucast c))"
  using hash_any_extended_seed [of True False "[1, 2, 3]" 3 5] by (simp add: seed_block_def bytes32_def upt_rec)

text \<open>
  C29. Logically equal values of the three signed integer types hash alike, seeded or not, as
  cross-type hash joins need.
\<close>

theorem hash_cross_type:
  "hashint8 (scast x) = hashint4 x \<and> hashint8 (scast y) = hashint2 y \<and>
   hashint8extended (scast x) seed = hashint4extended x seed \<and>
   hashint8extended (scast y) seed = hashint2extended y seed"
  by (simp add: hashint8_def hashint4_def hashint2_def hashint8extended_def hashint4extended_def
      hashint2extended_def int8_fold_scast flip: scast_scast_16)



end
