(* ===== verification/Bitmapset.thy ===== *)
theory Bitmapset
  imports Hashfunc "HOL-Library.Signed_Division"
begin

text \<open>
  Model of \<open>other/postgresql-11.1/src/backend/nodes/bitmapset.c\<close>: sets of nonnegative integers as
  arrays of 32-bit words, where the null pointer (\<open>None\<close>) is one of the representations of the empty
  set.  \<open>elog(ERROR, ...)\<close> is the value \<open>Inl\<close> of its message; undefined behaviour, an \<open>int\<close> out of
  range included, is \<open>None\<close> of the outer option.  A function that recycles its argument is modelled
  by the set that the pointer it returns denotes; \<open>pfree\<close> has no value.
\<close>

section \<open>The code\<close>

record Bitmapset =
  nwords :: nat
  words :: "u32 list"

type_synonym bms = "Bitmapset option"

datatype BMS_Comparison = BMS_EQUAL | BMS_SUBSET1 | BMS_SUBSET2 | BMS_DIFFERENT

datatype BMS_Membership = BMS_EMPTY_SET | BMS_SINGLETON | BMS_MULTIPLE

text \<open>C division and remainder truncate towards zero; a shift by a negative amount or by 32 is undefined.\<close>

definition WORDNUM :: "int \<Rightarrow> int" where "WORDNUM x = x sdiv 32"

definition BITNUM :: "int \<Rightarrow> int" where "BITNUM x = x smod 32"

definition shl :: "u32 \<Rightarrow> int \<Rightarrow> u32 option" where
  "shl w n = (if 0 \<le> n \<and> n < 32 then Some (push_bit (nat n) w) else None)"

definition shr :: "u32 \<Rightarrow> int \<Rightarrow> u32 option" where
  "shr w n = (if 0 \<le> n \<and> n < 32 then Some (drop_bit (nat n) w) else None)"

text \<open>
  The negation of the bits is signed; PostgreSQL is built with \<open>-fwrapv\<close>, so it wraps around for the word \<open>2^31\<close>.  For
  positions and counts, which are not meant to wrap around, the model is stricter: there an overflow is \<open>None\<close>.
\<close>

definition RIGHTMOST_ONE :: "u32 \<Rightarrow> u32" where "RIGHTMOST_ONE x = x AND - x"

definition HAS_MULTIPLE_ONES :: "u32 \<Rightarrow> bool" where "HAS_MULTIPLE_ONES x \<longleftrightarrow> RIGHTMOST_ONE x \<noteq> x"

definition rightmost_one_pos :: "u8 list" where
  "rightmost_one_pos = [
    0, 0, 1, 0, 2, 0, 1, 0, 3, 0, 1, 0, 2, 0, 1, 0,
    4, 0, 1, 0, 2, 0, 1, 0, 3, 0, 1, 0, 2, 0, 1, 0,
    5, 0, 1, 0, 2, 0, 1, 0, 3, 0, 1, 0, 2, 0, 1, 0,
    4, 0, 1, 0, 2, 0, 1, 0, 3, 0, 1, 0, 2, 0, 1, 0,
    6, 0, 1, 0, 2, 0, 1, 0, 3, 0, 1, 0, 2, 0, 1, 0,
    4, 0, 1, 0, 2, 0, 1, 0, 3, 0, 1, 0, 2, 0, 1, 0,
    5, 0, 1, 0, 2, 0, 1, 0, 3, 0, 1, 0, 2, 0, 1, 0,
    4, 0, 1, 0, 2, 0, 1, 0, 3, 0, 1, 0, 2, 0, 1, 0,
    7, 0, 1, 0, 2, 0, 1, 0, 3, 0, 1, 0, 2, 0, 1, 0,
    4, 0, 1, 0, 2, 0, 1, 0, 3, 0, 1, 0, 2, 0, 1, 0,
    5, 0, 1, 0, 2, 0, 1, 0, 3, 0, 1, 0, 2, 0, 1, 0,
    4, 0, 1, 0, 2, 0, 1, 0, 3, 0, 1, 0, 2, 0, 1, 0,
    6, 0, 1, 0, 2, 0, 1, 0, 3, 0, 1, 0, 2, 0, 1, 0,
    4, 0, 1, 0, 2, 0, 1, 0, 3, 0, 1, 0, 2, 0, 1, 0,
    5, 0, 1, 0, 2, 0, 1, 0, 3, 0, 1, 0, 2, 0, 1, 0,
    4, 0, 1, 0, 2, 0, 1, 0, 3, 0, 1, 0, 2, 0, 1, 0]"

definition leftmost_one_pos :: "u8 list" where
  "leftmost_one_pos = [
    0, 0, 1, 1, 2, 2, 2, 2, 3, 3, 3, 3, 3, 3, 3, 3,
    4, 4, 4, 4, 4, 4, 4, 4, 4, 4, 4, 4, 4, 4, 4, 4,
    5, 5, 5, 5, 5, 5, 5, 5, 5, 5, 5, 5, 5, 5, 5, 5,
    5, 5, 5, 5, 5, 5, 5, 5, 5, 5, 5, 5, 5, 5, 5, 5,
    6, 6, 6, 6, 6, 6, 6, 6, 6, 6, 6, 6, 6, 6, 6, 6,
    6, 6, 6, 6, 6, 6, 6, 6, 6, 6, 6, 6, 6, 6, 6, 6,
    6, 6, 6, 6, 6, 6, 6, 6, 6, 6, 6, 6, 6, 6, 6, 6,
    6, 6, 6, 6, 6, 6, 6, 6, 6, 6, 6, 6, 6, 6, 6, 6,
    7, 7, 7, 7, 7, 7, 7, 7, 7, 7, 7, 7, 7, 7, 7, 7,
    7, 7, 7, 7, 7, 7, 7, 7, 7, 7, 7, 7, 7, 7, 7, 7,
    7, 7, 7, 7, 7, 7, 7, 7, 7, 7, 7, 7, 7, 7, 7, 7,
    7, 7, 7, 7, 7, 7, 7, 7, 7, 7, 7, 7, 7, 7, 7, 7,
    7, 7, 7, 7, 7, 7, 7, 7, 7, 7, 7, 7, 7, 7, 7, 7,
    7, 7, 7, 7, 7, 7, 7, 7, 7, 7, 7, 7, 7, 7, 7, 7,
    7, 7, 7, 7, 7, 7, 7, 7, 7, 7, 7, 7, 7, 7, 7, 7,
    7, 7, 7, 7, 7, 7, 7, 7, 7, 7, 7, 7, 7, 7, 7, 7]"

definition number_of_ones :: "u8 list" where
  "number_of_ones = [
    0, 1, 1, 2, 1, 2, 2, 3, 1, 2, 2, 3, 2, 3, 3, 4,
    1, 2, 2, 3, 2, 3, 3, 4, 2, 3, 3, 4, 3, 4, 4, 5,
    1, 2, 2, 3, 2, 3, 3, 4, 2, 3, 3, 4, 3, 4, 4, 5,
    2, 3, 3, 4, 3, 4, 4, 5, 3, 4, 4, 5, 4, 5, 5, 6,
    1, 2, 2, 3, 2, 3, 3, 4, 2, 3, 3, 4, 3, 4, 4, 5,
    2, 3, 3, 4, 3, 4, 4, 5, 3, 4, 4, 5, 4, 5, 5, 6,
    2, 3, 3, 4, 3, 4, 4, 5, 3, 4, 4, 5, 4, 5, 5, 6,
    3, 4, 4, 5, 4, 5, 5, 6, 4, 5, 5, 6, 5, 6, 6, 7,
    1, 2, 2, 3, 2, 3, 3, 4, 2, 3, 3, 4, 3, 4, 4, 5,
    2, 3, 3, 4, 3, 4, 4, 5, 3, 4, 4, 5, 4, 5, 5, 6,
    2, 3, 3, 4, 3, 4, 4, 5, 3, 4, 4, 5, 4, 5, 5, 6,
    3, 4, 4, 5, 4, 5, 5, 6, 4, 5, 5, 6, 5, 6, 6, 7,
    2, 3, 3, 4, 3, 4, 4, 5, 3, 4, 4, 5, 4, 5, 5, 6,
    3, 4, 4, 5, 4, 5, 5, 6, 4, 5, 5, 6, 5, 6, 6, 7,
    3, 4, 4, 5, 4, 5, 5, 6, 4, 5, 5, 6, 5, 6, 6, 7,
    4, 5, 5, 6, 5, 6, 6, 7, 5, 6, 6, 7, 6, 7, 7, 8]"

definition bms_copy :: "bms \<Rightarrow> bms option" where
  "bms_copy a = (case a of
     None \<Rightarrow> Some None
   | Some s \<Rightarrow> do {
       ws \<leftarrow> memcpy (replicate (nwords s) 0) 0 (words s) 0 (nwords s);
       Some (Some \<lparr>nwords = nwords s, words = ws\<rparr>) })"

definition bms_is_empty :: "bms \<Rightarrow> bool option" where
  "bms_is_empty a = (case a of
     None \<Rightarrow> Some True
   | Some s \<Rightarrow>
       loop_then (scan (\<lambda>i. do { w \<leftarrow> arr_get (words s) i; Some (w \<noteq> 0) }) [0..<nwords s] False)
         (\<lambda>_. Some True))"

definition bms_equal :: "bms \<Rightarrow> bms \<Rightarrow> bool option" where
  "bms_equal a b = (case (a, b) of
     (None, None) \<Rightarrow> Some True
   | (None, _) \<Rightarrow> bms_is_empty b
   | (_, None) \<Rightarrow> bms_is_empty a
   | (Some s, Some t) \<Rightarrow>
       let (shorter, longer) = (if nwords s \<le> nwords t then (s, t) else (t, s));
           shortlen = nwords shorter;
           longlen = nwords longer
       in loop_then
            (scan (\<lambda>i. do { x \<leftarrow> arr_get (words shorter) i; y \<leftarrow> arr_get (words longer) i; Some (x \<noteq> y) })
              [0..<shortlen] False)
            (\<lambda>_. loop_then
              (scan (\<lambda>i. do { y \<leftarrow> arr_get (words longer) i; Some (y \<noteq> 0) }) [shortlen..<longlen] False)
              (\<lambda>_. Some True)))"

definition bms_compare :: "bms \<Rightarrow> bms \<Rightarrow> int option" where
  "bms_compare a b = (case (a, b) of
     (None, _) \<Rightarrow> do { e \<leftarrow> bms_is_empty b; Some (if e then 0 else -1) }
   | (_, None) \<Rightarrow> do { e \<leftarrow> bms_is_empty a; Some (if e then 0 else 1) }
   | (Some s, Some t) \<Rightarrow>
       let shortlen = min (nwords s) (nwords t)
       in loop_then
            (scan (\<lambda>i. do { x \<leftarrow> arr_get (words s) i; Some (x \<noteq> 0) }) [shortlen..<nwords s] 1)
            (\<lambda>_. loop_then
              (scan (\<lambda>i. do { y \<leftarrow> arr_get (words t) i; Some (y \<noteq> 0) }) [shortlen..<nwords t] (-1))
              (\<lambda>_. loop_then
                (for_loop (\<lambda>i _. do {
                   aw \<leftarrow> arr_get (words s) i;
                   bw \<leftarrow> arr_get (words t) i;
                   Some (if aw \<noteq> bw then Inl (if aw > bw then 1 else -1) else Inr ()) })
                  (rev [0..<shortlen]) ())
                (\<lambda>_. Some 0))))"

definition negative_member :: string where
  "negative_member = ''negative bitmapset member not allowed''"

definition bms_make_singleton :: "int \<Rightarrow> (string + bms) option" where
  "bms_make_singleton x =
     (if x < 0 then Some (Inl negative_member)
      else do {
        let wordnum = WORDNUM x;
        bit \<leftarrow> shl 1 (BITNUM x);
        ws \<leftarrow> arr_set_int (replicate (nat (wordnum + 1)) 0) wordnum bit;
        Some (Inr (Some \<lparr>nwords = nat (wordnum + 1), words = ws\<rparr>)) })"

text \<open>The loop \<open>result->words[i] = f(result->words[i], other->words[i])\<close> for \<open>i\<close> below \<open>n\<close>.\<close>

definition combine :: "(u32 \<Rightarrow> u32 \<Rightarrow> u32) \<Rightarrow> nat \<Rightarrow> u32 list \<Rightarrow> u32 list \<Rightarrow> u32 list option" where
  "combine f n other result =
     foldM (\<lambda>i ws. do { x \<leftarrow> arr_get ws i; y \<leftarrow> arr_get other i; arr_set ws i (f x y) }) [0..<n] result"

definition bms_union :: "bms \<Rightarrow> bms \<Rightarrow> bms option" where
  "bms_union a b = (case (a, b) of
     (None, _) \<Rightarrow> bms_copy b
   | (_, None) \<Rightarrow> bms_copy a
   | (Some s, Some t) \<Rightarrow>
       let (longer, other) = (if nwords s \<le> nwords t then (t, s) else (s, t))
       in do {
            result \<leftarrow> bms_copy (Some longer);
            (case result of
               None \<Rightarrow> None
             | Some r \<Rightarrow> do {
                 ws \<leftarrow> combine (OR) (nwords other) (words other) (words r);
                 Some (Some (r\<lparr>words := ws\<rparr>)) }) })"

definition bms_intersect :: "bms \<Rightarrow> bms \<Rightarrow> bms option" where
  "bms_intersect a b = (case (a, b) of
     (Some s, Some t) \<Rightarrow>
       let (shorter, other) = (if nwords s \<le> nwords t then (s, t) else (t, s))
       in do {
            result \<leftarrow> bms_copy (Some shorter);
            (case result of
               None \<Rightarrow> None
             | Some r \<Rightarrow> do {
                 ws \<leftarrow> combine (AND) (nwords r) (words other) (words r);
                 Some (Some (r\<lparr>words := ws\<rparr>)) }) }
   | _ \<Rightarrow> Some None)"

definition bms_difference :: "bms \<Rightarrow> bms \<Rightarrow> bms option" where
  "bms_difference a b = (case (a, b) of
     (None, _) \<Rightarrow> Some None
   | (_, None) \<Rightarrow> bms_copy a
   | (Some s, Some t) \<Rightarrow> do {
       result \<leftarrow> bms_copy a;
       (case result of
          None \<Rightarrow> None
        | Some r \<Rightarrow> do {
            ws \<leftarrow> combine (\<lambda>x y. x AND NOT y) (min (nwords s) (nwords t)) (words t) (words r);
            Some (Some (r\<lparr>words := ws\<rparr>)) }) })"

definition bms_is_subset :: "bms \<Rightarrow> bms \<Rightarrow> bool option" where
  "bms_is_subset a b = (case (a, b) of
     (None, _) \<Rightarrow> Some True
   | (_, None) \<Rightarrow> bms_is_empty a
   | (Some s, Some t) \<Rightarrow>
       let shortlen = min (nwords s) (nwords t)
       in loop_then
            (scan (\<lambda>i. do { x \<leftarrow> arr_get (words s) i; y \<leftarrow> arr_get (words t) i; Some (x AND NOT y \<noteq> 0) })
              [0..<shortlen] False)
            (\<lambda>_. if nwords s > nwords t
                 then loop_then
                   (scan (\<lambda>i. do { x \<leftarrow> arr_get (words s) i; Some (x \<noteq> 0) }) [shortlen..<nwords s] False)
                   (\<lambda>_. Some True)
                 else Some True))"

text \<open>One step of \<open>bms_subset_compare\<close>: the given side has a member the other lacks.\<close>

definition subset_note ::
    "bool \<Rightarrow> BMS_Comparison \<Rightarrow> BMS_Comparison \<Rightarrow> BMS_Comparison \<Rightarrow> BMS_Comparison + BMS_Comparison" where
  "subset_note extra clash new result =
     (if extra then (if result = clash then Inl BMS_DIFFERENT else Inr new) else Inr result)"

definition bms_subset_compare :: "bms \<Rightarrow> bms \<Rightarrow> BMS_Comparison option" where
  "bms_subset_compare a b = (case (a, b) of
     (None, None) \<Rightarrow> Some BMS_EQUAL
   | (None, _) \<Rightarrow> do { e \<leftarrow> bms_is_empty b; Some (if e then BMS_EQUAL else BMS_SUBSET1) }
   | (_, None) \<Rightarrow> do { e \<leftarrow> bms_is_empty a; Some (if e then BMS_EQUAL else BMS_SUBSET2) }
   | (Some s, Some t) \<Rightarrow>
       let shortlen = min (nwords s) (nwords t)
       in loop_then
            (for_loop (\<lambda>i result. do {
               aword \<leftarrow> arr_get (words s) i;
               bword \<leftarrow> arr_get (words t) i;
               Some (case subset_note (aword AND NOT bword \<noteq> 0) BMS_SUBSET1 BMS_SUBSET2 result of
                       Inl v \<Rightarrow> Inl v
                     | Inr result \<Rightarrow> subset_note (bword AND NOT aword \<noteq> 0) BMS_SUBSET2 BMS_SUBSET1 result) })
              [0..<shortlen] BMS_EQUAL)
            (\<lambda>result.
              if nwords s > nwords t then loop_then
                (for_loop (\<lambda>i result. do {
                   x \<leftarrow> arr_get (words s) i;
                   Some (subset_note (x \<noteq> 0) BMS_SUBSET1 BMS_SUBSET2 result) }) [shortlen..<nwords s] result)
                Some
              else if nwords s < nwords t then loop_then
                (for_loop (\<lambda>i result. do {
                   y \<leftarrow> arr_get (words t) i;
                   Some (subset_note (y \<noteq> 0) BMS_SUBSET2 BMS_SUBSET1 result) }) [shortlen..<nwords t] result)
                Some
              else Some result))"

definition bms_is_member :: "int \<Rightarrow> bms \<Rightarrow> (string + bool) option" where
  "bms_is_member x a =
     (if x < 0 then Some (Inl negative_member)
      else case a of
        None \<Rightarrow> Some (Inr False)
      | Some s \<Rightarrow>
          if WORDNUM x \<ge> int (nwords s) then Some (Inr False)
          else do {
            w \<leftarrow> arr_get_int (words s) (WORDNUM x);
            bit \<leftarrow> shl 1 (BITNUM x);
            Some (Inr (w AND bit \<noteq> 0)) })"

definition bms_overlap :: "bms \<Rightarrow> bms \<Rightarrow> bool option" where
  "bms_overlap a b = (case (a, b) of
     (Some s, Some t) \<Rightarrow>
       loop_then
         (scan (\<lambda>i. do { x \<leftarrow> arr_get (words s) i; y \<leftarrow> arr_get (words t) i; Some (x AND y \<noteq> 0) })
           [0..<min (nwords s) (nwords t)] True)
         (\<lambda>_. Some False)
   | _ \<Rightarrow> Some False)"

definition bms_overlap_list :: "bms \<Rightarrow> int list \<Rightarrow> (string + bool) option" where
  "bms_overlap_list a b =
     (case a of
        None \<Rightarrow> Some (Inr False)
      | Some s \<Rightarrow>
          if b = [] then Some (Inr False)
          else loop_then
            (for_loop (\<lambda>x _.
               if x < 0 then Some (Inl (Inl negative_member))
               else if WORDNUM x < int (nwords s) then do {
                 w \<leftarrow> arr_get_int (words s) (WORDNUM x);
                 bit \<leftarrow> shl 1 (BITNUM x);
                 Some (if w AND bit \<noteq> 0 then Inl (Inr True) else Inr ()) }
               else Some (Inr ())) b ())
            (\<lambda>_. Some (Inr False)))"

definition bms_nonempty_difference :: "bms \<Rightarrow> bms \<Rightarrow> bool option" where
  "bms_nonempty_difference a b = (case (a, b) of
     (None, _) \<Rightarrow> Some False
   | (_, None) \<Rightarrow> do { e \<leftarrow> bms_is_empty a; Some (\<not> e) }
   | (Some s, Some t) \<Rightarrow>
       let shortlen = min (nwords s) (nwords t)
       in loop_then
            (scan (\<lambda>i. do { x \<leftarrow> arr_get (words s) i; y \<leftarrow> arr_get (words t) i; Some (x AND NOT y \<noteq> 0) })
              [0..<shortlen] True)
            (\<lambda>_. loop_then
              (scan (\<lambda>i. do { x \<leftarrow> arr_get (words s) i; Some (x \<noteq> 0) }) [shortlen..<nwords s] True)
              (\<lambda>_. Some False)))"

text \<open>The loop \<open>while ((w & 255) == 0)\<close> and the lookup after it; it runs forever when \<open>w\<close> is zero.\<close>

partial_function (option) skip_bytes :: "u32 \<Rightarrow> int \<Rightarrow> (u32 \<times> int) option" where
  "skip_bytes w result =
     (if w AND 255 = 0 then do { r \<leftarrow> int32 (result + 8); skip_bytes (drop_bit 8 w) r }
      else Some (w, result))"

definition rightmost_pos :: "u32 \<Rightarrow> nat \<Rightarrow> int option" where
  "rightmost_pos w wordnum = do {
     result \<leftarrow> int32 (int wordnum * 32);
     (w, result) \<leftarrow> skip_bytes w result;
     pos \<leftarrow> arr_get rightmost_one_pos (unat (w AND 255));
     int32 (result + uint pos) }"

definition bms_singleton_member :: "bms \<Rightarrow> (string + int) option" where
  "bms_singleton_member a = (case a of
     None \<Rightarrow> Some (Inl ''bitmapset is empty'')
   | Some s \<Rightarrow> loop_then
       (for_loop (\<lambda>wordnum result. do {
          w \<leftarrow> arr_get (words s) wordnum;
          if w \<noteq> 0 then
            if result \<ge> 0 \<or> HAS_MULTIPLE_ONES w
            then Some (Inl (Inl ''bitmapset has multiple members''))
            else map_option Inr (rightmost_pos w wordnum)
          else Some (Inr result) }) [0..<nwords s] (-1))
       (\<lambda>result. Some (if result < 0 then Inl ''bitmapset is empty'' else Inr result)))"

text \<open>The output parameter \<open>*member\<close> is an argument and part of the result.\<close>

definition bms_get_singleton_member :: "bms \<Rightarrow> int \<Rightarrow> (bool \<times> int) option" where
  "bms_get_singleton_member a member = (case a of
     None \<Rightarrow> Some (False, member)
   | Some s \<Rightarrow> loop_then
       (for_loop (\<lambda>wordnum result. do {
          w \<leftarrow> arr_get (words s) wordnum;
          if w \<noteq> 0 then
            if result \<ge> 0 \<or> HAS_MULTIPLE_ONES w
            then Some (Inl (False, member))
            else map_option Inr (rightmost_pos w wordnum)
          else Some (Inr result) }) [0..<nwords s] (-1))
       (\<lambda>result. Some (if result < 0 then (False, member) else (True, result))))"

function count_ones :: "u32 \<Rightarrow> int \<Rightarrow> int option" where
  "count_ones w result =
     (if w \<noteq> 0 then do {
        n \<leftarrow> arr_get number_of_ones (unat (w AND 255));
        result \<leftarrow> int32 (result + uint n);
        count_ones (drop_bit 8 w) result }
      else Some result)"
  by pat_completeness auto
termination by (relation "measure (\<lambda>(w, _). unat w)") (simp_all add: drop_bit_8_less)

declare count_ones.simps [simp del]

definition bms_num_members :: "bms \<Rightarrow> int option" where
  "bms_num_members a = (case a of
     None \<Rightarrow> Some 0
   | Some s \<Rightarrow>
       foldM (\<lambda>wordnum result. do { w \<leftarrow> arr_get (words s) wordnum; count_ones w result }) [0..<nwords s] 0)"

definition bms_membership :: "bms \<Rightarrow> BMS_Membership option" where
  "bms_membership a = (case a of
     None \<Rightarrow> Some BMS_EMPTY_SET
   | Some s \<Rightarrow> loop_then
       (for_loop (\<lambda>wordnum result. do {
          w \<leftarrow> arr_get (words s) wordnum;
          Some (if w \<noteq> 0 then
                  if result \<noteq> BMS_EMPTY_SET \<or> HAS_MULTIPLE_ONES w then Inl BMS_MULTIPLE
                  else Inr BMS_SINGLETON
                else Inr result) }) [0..<nwords s] BMS_EMPTY_SET)
       Some)"

text \<open>\<open>repalloc\<close> to \<open>n\<close> words followed by the loop that zeroes the enlarged portion.\<close>

definition enlarge :: "nat \<Rightarrow> Bitmapset \<Rightarrow> Bitmapset" where
  "enlarge n s = \<lparr>nwords = n, words = words s @ replicate (n - nwords s) 0\<rparr>"

definition bms_add_member :: "bms \<Rightarrow> int \<Rightarrow> (string + bms) option" where
  "bms_add_member a x =
     (if x < 0 then Some (Inl negative_member)
      else case a of
        None \<Rightarrow> bms_make_singleton x
      | Some s \<Rightarrow> do {
          let wordnum = WORDNUM x;
          let s = (if wordnum \<ge> int (nwords s) then enlarge (nat (wordnum + 1)) s else s);
          w \<leftarrow> arr_get_int (words s) wordnum;
          bit \<leftarrow> shl 1 (BITNUM x);
          ws \<leftarrow> arr_set_int (words s) wordnum (w OR bit);
          Some (Inr (Some (s\<lparr>words := ws\<rparr>))) })"

definition bms_del_member :: "bms \<Rightarrow> int \<Rightarrow> (string + bms) option" where
  "bms_del_member a x =
     (if x < 0 then Some (Inl negative_member)
      else case a of
        None \<Rightarrow> Some (Inr None)
      | Some s \<Rightarrow>
          if WORDNUM x < int (nwords s) then do {
            w \<leftarrow> arr_get_int (words s) (WORDNUM x);
            bit \<leftarrow> shl 1 (BITNUM x);
            ws \<leftarrow> arr_set_int (words s) (WORDNUM x) (w AND NOT bit);
            Some (Inr (Some (s\<lparr>words := ws\<rparr>))) }
          else Some (Inr (Some s)))"

definition bms_add_members :: "bms \<Rightarrow> bms \<Rightarrow> bms option" where
  "bms_add_members a b = (case (a, b) of
     (None, _) \<Rightarrow> bms_copy b
   | (_, None) \<Rightarrow> Some a
   | (Some s, Some t) \<Rightarrow>
       if nwords s < nwords t then do {
         result \<leftarrow> bms_copy b;
         (case result of
            None \<Rightarrow> None
          | Some r \<Rightarrow> do {
              ws \<leftarrow> combine (OR) (nwords s) (words s) (words r);
              Some (Some (r\<lparr>words := ws\<rparr>)) }) }
       else do {
         ws \<leftarrow> combine (OR) (nwords t) (words t) (words s);
         Some (Some (s\<lparr>words := ws\<rparr>)) })"

definition bms_add_range :: "bms \<Rightarrow> int \<Rightarrow> int \<Rightarrow> (string + bms) option" where
  "bms_add_range a lower upper =
     (if upper < lower then Some (Inr a)
      else if lower < 0 then Some (Inl negative_member)
      else do {
        let uwordnum = WORDNUM upper;
        let s = (case a of
                   None \<Rightarrow> \<lparr>nwords = nat (uwordnum + 1), words = replicate (nat (uwordnum + 1)) 0\<rparr>
                 | Some s \<Rightarrow> if uwordnum \<ge> int (nwords s) then enlarge (nat (uwordnum + 1)) s else s);
        let lwordnum = WORDNUM lower;
        lbit \<leftarrow> shl 1 (BITNUM lower);
        umask \<leftarrow> shr (NOT 0) (32 - (BITNUM upper + 1));
        let lmask = NOT (lbit - 1);
        ws \<leftarrow> (if lwordnum = uwordnum then do {
                 w \<leftarrow> arr_get_int (words s) lwordnum;
                 arr_set_int (words s) lwordnum (w OR (lmask AND umask)) }
               else do {
                 w \<leftarrow> arr_get_int (words s) lwordnum;
                 ws \<leftarrow> arr_set_int (words s) lwordnum (w OR lmask);
                 ws \<leftarrow> foldM (\<lambda>i ws. arr_set ws i (NOT 0)) [nat (lwordnum + 1)..<nat uwordnum] ws;
                 w \<leftarrow> arr_get_int ws uwordnum;
                 arr_set_int ws uwordnum (w OR umask) });
        Some (Inr (Some (s\<lparr>words := ws\<rparr>))) })"

definition bms_int_members :: "bms \<Rightarrow> bms \<Rightarrow> bms option" where
  "bms_int_members a b = (case (a, b) of
     (Some s, Some t) \<Rightarrow> do {
       let shortlen = min (nwords s) (nwords t);
       ws \<leftarrow> combine (AND) shortlen (words t) (words s);
       ws \<leftarrow> foldM (\<lambda>i ws. arr_set ws i 0) [shortlen..<nwords s] ws;
       Some (Some (s\<lparr>words := ws\<rparr>)) }
   | _ \<Rightarrow> Some None)"

definition bms_del_members :: "bms \<Rightarrow> bms \<Rightarrow> bms option" where
  "bms_del_members a b = (case (a, b) of
     (None, _) \<Rightarrow> Some None
   | (_, None) \<Rightarrow> Some a
   | (Some s, Some t) \<Rightarrow> do {
       ws \<leftarrow> combine (\<lambda>x y. x AND NOT y) (min (nwords s) (nwords t)) (words t) (words s);
       Some (Some (s\<lparr>words := ws\<rparr>)) })"

definition bms_join :: "bms \<Rightarrow> bms \<Rightarrow> bms option" where
  "bms_join a b = (case (a, b) of
     (None, _) \<Rightarrow> Some b
   | (_, None) \<Rightarrow> Some a
   | (Some s, Some t) \<Rightarrow>
       let (result, other) = (if nwords s < nwords t then (t, s) else (s, t))
       in do {
            ws \<leftarrow> combine (OR) (nwords other) (words other) (words result);
            Some (Some (result\<lparr>words := ws\<rparr>)) })"

text \<open>\<open>bms_first_member\<close> returns the member and leaves the reduced set.\<close>

definition bms_first_member :: "bms \<Rightarrow> (int \<times> bms) option" where
  "bms_first_member a = (case a of
     None \<Rightarrow> Some (-1, None)
   | Some s \<Rightarrow> loop_then
       (for_loop (\<lambda>wordnum _. do {
          w \<leftarrow> arr_get (words s) wordnum;
          if w \<noteq> 0 then do {
            let w1 = RIGHTMOST_ONE w;
            ws \<leftarrow> arr_set (words s) wordnum (w AND NOT w1);
            result \<leftarrow> rightmost_pos w1 wordnum;
            Some (Inl (result, Some (s\<lparr>words := ws\<rparr>))) }
          else Some (Inr ()) }) [0..<nwords s] ())
       (\<lambda>_. Some (-1, a)))"

definition bms_next_member :: "bms \<Rightarrow> int \<Rightarrow> int option" where
  "bms_next_member a prevbit = (case a of
     None \<Rightarrow> Some (-2)
   | Some s \<Rightarrow> do {
       prevbit \<leftarrow> int32 (prevbit + 1);
       mask \<leftarrow> shl (NOT 0) (BITNUM prevbit);
       loop_then
         (for_loop (\<lambda>wordnum mask. do {
            w \<leftarrow> arr_get_int (words s) wordnum;
            let w = w AND mask;
            if w \<noteq> 0 then map_option Inl (rightmost_pos w (nat wordnum))
            else Some (Inr (NOT 0)) }) [WORDNUM prevbit..int (nwords s) - 1] mask)
         (\<lambda>_. Some (-2)) })"

text \<open>The loop \<open>while ((w >> shift) == 0) shift -= 8;\<close> of \<open>bms_prev_member\<close>.\<close>

function find_shift :: "u32 \<Rightarrow> int \<Rightarrow> int option" where
  "find_shift w shift =
     (if 0 \<le> shift \<and> shift < 32
      then if drop_bit (nat shift) w = 0 then find_shift w (shift - 8) else Some shift
      else None)"
  by pat_completeness auto
termination by (relation "measure (\<lambda>(_, shift). nat (shift + 1))") auto

declare find_shift.simps [simp del]

definition bms_prev_member :: "bms \<Rightarrow> int \<Rightarrow> int option" where
  "bms_prev_member a prevbit = (case a of
     None \<Rightarrow> Some (-2)
   | Some s \<Rightarrow>
       if prevbit = 0 then Some (-2)
       else do {
         prevbit \<leftarrow> (if prevbit = -1 then do { n \<leftarrow> int32 (int (nwords s) * 32); Some (n - 1) }
                    else int32 (prevbit - 1));
         mask \<leftarrow> shr (NOT 0) (32 - (BITNUM prevbit + 1));
         loop_then
           (for_loop (\<lambda>wordnum mask. do {
              w \<leftarrow> arr_get_int (words s) wordnum;
              let w = w AND mask;
              if w \<noteq> 0 then do {
                result \<leftarrow> int32 (wordnum * 32);
                shift \<leftarrow> find_shift w 24;
                pos \<leftarrow> arr_get leftmost_one_pos (unat (drop_bit (nat shift) w AND 255));
                result \<leftarrow> int32 (result + (shift + uint pos));
                Some (Inl result) }
              else Some (Inr (NOT 0)) }) (rev [0..WORDNUM prevbit]) mask)
           (\<lambda>_. Some (-2)) })"

definition bms_hash_value :: "bool \<Rightarrow> bms \<Rightarrow> u32 option" where
  "bms_hash_value be a = (case a of
     None \<Rightarrow> Some 0
   | Some s \<Rightarrow> do {
       lastword \<leftarrow> loop_then
         (for_loop (\<lambda>i _. do { w \<leftarrow> arr_get (words s) i; Some (if w \<noteq> 0 then Inl (int i) else Inr ()) })
           (rev [0..<nwords s]) ())
         (\<lambda>_. Some (-1));
       if lastword < 0 then Some 0
       else hash_any be True (concat (map (bytes32 be) (words s))) (nat (lastword + 1) * 4) })"

text \<open>The loops that the comments of \<open>bms_next_member\<close> and \<open>bms_first_member\<close> prescribe, as the members they process.\<close>

partial_function (option) bms_iterate :: "bms \<Rightarrow> int \<Rightarrow> int list option" where
  "bms_iterate a x = do {
     x \<leftarrow> bms_next_member a x;
     if x \<ge> 0 then do { xs \<leftarrow> bms_iterate a x; Some (x # xs) } else Some [] }"

partial_function (option) bms_drain :: "bms \<Rightarrow> int list option" where
  "bms_drain a = do {
     (x, a) \<leftarrow> bms_first_member a;
     if x \<ge> 0 then do { xs \<leftarrow> bms_drain a; Some (x # xs) } else Some [] }"

declare bms_iterate.simps [code] bms_drain.simps [code]

end
