(* ===== verification/Bitmapset_Sets.thy ===== *)
theory Bitmapset_Sets
  imports Bitmapset
begin

text \<open>
  The set that a bitmap set denotes: \<open>members a\<close> holds the bits that are set in its words, and
  \<open>wd a i\<close> is its word \<open>i\<close>, zero past the end.  Here the operations that combine sets, the tests on
  them, and the operations on single members and ranges are described by what they do to the words.
\<close>

section \<open>Definitions\<close>

definition bms_ok :: "bms \<Rightarrow> bool" where
  "bms_ok a = (case a of
     None \<Rightarrow> True
   | Some s \<Rightarrow> length (words s) = nwords s \<and> 1 \<le> nwords s \<and> nwords s \<le> 2 ^ 26)"

text \<open>The word at an index, zero past the end, and the set of the bits that are set.\<close>

definition wd :: "bms \<Rightarrow> nat \<Rightarrow> u32" where
  "wd a i = (case a of None \<Rightarrow> 0 | Some s \<Rightarrow> if i < nwords s then words s ! i else 0)"

definition members :: "bms \<Rightarrow> nat set" where
  "members a = {x. bit (wd a (x div 32)) (x mod 32)}"

text \<open>The bits of word \<open>i\<close> that lie between \<open>l\<close> and \<open>u\<close>.\<close>

definition range_word :: "nat \<Rightarrow> nat \<Rightarrow> nat \<Rightarrow> u32" where
  "range_word l u i =
     (if i < l div 32 \<or> u div 32 < i then 0
      else (if i = l div 32 then NOT (push_bit (l mod 32) 1 - 1) else NOT 0) AND
           (if i = u div 32 then drop_bit (31 - u mod 32) (NOT 0) else NOT 0))"

section \<open>The represented set\<close>

lemma wd_None [simp]: "wd None i = 0"
  by (simp add: wd_def)

lemma wd_Some: "wd (Some s) i = (if i < nwords s then words s ! i else 0)"
  by (simp add: wd_def)

lemma bms_ok_None [simp]: "bms_ok None"
  by (simp add: bms_ok_def)

lemma bms_okD:
  assumes "bms_ok (Some s)"
  shows "length (words s) = nwords s" "1 \<le> nwords s" "nwords s \<le> 2 ^ 26"
  using assms by (simp_all add: bms_ok_def)

lemma all_div_mod_32: "(\<forall>x :: nat. P (x div 32) (x mod 32)) \<longleftrightarrow> (\<forall>i. \<forall>j<32. P i j)"
proof safe
  fix i j :: nat assume "\<forall>x. P (x div 32) (x mod 32)" and j: "j < 32"
  then have "P ((32 * i + j) div 32) ((32 * i + j) mod 32)" by blast
  then show "P i j" using j by simp
qed simp

lemma word_eq_iff_bits: "(x :: u32) = y \<longleftrightarrow> (\<forall>j<32. bit x j = bit y j)"
  by (auto intro: bit_word_eqI)

lemma word_zero_iff_bits: "(x :: u32) = 0 \<longleftrightarrow> (\<forall>j<32. \<not> bit x j)"
  by (simp add: word_eq_iff_bits)

lemma members_eq_iff: "members a = members b \<longleftrightarrow> (\<forall>i. wd a i = wd b i)"
  using all_div_mod_32 [of "\<lambda>i j. bit (wd a i) j = bit (wd b i) j"]
  by (simp add: members_def set_eq_iff word_eq_iff_bits)

lemma members_subset_iff: "members a \<subseteq> members b \<longleftrightarrow> (\<forall>i. wd a i AND NOT (wd b i) = 0)"
  using all_div_mod_32 [of "\<lambda>i j. bit (wd a i) j \<longrightarrow> bit (wd b i) j"]
  by (simp add: members_def subset_iff word_zero_iff_bits bit_and_iff bit_not_iff)

lemma members_disjoint_iff: "members a \<inter> members b = {} \<longleftrightarrow> (\<forall>i. wd a i AND wd b i = 0)"
  using all_div_mod_32 [of "\<lambda>i j. bit (wd a i) j \<longrightarrow> \<not> bit (wd b i) j"]
  by (simp add: members_def set_eq_iff word_zero_iff_bits bit_and_iff)

lemma members_empty_iff: "members a = {} \<longleftrightarrow> (\<forall>i. wd a i = 0)"
  using members_eq_iff [of a None] by (simp add: members_def)

lemma members_None [simp]: "members None = {}"
  by (simp add: members_def)

lemma members_or: "(\<And>i. wd c i = wd a i OR wd b i) \<Longrightarrow> members c = members a \<union> members b"
  by (auto simp: members_def bit_or_iff)

lemma members_and: "(\<And>i. wd c i = wd a i AND wd b i) \<Longrightarrow> members c = members a \<inter> members b"
  by (auto simp: members_def bit_and_iff)

lemma members_and_not: "(\<And>i. wd c i = wd a i AND NOT (wd b i)) \<Longrightarrow> members c = members a - members b"
  by (auto simp: members_def bit_and_iff bit_not_iff)

lemma members_less: "bms_ok (Some s) \<Longrightarrow> x \<in> members (Some s) \<Longrightarrow> x < 32 * nwords s"
  by (auto simp: members_def wd_Some split: if_splits)

lemma finite_members: "bms_ok a \<Longrightarrow> finite (members a)"
  by (cases a) (auto intro: finite_subset [of _ "{..<32 * nwords (the a)}"] simp: members_less)

section \<open>Set operations\<close>

lemma combine_ok:
  assumes "n \<le> length xs" "n \<le> length ys"
  obtains ws where "combine f n ys xs = Some ws" "length ws = length xs"
    "\<And>i. i < length xs \<Longrightarrow> ws ! i = (if i < n then f (xs ! i) (ys ! i) else xs ! i)"
proof -
  have "\<exists>ws. combine f n ys xs = Some ws \<and> length ws = length xs \<and>
    (\<forall>i<length xs. ws ! i = (if i < n then f (xs ! i) (ys ! i) else xs ! i))"
    using assms
  proof (induction n)
    case 0
    then show ?case by (simp add: combine_def)
  next
    case (Suc n)
    then obtain ws where ws: "combine f n ys xs = Some ws" "length ws = length xs"
      "\<forall>i<length xs. ws ! i = (if i < n then f (xs ! i) (ys ! i) else xs ! i)" by auto
    then have "combine f (Suc n) ys xs = Some (ws[n := f (ws ! n) (ys ! n)])"
      using Suc.prems by (simp add: combine_def foldM_append)
    with ws Suc.prems show ?case by (auto simp: nth_list_update less_Suc_eq)
  qed
  then show ?thesis using that by blast
qed

lemma bms_copy_eq: "bms_ok a \<Longrightarrow> bms_copy a = Some a"
  by (auto simp: bms_copy_def bms_ok_def split: option.splits)

text \<open>A set whose words are those of \<open>s\<close>, changed below \<open>n\<close>.\<close>

lemma combined_set:
  assumes ok: "bms_ok (Some s)" and n: "n \<le> nwords s" "n \<le> length ys"
  obtains ws where "combine f n ys (words s) = Some ws" "bms_ok (Some (s\<lparr>words := ws\<rparr>))"
    "\<And>i. wd (Some (s\<lparr>words := ws\<rparr>)) i = (if i < n then f (wd (Some s) i) (ys ! i) else wd (Some s) i)"
proof -
  note ok' = bms_okD [OF ok]
  have "n \<le> length (words s)" using ok' n by simp
  then show ?thesis using n(2)
  proof (rule combine_ok [of n "words s" ys f])
    fix ws assume "combine f n ys (words s) = Some ws" "length ws = length (words s)"
      "\<And>i. i < length (words s) \<Longrightarrow> ws ! i = (if i < n then f (words s ! i) (ys ! i) else words s ! i)"
    then show ?thesis using ok' n(1) by (intro that) (auto simp: bms_ok_def wd_Some)
  qed
qed

lemma wd_high: "nwords s \<le> i \<Longrightarrow> wd (Some s) i = 0"
  by (simp add: wd_Some)

lemma wd_low: "i < nwords s \<Longrightarrow> wd (Some s) i = words s ! i"
  by (simp add: wd_Some)

lemma or_into:
  assumes "bms_ok (Some s)" "bms_ok (Some t)" "nwords t \<le> nwords s"
  shows "\<exists>ws. combine (OR) (nwords t) (words t) (words s) = Some ws \<and>
    bms_ok (Some (s\<lparr>words := ws\<rparr>)) \<and>
    members (Some (s\<lparr>words := ws\<rparr>)) = members (Some s) \<union> members (Some t)"
proof -
  from assms(2) have len: "nwords t \<le> length (words t)" by (simp add: bms_okD)
  show ?thesis using assms(1,3) len
  proof (rule combined_set [of s "nwords t" "words t" "(OR)"])
    fix ws assume "combine (OR) (nwords t) (words t) (words s) = Some ws" "bms_ok (Some (s\<lparr>words := ws\<rparr>))"
      "\<And>i. wd (Some (s\<lparr>words := ws\<rparr>)) i =
        (if i < nwords t then wd (Some s) i OR words t ! i else wd (Some s) i)"
    then show ?thesis by (intro exI [of _ ws] conjI members_or) (auto simp: wd_low wd_high not_less)
  qed
qed

lemma bms_union_ok:
  assumes "bms_ok a" "bms_ok b"
  shows "\<exists>c. bms_union a b = Some c \<and>
    bms_ok c \<and>
    members c = members a \<union> members b"
proof (cases a; cases b)
  fix s t assume ab: "a = Some s" "b = Some t"
  show ?thesis
  proof (cases "nwords s \<le> nwords t")
    case True
    then show ?thesis using or_into [of t s] assms ab by (auto simp: bms_union_def bms_copy_eq)
  next
    case False
    then show ?thesis using or_into [of s t] assms ab by (auto simp: bms_union_def bms_copy_eq)
  qed
qed (use assms in \<open>auto simp: bms_union_def bms_copy_eq\<close>)

lemma bms_add_members_ok:
  assumes "bms_ok a" "bms_ok b"
  shows "\<exists>c. bms_add_members a b = Some c \<and>
    bms_ok c \<and>
    members c = members a \<union> members b"
proof (cases a; cases b)
  fix s t assume ab: "a = Some s" "b = Some t"
  show ?thesis
  proof (cases "nwords s < nwords t")
    case True
    then show ?thesis using or_into [of t s] assms ab by (auto simp: bms_add_members_def bms_copy_eq)
  next
    case False
    then show ?thesis using or_into [of s t] assms ab by (auto simp: bms_add_members_def bms_copy_eq)
  qed
qed (use assms in \<open>auto simp: bms_add_members_def bms_copy_eq\<close>)

lemma bms_join_ok:
  assumes "bms_ok a" "bms_ok b"
  shows "\<exists>c. bms_join a b = Some c \<and>
    bms_ok c \<and>
    members c = members a \<union> members b"
proof (cases a; cases b)
  fix s t assume ab: "a = Some s" "b = Some t"
  show ?thesis
  proof (cases "nwords s < nwords t")
    case True
    then show ?thesis using or_into [of t s] assms ab by (auto simp: bms_join_def)
  next
    case False
    then show ?thesis using or_into [of s t] assms ab by (auto simp: bms_join_def)
  qed
qed (use assms in \<open>auto simp: bms_join_def\<close>)

lemma and_into:
  assumes "bms_ok (Some s)" "bms_ok (Some t)" "nwords s \<le> nwords t"
  shows "\<exists>ws. combine (AND) (nwords s) (words t) (words s) = Some ws \<and>
    bms_ok (Some (s\<lparr>words := ws\<rparr>)) \<and>
    members (Some (s\<lparr>words := ws\<rparr>)) = members (Some s) \<inter> members (Some t)"
proof -
  have len: "nwords s \<le> length (words t)" using assms by (simp add: bms_okD)
  show ?thesis using assms(1) order_refl len
  proof (rule combined_set [of s "nwords s" "words t" "(AND)"])
    fix ws assume "combine (AND) (nwords s) (words t) (words s) = Some ws" "bms_ok (Some (s\<lparr>words := ws\<rparr>))"
      "\<And>i. wd (Some (s\<lparr>words := ws\<rparr>)) i =
        (if i < nwords s then wd (Some s) i AND words t ! i else wd (Some s) i)"
    then show ?thesis using assms(3) by (intro exI [of _ ws] conjI members_and) (auto simp: wd_low wd_high not_less)
  qed
qed

lemma bms_intersect_ok:
  assumes "bms_ok a" "bms_ok b"
  shows "\<exists>c. bms_intersect a b = Some c \<and>
    bms_ok c \<and>
    members c = members a \<inter> members b"
proof (cases a; cases b)
  fix s t assume ab: "a = Some s" "b = Some t"
  show ?thesis
  proof (cases "nwords s \<le> nwords t")
    case True
    then show ?thesis using and_into [of s t] assms ab by (auto simp: bms_intersect_def bms_copy_eq)
  next
    case False
    then show ?thesis using and_into [of t s] assms ab by (auto simp: bms_intersect_def bms_copy_eq)
  qed
qed (use assms in \<open>auto simp: bms_intersect_def\<close>)

lemma and_not_into:
  assumes "bms_ok (Some s)" "bms_ok (Some t)"
  shows "\<exists>ws. combine (\<lambda>x y. x AND NOT y) (min (nwords s) (nwords t)) (words t) (words s) = Some ws \<and>
    bms_ok (Some (s\<lparr>words := ws\<rparr>)) \<and>
    members (Some (s\<lparr>words := ws\<rparr>)) = members (Some s) - members (Some t)"
proof -
  let ?n = "min (nwords s) (nwords t)" and ?f = "\<lambda>x y :: u32. x AND NOT y"
  have len: "?n \<le> nwords s" "?n \<le> length (words t)" using assms by (simp_all add: bms_okD)
  show ?thesis using assms(1) len
  proof (rule combined_set [of s ?n "words t" ?f])
    fix ws assume "combine ?f ?n (words t) (words s) = Some ws" "bms_ok (Some (s\<lparr>words := ws\<rparr>))"
      "\<And>i. wd (Some (s\<lparr>words := ws\<rparr>)) i =
        (if i < ?n then wd (Some s) i AND NOT (words t ! i) else wd (Some s) i)"
    then show ?thesis by (intro exI [of _ ws] conjI members_and_not) (auto simp: wd_Some)
  qed
qed

lemma bms_difference_ok:
  assumes "bms_ok a" "bms_ok b"
  shows "\<exists>c. bms_difference a b = Some c \<and>
    bms_ok c \<and>
    members c = members a - members b"
proof (cases a; cases b)
  fix s t assume ab: "a = Some s" "b = Some t"
  then show ?thesis using and_not_into [of s t] assms by (auto simp: bms_difference_def bms_copy_eq)
qed (use assms in \<open>auto simp: bms_difference_def bms_copy_eq\<close>)

lemma bms_del_members_ok:
  assumes "bms_ok a" "bms_ok b"
  shows "\<exists>c. bms_del_members a b = Some c \<and>
    bms_ok c \<and>
    members c = members a - members b"
proof (cases a; cases b)
  fix s t assume ab: "a = Some s" "b = Some t"
  then show ?thesis using and_not_into [of s t] assms by (auto simp: bms_del_members_def)
qed (use assms in \<open>auto simp: bms_del_members_def\<close>)

lemma foldM_set_const:
  assumes "n \<le> length xs" "m \<le> n"
  shows "\<exists>ws. foldM (\<lambda>i ws. arr_set ws i v) [m..<n] xs = Some ws \<and> length ws = length xs \<and>
    (\<forall>i<length xs. ws ! i = (if m \<le> i \<and> i < n then v else xs ! i))"
  using assms(2,1)
proof (induction n rule: dec_induct)
  case base
  then show ?case by auto
next
  case (step k)
  then obtain ws where ws: "foldM (\<lambda>i ws. arr_set ws i v) [m..<k] xs = Some ws" "length ws = length xs"
    "\<forall>i<length xs. ws ! i = (if m \<le> i \<and> i < k then v else xs ! i)" by auto
  then have "foldM (\<lambda>i ws. arr_set ws i v) [m..<Suc k] xs = Some (ws[k := v])"
    using step by (simp add: foldM_append)
  with ws step show ?case by (auto simp: nth_list_update less_Suc_eq)
qed

lemma bms_int_members_ok:
  assumes "bms_ok a" "bms_ok b"
  shows "\<exists>c. bms_int_members a b = Some c \<and> bms_ok c \<and> members c = members a \<inter> members b"
proof (cases a; cases b)
  fix s t assume ab: "a = Some s" "b = Some t"
  let ?n = "min (nwords s) (nwords t)"
  have ok: "bms_ok (Some s)" "bms_ok (Some t)" using assms ab by simp_all
  have len: "?n \<le> length (words s)" "?n \<le> length (words t)" using ok by (simp_all add: bms_okD)
  obtain ws where ws: "combine (AND) ?n (words t) (words s) = Some ws" "length ws = length (words s)"
    "\<And>i. i < length (words s) \<Longrightarrow> ws ! i = (if i < ?n then words s ! i AND words t ! i else words s ! i)"
    by (rule combine_ok [OF len, of "(AND)"]) blast
  obtain vs where vs: "foldM (\<lambda>i ws. arr_set ws i 0) [?n..<nwords s] ws = Some vs" "length vs = length ws"
    "\<And>i. i < length ws \<Longrightarrow> vs ! i = (if ?n \<le> i \<and> i < nwords s then 0 else ws ! i)"
    using foldM_set_const [of "nwords s" ws ?n 0] ws(2) ok(1) by (auto simp: bms_okD)
  have "members (Some (s\<lparr>words := vs\<rparr>)) = members (Some s) \<inter> members (Some t)"
    using ws(2,3) vs(2,3) ok by (intro members_and) (auto simp: wd_Some bms_okD)
  then show ?thesis
    using ab ws vs ok by (simp add: bms_int_members_def bms_ok_def)
qed (use assms in \<open>auto simp: bms_int_members_def\<close>)

section \<open>Tests\<close>

lemma Bex_upt: "(\<exists>i\<in>set [m..<n]. P i) \<longleftrightarrow> (\<exists>i. m \<le> i \<and> i < n \<and> P i)"
  by auto

lemma scan_words1:
  assumes "length (words s) = nwords s" "n \<le> nwords s"
  shows "scan (\<lambda>i. do { x \<leftarrow> arr_get (words s) i; Some (p x) }) [m..<n] v =
    Some (if \<exists>i. m \<le> i \<and> i < n \<and> p (wd (Some s) i) then Inl v else Inr ())"
proof -
  have "scan (\<lambda>i. do { x \<leftarrow> arr_get (words s) i; Some (p x) }) [m..<n] v =
      Some (if \<exists>i\<in>set [m..<n]. p (wd (Some s) i) then Inl v else Inr ())"
    by (rule scan_eq) (use assms in \<open>simp add: wd_Some\<close>)
  then show ?thesis by (simp only: Bex_upt)
qed

lemma scan_words2:
  assumes "length (words s) = nwords s" "length (words t) = nwords t" "n \<le> nwords s" "n \<le> nwords t"
  shows "scan (\<lambda>i. do { x \<leftarrow> arr_get (words s) i; y \<leftarrow> arr_get (words t) i; Some (p x y) }) [0..<n] v =
    Some (if \<exists>i<n. p (wd (Some s) i) (wd (Some t) i) then Inl v else Inr ())"
proof -
  have "scan (\<lambda>i. do { x \<leftarrow> arr_get (words s) i; y \<leftarrow> arr_get (words t) i; Some (p x y) }) [0..<n] v =
      Some (if \<exists>i\<in>set [0..<n]. p (wd (Some s) i) (wd (Some t) i) then Inl v else Inr ())"
    by (rule scan_eq) (use assms in \<open>simp add: wd_Some\<close>)
  then show ?thesis by (simp only: Bex_upt) simp
qed

lemma bms_is_empty_eq: "bms_ok a \<Longrightarrow> bms_is_empty a = Some (members a = {})"
proof (cases a)
  case (Some s)
  assume "bms_ok a"
  then have ok: "length (words s) = nwords s" using Some by (simp add: bms_okD)
  have "members a \<noteq> {} \<longleftrightarrow> (\<exists>i<nwords s. wd (Some s) i \<noteq> 0)"
    unfolding members_empty_iff Some by (meson wd_high not_le_imp_less)
  then show ?thesis
    using scan_words1 [OF ok order_refl, of "\<lambda>x. x \<noteq> 0" 0 False]
    by (simp add: bms_is_empty_def Some) blast
qed (simp add: bms_is_empty_def)

lemma ex_extra_words:
  assumes "\<And>i. n \<le> i \<Longrightarrow> P i \<longleftrightarrow> Q i" "\<And>i. m \<le> i \<Longrightarrow> \<not> Q i"
  shows "(\<exists>i :: nat. P i) \<longleftrightarrow> (\<exists>i<n. P i) \<or> (\<exists>i. n \<le> i \<and> i < m \<and> Q i)"
  using assms by (metis not_le_imp_less)

lemma bms_equal_eq:
  assumes "bms_ok a" "bms_ok b"
  shows "bms_equal a b = Some (members a = members b)"
proof (cases a; cases b)
  fix s t assume ab: "a = Some s" "b = Some t"
  have main: "loop_then
      (scan (\<lambda>i. do { x \<leftarrow> arr_get (words s) i; y \<leftarrow> arr_get (words t) i; Some (x \<noteq> y) }) [0..<nwords s] False)
      (\<lambda>_. loop_then (scan (\<lambda>i. do { y \<leftarrow> arr_get (words t) i; Some (y \<noteq> 0) }) [nwords s..<nwords t] False)
        (\<lambda>_. Some True)) = Some (members (Some s) = members (Some t))"
    if ok: "bms_ok (Some s)" "bms_ok (Some t)" "nwords s \<le> nwords t" for s t
  proof -
    have "(\<exists>i. wd (Some s) i \<noteq> wd (Some t) i) \<longleftrightarrow>
        (\<exists>i<nwords s. wd (Some s) i \<noteq> wd (Some t) i) \<or>
        (\<exists>i. nwords s \<le> i \<and> i < nwords t \<and> wd (Some t) i \<noteq> 0)"
      by (rule ex_extra_words) (auto simp: wd_high)
    then have "members (Some s) \<noteq> members (Some t) \<longleftrightarrow>
        (\<exists>i<nwords s. wd (Some s) i \<noteq> wd (Some t) i) \<or>
        (\<exists>i. nwords s \<le> i \<and> i < nwords t \<and> wd (Some t) i \<noteq> 0)"
      by (simp add: members_eq_iff)
    then show ?thesis using ok by (auto simp: scan_words1 scan_words2 bms_okD)
  qed
  show ?thesis
    using main [of s t] main [of t s] assms ab by (auto simp: bms_equal_def)
qed (use assms in \<open>auto simp: bms_equal_def bms_is_empty_eq\<close>)

text \<open>The words of the first set that the second does not cover, in the order of the scans.\<close>

lemma not_subset_scan:
  "\<not> members (Some s) \<subseteq> members (Some t) \<longleftrightarrow>
    (\<exists>i<min (nwords s) (nwords t). wd (Some s) i AND NOT (wd (Some t) i) \<noteq> 0) \<or>
    (\<exists>i. min (nwords s) (nwords t) \<le> i \<and> i < nwords s \<and> wd (Some s) i \<noteq> 0)"
proof -
  have "wd (Some s) i AND NOT (wd (Some t) i) \<noteq> 0 \<longleftrightarrow> wd (Some s) i \<noteq> 0"
    if "min (nwords s) (nwords t) \<le> i" for i
    using that by (cases "nwords t \<le> i") (auto simp: wd_high min_def split: if_splits)
  then show ?thesis
    unfolding members_subset_iff not_all by (intro ex_extra_words) (auto simp: wd_high)
qed

lemma bms_is_subset_eq:
  assumes "bms_ok a" "bms_ok b"
  shows "bms_is_subset a b = Some (members a \<subseteq> members b)"
proof (cases a; cases b)
  fix s t assume ab: "a = Some s" "b = Some t"
  note ok = assms [unfolded ab, THEN bms_okD(1)]
  show ?thesis
    using ok not_subset_scan [of s t] ab
    by (auto simp: bms_is_subset_def Let_def scan_words1 scan_words2)
qed (use assms in \<open>auto simp: bms_is_subset_def bms_is_empty_eq\<close>)

lemma bms_nonempty_difference_eq:
  assumes "bms_ok a" "bms_ok b"
  shows "bms_nonempty_difference a b = Some (members a - members b \<noteq> {})"
proof (cases a; cases b)
  fix s t assume ab: "a = Some s" "b = Some t"
  note ok = assms [unfolded ab, THEN bms_okD(1)]
  have "members a - members b \<noteq> {} \<longleftrightarrow> \<not> members a \<subseteq> members b" by auto
  then show ?thesis
    using ok not_subset_scan [of s t] ab
    by (auto simp: bms_nonempty_difference_def Let_def scan_words1 scan_words2)
qed (use assms in \<open>auto simp: bms_nonempty_difference_def bms_is_empty_eq\<close>)

lemma bms_overlap_eq:
  assumes "bms_ok a" "bms_ok b"
  shows "bms_overlap a b = Some (members a \<inter> members b \<noteq> {})"
proof (cases a; cases b)
  fix s t assume ab: "a = Some s" "b = Some t"
  note ok = assms [unfolded ab, THEN bms_okD(1)]
  have "members a \<inter> members b \<noteq> {} \<longleftrightarrow> (\<exists>i<min (nwords s) (nwords t). wd a i AND wd b i \<noteq> 0)"
    unfolding members_disjoint_iff ab by (auto simp: wd_Some)
  then show ?thesis using ok ab by (auto simp: bms_overlap_def scan_words2)
qed (use assms in \<open>auto simp: bms_overlap_def\<close>)

section \<open>Single members\<close>

lemma WORDNUM_int [simp]: "WORDNUM (int n) = int (n div 32)"
  by (cases "n = 0") (simp_all add: WORDNUM_def signed_divide_int_def zdiv_int)

lemma BITNUM_int [simp]: "BITNUM (int n) = int (n mod 32)"
  by (cases "n = 0") (simp_all add: BITNUM_def signed_modulo_int_def signed_divide_int_def zmod_int
    minus_div_mult_eq_mod)

lemma shl_BITNUM [simp]: "shl w (int (n mod 32)) = Some (push_bit (n mod 32) w)"
  by (simp add: shl_def)

lemma arr_get_int_int [simp]: "arr_get_int xs (int i) = arr_get xs i"
  by (simp add: arr_get_int_def)

lemma arr_set_int_int [simp]: "arr_set_int xs (int i) v = arr_set xs i v"
  by (simp add: arr_set_int_def)

lemma set_word:
  assumes "bms_ok (Some s)" "i < nwords s"
  shows "bms_ok (Some (s\<lparr>words := (words s)[i := v]\<rparr>))"
    "wd (Some (s\<lparr>words := (words s)[i := v]\<rparr>)) j = (if j = i then v else wd (Some s) j)"
  using assms by (auto simp: bms_ok_def wd_Some nth_list_update)

lemma enlarge_ok:
  assumes "bms_ok (Some s)" "nwords s \<le> n" "n \<le> 2 ^ 26"
  shows "bms_ok (Some (enlarge n s))" "wd (Some (enlarge n s)) i = wd (Some s) i"
  using assms by (auto simp: bms_ok_def wd_Some enlarge_def nth_append)

lemma nwords_enlarge [simp]: "nwords (enlarge n s) = n"
  by (simp add: enlarge_def)

lemma same_position: "x div 32 = n div 32 \<and> x mod 32 = n mod 32 \<longleftrightarrow> x = (n :: nat)"
  by (metis div_mod_decomp)

lemma members_insert:
  assumes "\<And>j. wd c j = (if j = n div 32 then wd a j OR push_bit (n mod 32) 1 else wd a j)"
  shows "members c = insert n (members a)"
proof (rule set_eqI)
  fix x
  have "bit (wd c (x div 32)) (x mod 32) \<longleftrightarrow>
      x div 32 = n div 32 \<and> x mod 32 = n mod 32 \<or> bit (wd a (x div 32)) (x mod 32)"
    unfolding assms by (auto simp: bit_or_iff bit_exp_iff)
  then show "x \<in> members c \<longleftrightarrow> x \<in> insert n (members a)"
    unfolding same_position by (simp add: members_def)
qed

lemma members_delete:
  assumes "\<And>j. wd c j = (if j = n div 32 then wd a j AND NOT (push_bit (n mod 32) 1) else wd a j)"
  shows "members c = members a - {n}"
proof (rule set_eqI)
  fix x
  have "bit (wd c (x div 32)) (x mod 32) \<longleftrightarrow>
      bit (wd a (x div 32)) (x mod 32) \<and> \<not> (x div 32 = n div 32 \<and> x mod 32 = n mod 32)"
    unfolding assms by (auto simp: bit_and_iff bit_not_iff bit_exp_iff)
  then show "x \<in> members c \<longleftrightarrow> x \<in> members a - {n}"
    unfolding same_position by (simp add: members_def)
qed

lemma bms_is_member_eq: "bms_ok a \<Longrightarrow> bms_is_member (int n) a = Some (Inr (n \<in> members a))"
  by (cases a) (auto simp: bms_is_member_def members_def wd_Some and_exp_eq_0_iff_not_bit bms_okD)

lemma bms_make_singleton_ok:
  assumes "n < 2 ^ 31"
  shows "\<exists>c. bms_make_singleton (int n) = Some (Inr c) \<and> bms_ok c \<and> members c = {n}"
proof -
  let ?s = "\<lparr>nwords = Suc (n div 32), words = (replicate (Suc (n div 32)) 0)[n div 32 := push_bit (n mod 32) 1]\<rparr>"
  have "nat (int (n div 32) + 1) = Suc (n div 32)" by simp
  then have "bms_make_singleton (int n) = Some (Inr (Some ?s))"
    by (simp add: bms_make_singleton_def del: replicate_Suc)
  moreover have "bms_ok (Some ?s)" using assms by (simp add: bms_ok_def del: replicate_Suc)
  moreover have "members (Some ?s) = insert n (members None)"
    by (rule members_insert) (auto simp: wd_Some nth_list_update simp del: replicate_Suc)
  ultimately show ?thesis by auto
qed

lemma bms_add_member_ok:
  assumes "bms_ok a" "n < 2 ^ 31"
  shows "\<exists>c. bms_add_member a (int n) = Some (Inr c) \<and> bms_ok c \<and> members c = insert n (members a)"
proof (cases a)
  case None
  then show ?thesis using bms_make_singleton_ok [OF assms(2)] by (auto simp: bms_add_member_def)
next
  case (Some s)
  let ?i = "n div 32"
  define t where "t = (if nwords s \<le> ?i then enlarge (nat (int ?i + 1)) s else s)"
  let ?c = "Some (t\<lparr>words := (words t)[?i := words t ! ?i OR push_bit (n mod 32) 1]\<rparr>)"
  have ok: "bms_ok (Some s)" using assms Some by simp
  have i: "Suc ?i \<le> 2 ^ 26" using assms(2) by simp
  have suc: "nat (int ?i + 1) = Suc ?i" by simp
  have t: "bms_ok (Some t)" "\<And>j. wd (Some t) j = wd a j" "?i < nwords t"
    using enlarge_ok [OF ok _ i] ok Some by (auto simp: t_def suc)
  then have len: "?i < length (words t)" by (simp add: bms_okD)
  have "bms_add_member a (int n) = Some (Inr ?c)"
    using len by (simp add: bms_add_member_def Some Let_def flip: t_def split del: if_split)
  moreover have "bms_ok ?c" using set_word(1) [OF t(1,3)] .
  moreover have "members ?c = insert n (members a)"
    using t by (intro members_insert) (simp add: set_word(2) [OF t(1,3)] wd_low flip: t(2))
  ultimately show ?thesis by blast
qed

lemma bms_del_member_ok:
  assumes "bms_ok a"
  shows "\<exists>c. bms_del_member a (int n) = Some (Inr c) \<and> bms_ok c \<and> members c = members a - {n}"
proof (cases a)
  case None
  then show ?thesis by (simp add: bms_del_member_def)
next
  case (Some s)
  have ok: "bms_ok (Some s)" using assms Some by simp
  let ?i = "n div 32"
  show ?thesis
  proof (cases "?i < nwords s")
    case True
    let ?c = "Some (s\<lparr>words := (words s)[?i := words s ! ?i AND NOT (push_bit (n mod 32) 1)]\<rparr>)"
    have "bms_del_member a (int n) = Some (Inr ?c)"
      using True ok by (simp add: bms_del_member_def Some Let_def bms_okD)
    moreover have "bms_ok ?c" using set_word(1) [OF ok True] .
    moreover have "members ?c = members a - {n}"
      using True by (intro members_delete) (simp add: set_word(2) [OF ok True] wd_low Some)
    ultimately show ?thesis by blast
  next
    case False
    then have "n \<notin> members a" by (simp add: members_def Some wd_high)
    then show ?thesis using False ok by (simp add: bms_del_member_def Some)
  qed
qed

lemma bms_overlap_list_eq:
  assumes "bms_ok a"
  shows "bms_overlap_list a (map int ns) = Some (Inr (members a \<inter> set ns \<noteq> {}))"
proof (cases a)
  case (Some s)
  have ok: "length (words s) = nwords s" using assms Some by (simp add: bms_okD)
  let ?f = "\<lambda>x _. if x < 0 then Some (Inl (Inl negative_member))
               else if WORDNUM x < int (nwords s) then do {
                 w \<leftarrow> arr_get_int (words s) (WORDNUM x);
                 bit \<leftarrow> shl 1 (BITNUM x);
                 Some (if w AND bit \<noteq> 0 then Inl (Inr True) else Inr ()) }
               else Some (Inr ())"
  have "for_loop ?f (map int ns) () =
      Some (if \<exists>x\<in>set (map int ns). nat x \<in> members a then Inl (Inr True) else Inr ())"
    by (rule for_loop_search)
      (use ok in \<open>auto simp: members_def Some wd_Some and_exp_eq_0_iff_not_bit split: if_splits\<close>)
  moreover have "(\<exists>x\<in>set (map int ns). nat x \<in> members a) \<longleftrightarrow> members a \<inter> set ns \<noteq> {}" by auto
  ultimately show ?thesis by (auto simp: bms_overlap_list_def Some)
qed (simp add: bms_overlap_list_def)

text \<open>A negative member is an error that leaves nothing changed.\<close>

lemma bms_negative:
  assumes "x < 0"
  shows "bms_is_member x a = Some (Inl negative_member)"
    "bms_make_singleton x = Some (Inl negative_member)"
    "bms_add_member a x = Some (Inl negative_member)"
    "bms_del_member a x = Some (Inl negative_member)"
    "x \<le> y \<Longrightarrow> bms_add_range a x y = Some (Inl negative_member)"
  using assms by (simp_all add: bms_is_member_def bms_make_singleton_def bms_add_member_def
      bms_del_member_def bms_add_range_def)

section \<open>Ranges\<close>

lemma shr_umask:
  "shr (NOT 0) (32 - (int (n mod 32) + 1)) = Some (drop_bit (31 - n mod 32) (NOT 0))"
proof -
  have "nat (32 - (int (n mod 32) + 1)) = 31 - n mod 32" by linarith
  then show ?thesis by (simp add: shr_def)
qed

lemma le_div_mod: "(a :: nat) \<le> b \<longleftrightarrow> a div 32 < b div 32 \<or> a div 32 = b div 32 \<and> a mod 32 \<le> b mod 32"
proof -
  have "32 * i + r \<le> 32 * j + t \<longleftrightarrow> i < j \<or> i = j \<and> r \<le> t" if "r < 32" "t < 32" for i j r t :: nat
    using that by arith
  from this [of "a mod 32" "b mod 32" "a div 32" "b div 32"] show ?thesis by simp
qed

lemma members_range:
  assumes "\<And>i. wd c i = wd a i OR range_word l u i"
  shows "members c = members a \<union> {l..u}"
proof (rule set_eqI)
  fix x :: nat
  have "x mod 32 < 32" by simp
  then have "bit (range_word l u (x div 32)) (x mod 32) \<longleftrightarrow> l \<le> x \<and> x \<le> u"
    unfolding le_div_mod [of l x] le_div_mod [of x u]
    by (auto simp: range_word_def bit_and_iff bit_not_iff bit_mask_iff
        simp flip: mask_eq_exp_minus_1 split: if_splits)
  then show "x \<in> members c \<longleftrightarrow> x \<in> members a \<union> {l..u}"
    by (simp add: members_def assms bit_or_iff)
qed

lemma set_range_words:
  assumes len: "u div 32 < length ws" and lu: "l \<le> u"
  defines "lmask \<equiv> NOT (push_bit (l mod 32) 1 - 1)" and "umask \<equiv> drop_bit (31 - u mod 32) (NOT 0)"
  shows "\<exists>vs. (if l div 32 = u div 32 then arr_set ws (l div 32) (ws ! (l div 32) OR (lmask AND umask))
      else do {
        vs \<leftarrow> foldM (\<lambda>i ws. arr_set ws i (NOT 0)) [Suc (l div 32)..<u div 32]
                (ws[l div 32 := ws ! (l div 32) OR lmask]);
        w \<leftarrow> arr_get vs (u div 32);
        arr_set vs (u div 32) (w OR umask) }) = Some vs \<and>
    length vs = length ws \<and> (\<forall>i<length ws. vs ! i = ws ! i OR range_word l u i)"
proof (cases "l div 32 = u div 32")
  case True
  then show ?thesis using len
    by (auto simp: nth_list_update range_word_def lmask_def umask_def)
next
  case False
  with lu have lt: "l div 32 < u div 32" by (simp add: div_le_mono le_neq_implies_less)
  obtain vs where vs: "foldM (\<lambda>i ws. arr_set ws i (NOT 0)) [Suc (l div 32)..<u div 32]
      (ws[l div 32 := ws ! (l div 32) OR lmask]) = Some vs" "length vs = length ws"
    "\<forall>i<length ws. vs ! i = (if Suc (l div 32) \<le> i \<and> i < u div 32 then NOT 0
      else ws[l div 32 := ws ! (l div 32) OR lmask] ! i)"
    using foldM_set_const [of "u div 32" "ws[l div 32 := ws ! (l div 32) OR lmask]" "Suc (l div 32)" "NOT 0"]
      lt len by auto
  have "\<forall>i<length ws. vs[u div 32 := vs ! (u div 32) OR umask] ! i = ws ! i OR range_word l u i"
  proof (intro allI impI)
    fix i assume "i < length ws"
    then show "vs[u div 32 := vs ! (u div 32) OR umask] ! i = ws ! i OR range_word l u i"
      using vs(2,3) lt len
      by (auto simp: nth_list_update range_word_def lmask_def umask_def)
  qed
  then show ?thesis using False vs(1,2) len by auto
qed

lemma bms_add_range_ok:
  assumes "bms_ok a" "l \<le> u" "u < 2 ^ 31"
  shows "\<exists>c. bms_add_range a (int l) (int u) = Some (Inr c) \<and> bms_ok c \<and> members c = members a \<union> {l..u}"
proof -
  let ?n = "Suc (u div 32)"
  define s where "s = (case a of
      None \<Rightarrow> \<lparr>nwords = nat (int (u div 32) + 1), words = replicate (nat (int (u div 32) + 1)) 0\<rparr>
    | Some s \<Rightarrow> if int (nwords s) \<le> int (u div 32) then enlarge (nat (int (u div 32) + 1)) s else s)"
  have nat1: "nat (int k + 1) = Suc k" for k by simp
  have n: "?n \<le> 2 ^ 26" using assms(3) by simp
  have s: "bms_ok (Some s) \<and> (\<forall>i. wd (Some s) i = wd a i) \<and> u div 32 < nwords s"
  proof (cases a)
    case None
    then show ?thesis using n by (simp add: s_def nat1 bms_ok_def wd_Some del: replicate_Suc)
  next
    case (Some t)
    show ?thesis
    proof (cases "nwords t \<le> u div 32")
      case True
      then show ?thesis
        using enlarge_ok [of t ?n] n assms(1) Some by (simp add: s_def nat1)
    next
      case False
      then show ?thesis using assms(1) Some by (simp add: s_def)
    qed
  qed
  have len: "u div 32 < length (words s)" "l div 32 < length (words s)"
    using s div_le_mono [OF assms(2), of 32] by (simp_all add: bms_okD)
  obtain vs where vs: "(if l div 32 = u div 32
        then arr_set (words s) (l div 32) (words s ! (l div 32) OR
          (NOT (push_bit (l mod 32) 1 - 1) AND drop_bit (31 - u mod 32) (NOT 0)))
      else do {
        vs \<leftarrow> foldM (\<lambda>i ws. arr_set ws i (NOT 0)) [Suc (l div 32)..<u div 32]
                ((words s)[l div 32 := words s ! (l div 32) OR NOT (push_bit (l mod 32) 1 - 1)]);
        w \<leftarrow> arr_get vs (u div 32);
        arr_set vs (u div 32) (w OR drop_bit (31 - u mod 32) (NOT 0)) }) = Some vs"
      "length vs = length (words s)" "\<forall>i<length (words s). vs ! i = words s ! i OR range_word l u i"
    using set_range_words [OF len(1) assms(2)] by blast
  have "bms_add_range a (int l) (int u) = Some (Inr (Some (s\<lparr>words := vs\<rparr>)))"
    using vs(1) len assms(2)
    by (auto simp: bms_add_range_def shr_umask [simplified] nat1 Option.bind_eq_Some_conv
        simp flip: s_def split: if_splits)
  moreover have "bms_ok (Some (s\<lparr>words := vs\<rparr>))"
    using s vs(2) by (simp add: bms_ok_def)
  moreover have "members (Some (s\<lparr>words := vs\<rparr>)) = members (Some s) \<union> {l..u}"
  proof (rule members_range)
    fix i
    have "length (words s) = nwords s" "u div 32 < nwords s" using s by (simp_all add: bms_okD)
    then show "wd (Some (s\<lparr>words := vs\<rparr>)) i = wd (Some s) i OR range_word l u i"
      using vs(3) by (cases "i < nwords s") (simp_all add: wd_Some range_word_def)
  qed
  moreover have "members (Some s) = members a" using s by (simp add: members_eq_iff)
  ultimately show ?thesis by auto
qed

end
