(* ===== verification/Bitmapset_Iteration.thy ===== *)
theory Bitmapset_Iteration
  imports Bitmapset_Sets
begin

text \<open>
  Positions of bits: the lookup tables, the lowest and the highest bit of a word, the isolation of the
  lowest bit, and from them counting, the sole member, and the search for the first, next and
  previous member.
\<close>

section \<open>Definitions\<close>

text \<open>The position of the lowest bit.\<close>

definition low_bit :: "u32 \<Rightarrow> nat \<Rightarrow> bool" where
  "low_bit w p \<longleftrightarrow> bit w p \<and> (\<forall>j<p. \<not> bit w j)"

text \<open>The members that the first \<open>n\<close> words hold.\<close>

definition prefix :: "bms \<Rightarrow> nat \<Rightarrow> nat set" where
  "prefix a n = {x \<in> members a. x < 32 * n}"

definition high_bit :: "u32 \<Rightarrow> nat \<Rightarrow> bool" where
  "high_bit w p \<longleftrightarrow> bit w p \<and> (\<forall>j>p. \<not> bit w j)"

section \<open>Bits of a word\<close>

lemma rightmost_one_pos_table:
  "list_all2 (\<lambda>b p. b = 0 \<or> b mod 2 ^ nat p = 0 \<and> b div 2 ^ nat p mod 2 = 1) [0..255] (map uint rightmost_one_pos)"
  by code_simp

lemma leftmost_one_pos_table:
  "list_all2 (\<lambda>b p. b = 0 \<or> b div 2 ^ nat p = 1) [0..255] (map uint leftmost_one_pos)"
  by code_simp

lemma number_of_ones_table:
  "list_all2 (\<lambda>b p. p = b mod 2 + b div 2 mod 2 + b div 4 mod 2 + b div 8 mod 2 + b div 16 mod 2 +
     b div 32 mod 2 + b div 64 mod 2 + b div 128 mod 2) [0..255] (map uint number_of_ones)"
  by code_simp


lemma table_nth:
  assumes "list_all2 P [0..255] (map uint (t :: u8 list))" "b < 256"
  shows "P (int b) (uint (t ! b))" "length t = 256"
proof -
  show len: "length t = 256" using assms(1) by (auto dest: list_all2_lengthD)
  show "P (int b) (uint (t ! b))"
    using assms len list_all2_nthD [OF assms(1), of b] by (simp add: nth_upto)
qed

lemma and_255: "(w :: u32) AND 255 = take_bit 8 w"
  by (simp add: take_bit_eq_mask mask_eq_exp_minus_1)

lemma bit_low_byte: "bit (uint ((w :: u32) AND 255)) j \<longleftrightarrow> j < 8 \<and> bit w j"
  by (auto simp: and_255 bit_simps)

lemma low_byte_less: "unat ((w :: u32) AND 255) < 256"
proof -
  have "unat (w AND 255) = take_bit 8 (unat w)" by (simp add: and_255 unsigned_take_bit_eq)
  then show ?thesis by (simp add: take_bit_eq_mod)
qed

lemma low_byte_int: "int (unat ((w :: u32) AND 255)) = uint (w AND 255)"
  by simp

lemma low_bit_exists: "w \<noteq> 0 \<Longrightarrow> \<exists>p. low_bit w p"
proof -
  assume "w \<noteq> 0"
  then obtain j where "bit w j" by (auto simp: bit_eq_iff)
  then have "low_bit w (LEAST j. bit w j)" unfolding low_bit_def by (auto intro: LeastI dest: not_less_Least)
  then show ?thesis by blast
qed

lemma low_bit_less: "low_bit w p \<Longrightarrow> p < 32"
  using bit_imp_le_length [of w p] by (simp add: low_bit_def)

lemma rightmost_one_pos_low_bit:
  assumes "w AND 255 \<noteq> 0"
  shows "\<exists>v. arr_get rightmost_one_pos (unat (w AND 255)) = Some v \<and> low_bit w (unat v)"
proof -
  let ?b = "uint (w AND 255)"
  let ?v = "rightmost_one_pos ! unat (w AND 255)"
  have nz: "?b \<noteq> 0" using assms by (simp add: uint_0_iff)
  have "?b = 0 \<or> ?b mod 2 ^ nat (uint ?v) = 0 \<and> ?b div 2 ^ nat (uint ?v) mod 2 = 1"
    using table_nth(1) [OF rightmost_one_pos_table low_byte_less, of w] by simp
  with nz have tb: "take_bit (unat ?v) ?b = 0" "bit ?b (unat ?v)"
    by (simp_all add: take_bit_eq_mod bit_iff_odd odd_iff_mod_2_eq_one flip: unat_eq_nat_uint)
  have "\<not> bit ?b j" if "j < unat ?v" for j
    using bit_take_bit_iff [of "unat ?v" ?b j] that unfolding tb(1) by simp
  then have "low_bit w (unat ?v)"
    using tb(2) unfolding low_bit_def bit_low_byte by (meson order.strict_trans)
  moreover have "arr_get rightmost_one_pos (unat (w AND 255)) = Some ?v"
    using table_nth(2) [OF rightmost_one_pos_table low_byte_less] low_byte_less by simp
  ultimately show ?thesis by blast
qed

lemma int32_ok [simp]: "- (2 ^ 31) \<le> x \<Longrightarrow> x < 2 ^ 31 \<Longrightarrow> int32 x = Some x"
  by (simp add: int32_def)

lemma skip_bytes_low_bit:
  assumes "low_bit w p" "0 \<le> r" "r + int p < 2 ^ 31"
  shows "\<exists>v q. skip_bytes w r = Some (v, q) \<and> v AND 255 \<noteq> 0 \<and> (\<exists>p'. low_bit v p' \<and> q + int p' = r + int p) \<and>
    r \<le> q"
  using assms
proof (induction p arbitrary: w r rule: less_induct)
  case (less p)
  show ?case
  proof (cases "w AND 255 = 0")
    case False
    then show ?thesis using less.prems by (subst skip_bytes.simps) auto
  next
    case True
    have "\<not> (p < 8 \<and> bit w p)" using bit_low_byte [of w p] True by simp
    then have p: "8 \<le> p" using less.prems by (simp add: low_bit_def)
    have "low_bit (drop_bit 8 w) (p - 8)"
      using less.prems(1) p by (auto simp: low_bit_def bit_drop_bit_eq)
    then obtain v q where "skip_bytes (drop_bit 8 w) (r + 8) = Some (v, q)" "v AND 255 \<noteq> 0"
      "\<exists>p'. low_bit v p' \<and> q + int p' = r + 8 + int (p - 8)" "r + 8 \<le> q"
      using less.IH [of "p - 8" "drop_bit 8 w" "r + 8"] less.prems p by auto
    moreover have "skip_bytes w r = skip_bytes (drop_bit 8 w) (r + 8)"
      using True less.prems p by (subst skip_bytes.simps) simp
    ultimately show ?thesis using p by (intro exI [of _ v] exI [of _ q]) auto
  qed
qed

lemma low_bit_unique: "low_bit w p \<Longrightarrow> low_bit w q \<Longrightarrow> p = q"
  unfolding low_bit_def by (meson linorder_neqE_nat)

lemma rightmost_pos_eq:
  assumes "low_bit w p" "k < 2 ^ 26"
  shows "rightmost_pos w k = Some (int (32 * k + p))"
proof -
  have p: "p < 32" using low_bit_less [OF assms(1)] .
  then have "int k * 32 + int p < 2 ^ 31" using assms(2) by simp
  then obtain v q p' where v: "skip_bytes w (int k * 32) = Some (v, q)" "v AND 255 \<noteq> 0"
    "low_bit v p'" "q + int p' = int k * 32 + int p" "int k * 32 \<le> q"
    using skip_bytes_low_bit [OF assms(1), of "int k * 32"] by auto
  obtain x where x: "arr_get rightmost_one_pos (unat (v AND 255)) = Some x" "low_bit v (unat x)"
    using rightmost_one_pos_low_bit [OF v(2)] by blast
  have "uint x = int p'" using low_bit_unique [OF v(3) x(2)] by simp
  then show ?thesis
    using v x p assms(2) by (simp add: rightmost_pos_def)
qed

lemma odd_and_minus: "odd v \<Longrightarrow> v AND - v = (1 :: u32)"
proof -
  assume odd: "odd v"
  have "(v AND NOT 1) + 1 = v"
  proof -
    have "(v AND NOT 1) + 1 = (v AND NOT 1) OR 1"
      by (rule disjunctive_add_eq_or) (auto intro!: bit_eqI simp: bit_simps)
    also have "\<dots> = v" using odd by (intro bit_word_eqI) (auto simp: bit_simps bit_0)
    finally show ?thesis .
  qed
  then have "v - 1 = v AND NOT 1" unfolding diff_eq_eq by (rule sym)
  then have "- v = NOT (v AND NOT 1)" by (simp only: minus_eq_not_minus_1)
  then show ?thesis
    using odd by (intro bit_word_eqI) (auto simp: bit_simps bit_0)
qed

lemma RIGHTMOST_ONE_eq:
  assumes "low_bit w p"
  shows "RIGHTMOST_ONE w = push_bit p 1"
proof -
  let ?v = "drop_bit p w"
  have w: "w = push_bit p ?v"
  proof (rule bit_word_eqI)
    fix n assume "n < LENGTH(32)"
    moreover have "p \<le> n" if "bit w n" using assms that by (metis low_bit_def not_le)
    ultimately show "bit w n \<longleftrightarrow> bit (push_bit p ?v) n" by (auto simp: bit_simps)
  qed
  have "odd ?v" using assms by (simp add: low_bit_def bit_iff_odd_drop_bit)
  have "RIGHTMOST_ONE w = push_bit p ?v AND push_bit p (- ?v)"
    unfolding RIGHTMOST_ONE_def by (subst (1 2) w) (simp add: push_bit_eq_mult)
  also have "\<dots> = push_bit p (?v AND - ?v)" by (rule push_bit_and [symmetric])
  finally show ?thesis using odd_and_minus [OF \<open>odd ?v\<close>] by simp
qed

lemma bits_push_bit_1: "p < 32 \<Longrightarrow> {j. bit (push_bit p 1 :: u32) j} = {p}"
  by (auto simp: bit_exp_iff)

lemma HAS_MULTIPLE_ONES_iff:
  assumes "low_bit w p"
  shows "\<not> HAS_MULTIPLE_ONES w \<longleftrightarrow> {j. bit w j} = {p}"
proof
  assume "\<not> HAS_MULTIPLE_ONES w"
  then have "w = push_bit p 1" using RIGHTMOST_ONE_eq [OF assms] by (simp add: HAS_MULTIPLE_ONES_def)
  then show "{j. bit w j} = {p}" using bits_push_bit_1 [OF low_bit_less [OF assms]] by simp
next
  assume *: "{j. bit w j} = {p}"
  have "w = push_bit p 1"
  proof (rule bit_word_eqI)
    fix j :: nat
    show "bit w j \<longleftrightarrow> bit (push_bit p 1 :: u32) j"
      using * bits_push_bit_1 [OF low_bit_less [OF assms]] by (metis mem_Collect_eq)
  qed
  then show "\<not> HAS_MULTIPLE_ONES w"
    using RIGHTMOST_ONE_eq [OF assms] by (simp add: HAS_MULTIPLE_ONES_def)
qed

section \<open>Counting members\<close>

lemma prefix_0 [simp]: "prefix a 0 = {}"
  by (simp add: prefix_def)

lemma prefix_Suc: "prefix a (Suc n) = prefix a n \<union> (+) (32 * n) ` {j. bit (wd a n) j}"
proof (rule set_eqI)
  fix x
  have "x \<in> (+) (32 * n) ` {j. bit (wd a n) j} \<longleftrightarrow> x div 32 = n \<and> bit (wd a n) (x mod 32)"
  proof
    assume "x \<in> (+) (32 * n) ` {j. bit (wd a n) j}"
    then obtain j where "x = 32 * n + j" "bit (wd a n) j" by auto
    moreover from this have "j < 32" using bit_imp_le_length [of "wd a n" j] by simp
    ultimately show "x div 32 = n \<and> bit (wd a n) (x mod 32)" by simp
  next
    assume "x div 32 = n \<and> bit (wd a n) (x mod 32)"
    then show "x \<in> (+) (32 * n) ` {j. bit (wd a n) j}"
      by (auto intro!: image_eqI [of _ _ "x mod 32"])
  qed
  moreover have "x < 32 * Suc n \<longleftrightarrow> x < 32 * n \<or> x div 32 = n" by (auto simp: div_nat_eqI less_mult_imp_div_less)
  ultimately show "x \<in> prefix a (Suc n) \<longleftrightarrow> x \<in> prefix a n \<union> (+) (32 * n) ` {j. bit (wd a n) j}"
    by (auto simp: prefix_def members_def)
qed

lemma prefix_all: "bms_ok (Some s) \<Longrightarrow> prefix (Some s) (nwords s) = members (Some s)"
  using members_less by (auto simp: prefix_def)

lemma finite_prefix [simp]: "finite (prefix a n)"
  by (rule finite_subset [of _ "{..<32 * n}"]) (auto simp: prefix_def)

lemma finite_bits [simp]: "finite {j. bit (w :: u32) j}"
  by (rule finite_subset [of _ "{..<32}"]) (auto dest: bit_imp_le_length)

lemma card_prefix_Suc: "card (prefix a (Suc n)) = card (prefix a n) + card {j. bit (wd a n) j}"
  unfolding prefix_Suc
  by (subst card_Un_disjoint) (auto simp: prefix_def card_image)

lemma card_low_byte: "card {j. bit (w :: u32) j} = card {j. j < 8 \<and> bit w j} + card {j. bit (drop_bit 8 w) j}"
proof -
  have "{j. bit w j} = {j. j < 8 \<and> bit w j} \<union> (+) 8 ` {j. bit (drop_bit 8 w) j}"
    by (auto simp: bit_drop_bit_eq image_iff) (metis add.commute le_add_diff_inverse2 not_le)
  moreover have "{j. j < 8 \<and> bit w j} \<inter> (+) 8 ` {j. bit (drop_bit 8 w) j} = {}" by auto
  ultimately show ?thesis by (simp add: card_Un_disjoint card_image)
qed

lemma number_of_ones_eq:
  "\<exists>v. arr_get number_of_ones (unat (w AND 255)) = Some v \<and> uint v = int (card {j. j < 8 \<and> bit (w :: u32) j})"
proof -
  let ?b = "uint (w AND 255)" and ?v = "number_of_ones ! unat (w AND 255)"
  have bit: "?b div 2 ^ j mod 2 = of_bool (bit w j)" if "j < 8" for j
    using bit_low_byte [of w j] that by (simp add: bit_iff_odd mod_2_eq_odd)
  have set: "{..<8} \<inter> {j. bit w j} = {j. j < 8 \<and> bit w j}" by auto
  have "uint ?v = (\<Sum>j\<in>{0, 1, 2, 3, 4, 5, 6, 7 :: nat}. ?b div 2 ^ j mod 2)"
    using table_nth(1) [OF number_of_ones_table low_byte_less, of w] by simp
  also have "\<dots> = (\<Sum>j\<in>{..<8 :: nat}. ?b div 2 ^ j mod 2)"
    by (rule sum.cong) auto
  also have "\<dots> = (\<Sum>j\<in>{..<8}. of_bool (bit w j))"
    by (rule sum.cong) (simp_all add: bit)
  also have "\<dots> = int (card {j. j < 8 \<and> bit w j})"
    by (simp add: sum_of_bool_eq set)
  finally show ?thesis
    using table_nth(2) [OF number_of_ones_table low_byte_less] low_byte_less by auto
qed

lemma count_ones_eq:
  assumes "0 \<le> r" "r + int (card {j. bit w j}) < 2 ^ 31"
  shows "count_ones w r = Some (r + int (card {j. bit w j}))"
  using assms
proof (induction w r rule: count_ones.induct)
  case (1 w r)
  show ?case
  proof (cases "w = 0")
    case False
    obtain v where v: "arr_get number_of_ones (unat (w AND 255)) = Some v"
      "uint v = int (card {j. j < 8 \<and> bit w j})" using number_of_ones_eq by blast
    have "int32 (r + uint v) = Some (r + uint v)"
      using "1.prems" card_low_byte [of w] v(2) by (intro int32_ok) auto
    then show ?thesis
      using False v 1 card_low_byte [of w] by (subst count_ones.simps) (simp add: algebra_simps)
  qed (simp add: count_ones.simps)
qed

lemma bms_num_members_eq:
  assumes "bms_ok a" "card (members a) < 2 ^ 31"
  shows "bms_num_members a = Some (int (card (members a)))"
proof (cases a)
  case (Some s)
  have ok: "bms_ok (Some s)" using assms(1) Some by simp
  have card: "card (prefix a n) < 2 ^ 31" for n
    using assms card_mono [OF finite_members [OF assms(1)], of "prefix a n"]
    by (auto simp: prefix_def)
  have "foldM (\<lambda>wordnum result. do { w \<leftarrow> arr_get (words s) wordnum; count_ones w result }) [0..<n] 0 =
      Some (int (card (prefix a n)))" if "n \<le> nwords s" for n
    using that
  proof (induction n)
    case (Suc n)
    have w: "wd a n = words s ! n" using Suc.prems by (simp add: Some wd_Some)
    have "int (card (prefix a n)) + int (card {j. bit (words s ! n) j}) < 2 ^ 31"
      using card [of "Suc n"] by (simp add: card_prefix_Suc w)
    then show ?case
      using Suc ok by (simp add: foldM_append bms_okD count_ones_eq card_prefix_Suc w)
  qed simp
  from this [of "nwords s"] show ?thesis
    using prefix_all [OF ok] by (simp add: bms_num_members_def Some)
qed (simp add: bms_num_members_def)

lemma word_bits_cases:
  fixes w :: u32
  obtains "w = 0" "{j. bit w j} = {}"
  | p where "w \<noteq> 0" "low_bit w p" "\<not> HAS_MULTIPLE_ONES w" "{j. bit w j} = {p}"
  | p where "w \<noteq> 0" "low_bit w p" "HAS_MULTIPLE_ONES w" "2 \<le> card {j. bit w j}"
proof (cases "w = 0")
  case False
  then obtain p where p: "low_bit w p" using low_bit_exists by blast
  show ?thesis
  proof (cases "HAS_MULTIPLE_ONES w")
    case True
    then have "{j. bit w j} \<noteq> {p}" using HAS_MULTIPLE_ONES_iff [OF p] by simp
    moreover have "p \<in> {j. bit w j}" using p by (simp add: low_bit_def)
    ultimately have "card {j. bit w j} \<noteq> 1" "card {j. bit w j} \<noteq> 0"
      by (metis card_1_singletonE singletonD, metis card_0_eq empty_iff finite_bits)
    then have "2 \<le> card {j. bit w j}" by linarith
    then show ?thesis using that(3) [OF False p True] by blast
  next
    case hm: False
    then show ?thesis using that(2) [OF False p] HAS_MULTIPLE_ONES_iff [OF p] by blast
  qed
qed (use that(1) in simp)

text \<open>The common loop of the two functions that look for the only member.\<close>

lemma singleton_loop:
  assumes ok: "bms_ok (Some s)" and n: "n \<le> nwords s"
  shows "for_loop (\<lambda>wordnum result. do {
          w \<leftarrow> arr_get (words s) wordnum;
          if w \<noteq> 0 then
            if result \<ge> 0 \<or> HAS_MULTIPLE_ONES w then Some (Inl e)
            else map_option Inr (rightmost_pos w wordnum)
          else Some (Inr result) }) [0..<n] (-1) =
    Some (if card (prefix (Some s) n) \<le> 1
          then Inr (if prefix (Some s) n = {} then -1 else int (the_elem (prefix (Some s) n)))
          else Inl e)"
  using n
proof (induction n)
  case (Suc n)
  let ?P = "prefix (Some s)"
  have w: "arr_get (words s) n = Some (wd (Some s) n)"
    using Suc.prems ok by (simp add: wd_Some bms_okD)
  have n26: "n < 2 ^ 26" using Suc.prems bms_okD(3) [OF ok] by simp
  consider "card (?P n) \<ge> 2" | "?P n = {}" | x where "?P n = {x}"
    by (metis One_nat_def card_0_eq card_1_singletonE finite_prefix less_2_cases not_le)
  then show ?case
  proof cases
    case 1
    then have "2 \<le> card (?P (Suc n))" by (simp add: card_prefix_Suc)
    with 1 Suc show ?thesis by (simp add: for_loop_append)
  next
    case 2
    show ?thesis
      by (cases rule: word_bits_cases [of "wd (Some s) n"])
        (use 2 Suc n26 in \<open>simp_all add: for_loop_append w rightmost_pos_eq prefix_Suc card_image\<close>)
  next
    case 3
    show ?thesis
    proof (cases rule: word_bits_cases [of "wd (Some s) n"])
      case 1
      then show ?thesis using 3 Suc by (simp add: for_loop_append w prefix_Suc)
    next
      case (2 p)
      then have "card (?P (Suc n)) = 2" using 3 by (simp add: card_prefix_Suc)
      then show ?thesis using 2 3 Suc by (simp add: for_loop_append w)
    next
      case m: (3 p)
      then have "\<not> card (?P (Suc n)) \<le> 1" by (simp add: card_prefix_Suc)
      then show ?thesis using m 3 Suc by (simp add: for_loop_append w)
    qed
  qed
qed simp

lemma bms_singleton_member_eq:
  assumes "bms_ok a"
  shows "bms_singleton_member a =
    Some (if members a = {} then Inl ''bitmapset is empty''
          else if \<exists>x. members a = {x} then Inr (int (the_elem (members a)))
          else Inl ''bitmapset has multiple members'')"
proof (cases a)
  case (Some s)
  have ok: "bms_ok (Some s)" using assms Some by simp
  have fin: "finite (members (Some s))" using finite_members [OF ok] .
  consider "members (Some s) = {}" | x where "members (Some s) = {x}" | "\<not> card (members (Some s)) \<le> 1"
    using fin by (metis One_nat_def card_1_singletonE card_0_eq le_SucE le_zero_eq)
  then show ?thesis
  proof cases
    case 3
    then have "\<not> (\<exists>x. members (Some s) = {x})" "members (Some s) \<noteq> {}" by auto
    then show ?thesis using 3
      by (simp add: bms_singleton_member_def Some singleton_loop [OF ok order_refl] prefix_all [OF ok])
  qed (simp_all add: bms_singleton_member_def Some singleton_loop [OF ok order_refl] prefix_all [OF ok])
qed (simp add: bms_singleton_member_def)

lemma bms_get_singleton_member_eq:
  assumes "bms_ok a"
  shows "bms_get_singleton_member a m =
    Some (if \<exists>x. members a = {x} then (True, int (the_elem (members a))) else (False, m))"
proof (cases a)
  case (Some s)
  have ok: "bms_ok (Some s)" using assms Some by simp
  have fin: "finite (members (Some s))" using finite_members [OF ok] .
  consider "members (Some s) = {}" | x where "members (Some s) = {x}" | "\<not> card (members (Some s)) \<le> 1"
    using fin by (metis One_nat_def card_1_singletonE card_0_eq le_SucE le_zero_eq)
  then show ?thesis
  proof cases
    case 3
    then have "\<not> (\<exists>x. members (Some s) = {x})" "members (Some s) \<noteq> {}" by auto
    then show ?thesis using 3
      by (simp add: bms_get_singleton_member_def Some singleton_loop [OF ok order_refl] prefix_all [OF ok])
  qed (simp_all add: bms_get_singleton_member_def Some singleton_loop [OF ok order_refl] prefix_all [OF ok])
qed (simp add: bms_get_singleton_member_def)

lemma bms_membership_eq:
  assumes "bms_ok a"
  shows "bms_membership a =
    Some (if card (members a) = 0 then BMS_EMPTY_SET else if card (members a) = 1 then BMS_SINGLETON else BMS_MULTIPLE)"
proof (cases a)
  case (Some s)
  have ok: "bms_ok (Some s)" using assms Some by simp
  let ?P = "prefix (Some s)"
  let ?body = "\<lambda>wordnum result. do {
          w \<leftarrow> arr_get (words s) wordnum;
          Some (if w \<noteq> 0 then
                  if result \<noteq> BMS_EMPTY_SET \<or> HAS_MULTIPLE_ONES w then Inl BMS_MULTIPLE
                  else Inr BMS_SINGLETON
                else Inr result) }"
  have "for_loop ?body [0..<n] BMS_EMPTY_SET =
      Some (if card (?P n) = 0 then Inr BMS_EMPTY_SET else if card (?P n) = 1 then Inr BMS_SINGLETON
        else Inl BMS_MULTIPLE)" if "n \<le> nwords s" for n
    using that
  proof (induction n)
    case (Suc n)
    have w: "arr_get (words s) n = Some (wd (Some s) n)"
      using Suc.prems ok by (simp add: wd_Some bms_okD)
    show ?case
      by (cases rule: word_bits_cases [of "wd (Some s) n"])
        (use Suc in \<open>auto simp: for_loop_append w card_prefix_Suc simp del: card_0_eq card_eq_0_iff\<close>)
  qed simp
  from this [of "nwords s"] show ?thesis
    by (simp add: bms_membership_def Some prefix_all [OF ok])
qed (simp add: bms_membership_def)

section \<open>Iteration\<close>

lemma word_position: "32 * (x div 32) + x mod 32 = (x :: nat)"
  by simp

lemma member_low_bit: "low_bit (wd a i) p \<Longrightarrow> 32 * i + p \<in> members a"
  using low_bit_less [of "wd a i" p] by (simp add: members_def low_bit_def)

text \<open>The least member at or above position \<open>q\<close> of word \<open>k\<close>, found by looking at the words in turn.\<close>

lemma least_member:
  assumes low: "low_bit (wd a i AND m) p" "\<And>j. j < 32 \<Longrightarrow> bit m j \<longleftrightarrow> b \<le> 32 * i + j"
    and below: "\<And>x. x \<in> members a \<Longrightarrow> b \<le> x \<Longrightarrow> i \<le> x div 32"
  shows "32 * i + p \<in> members a \<and> b \<le> 32 * i + p" "\<And>y. y \<in> members a \<Longrightarrow> b \<le> y \<Longrightarrow> 32 * i + p \<le> y"
proof -
  have p: "p < 32" using low_bit_less [OF low(1)] .
  show "32 * i + p \<in> members a \<and> b \<le> 32 * i + p"
    using low(1) low(2) [OF p] p by (simp add: low_bit_def bit_and_iff members_def)
  fix y assume y: "y \<in> members a" "b \<le> y"
  show "32 * i + p \<le> y"
  proof (cases "y div 32 = i")
    case True
    then have "32 * i + y mod 32 = y" by auto
    then have "bit (wd a i AND m) (y mod 32)"
      using y low(2) [of "y mod 32"] True by (simp add: members_def bit_and_iff)
    then have "p \<le> y mod 32" using low(1) by (metis low_bit_def not_le)
    then show ?thesis using \<open>32 * i + y mod 32 = y\<close> by linarith
  next
    case False
    with below [OF y] have "Suc i \<le> y div 32" by simp
    then have "32 * Suc i \<le> y" by (metis less_eq_div_iff_mult_less_eq mult.commute zero_less_numeral)
    then show ?thesis using p by simp
  qed
qed

lemma Min_members:
  assumes "bms_ok a" "low_bit (wd a i) p" "\<And>j. j < i \<Longrightarrow> wd a j = 0"
  shows "Min (members a) = 32 * i + p"
proof (rule Min_eqI)
  have below: "i \<le> x div 32" if "x \<in> members a" for x
  proof (rule ccontr)
    assume "\<not> i \<le> x div 32"
    then show False using that assms(3) [of "x div 32"] by (simp add: members_def)
  qed
  have l: "low_bit (wd a i AND NOT 0) p" using assms(2) by simp
  note least = least_member [OF l, of 0]
  show "32 * i + p \<in> members a" "\<And>y. y \<in> members a \<Longrightarrow> 32 * i + p \<le> y"
    using least below by simp_all
qed (rule finite_members [OF assms(1)])

lemma bms_first_member_eq:
  assumes "bms_ok a"
  shows "(members a = {} \<longrightarrow> bms_first_member a = Some (-1, a)) \<and>
    (members a \<noteq> {} \<longrightarrow> (\<exists>c. bms_first_member a = Some (int (Min (members a)), c) \<and> bms_ok c \<and>
      members c = members a - {Min (members a)}))"
proof (cases a)
  case (Some s)
  have ok: "bms_ok (Some s)" using assms Some by simp
  define low where "low i = (SOME p. low_bit (wd a i) p)" for i
  have low: "low_bit (wd a i) (low i)" if "wd a i \<noteq> 0" for i
    using low_bit_exists [OF that] someI_ex [of "low_bit (wd a i)"] by (simp add: low_def)
  let ?c = "\<lambda>i. Some (s\<lparr>words := (words s)[i := wd a i AND NOT (push_bit (low i) 1)]\<rparr>)"
  let ?i = "LEAST i. 0 \<le> i \<and> i < nwords s \<and> wd a i \<noteq> 0"
  have loop: "for_loop (\<lambda>wordnum _. do {
          w \<leftarrow> arr_get (words s) wordnum;
          if w \<noteq> 0 then do {
            let w1 = RIGHTMOST_ONE w;
            ws \<leftarrow> arr_set (words s) wordnum (w AND NOT w1);
            result \<leftarrow> rightmost_pos w1 wordnum;
            Some (Inl (result, Some (s\<lparr>words := ws\<rparr>))) }
          else Some (Inr ()) }) [0..<nwords s] () =
      Some (if \<exists>i. 0 \<le> i \<and> i < nwords s \<and> wd a i \<noteq> 0 then Inl (int (32 * ?i + low ?i), ?c ?i) else Inr ())"
  proof (rule for_loop_search_up, goal_cases)
    case (1 i)
    then have w: "arr_get (words s) i = Some (wd a i)" "i < length (words s)" "i < 2 ^ 26"
      using ok bms_okD(3) [OF ok] by (simp_all add: Some wd_Some bms_okD)
    show ?case
    proof (cases "wd a i = 0")
      case False
      have "low_bit (push_bit (low i) 1) (low i)"
        using low_bit_less [OF low [OF False]] by (auto simp: low_bit_def bit_exp_iff)
      then have "rightmost_pos (push_bit (low i) 1) i = Some (int (32 * i + low i))"
        using w by (intro rightmost_pos_eq)
      then show ?thesis using w RIGHTMOST_ONE_eq [OF low [OF False]] False by (simp add: Let_def)
    qed (use w in simp)
  qed
  show ?thesis
  proof (cases "members a = {}")
    case True
    then have "\<not> (\<exists>i. 0 \<le> i \<and> i < nwords s \<and> wd a i \<noteq> 0)" by (simp add: members_empty_iff)
    with loop True show ?thesis by (simp add: bms_first_member_def Some)
  next
    case False
    then have "\<exists>i. wd a i \<noteq> 0" by (simp add: members_empty_iff)
    then have ex: "\<exists>i. 0 \<le> i \<and> i < nwords s \<and> wd a i \<noteq> 0" by (metis Some le0 not_le wd_high)
    then have i: "?i < nwords s" "wd a ?i \<noteq> 0" by (metis (mono_tags, lifting) LeastI_ex)+
    have below: "wd a j = 0" if "j < ?i" for j
      using not_less_Least [OF that] i(1) that by auto
    let ?x = "32 * ?i + low ?i"
    have lt: "low ?i < 32" using low_bit_less [OF low [OF i(2)]] .
    have min: "Min (members a) = ?x" using Min_members [OF assms low [OF i(2)]] below by blast
    have "members (?c ?i) = members a - {?x}"
      using set_word(2) [OF ok i(1)] lt by (intro members_delete) (simp add: Some)
    moreover have "bms_ok (?c ?i)" using set_word(1) [OF ok i(1)] .
    moreover have "bms_first_member a = Some (int ?x, ?c ?i)"
      using loop ex by (simp add: bms_first_member_def Some)
    ultimately show ?thesis using min False by auto
  qed
qed (simp add: bms_first_member_def)

lemma upto_int_upt: "[int k..int n - 1] = map int [k..<n]"
proof (induction "n - k" arbitrary: k)
  case (Suc d)
  then have "[int (Suc k)..int n - 1] = map int [Suc k..<n]" by (intro Suc.hyps(1)) simp
  moreover have "k < n" using Suc.hyps(2) by simp
  ultimately show ?case by (simp add: upto_rec1 upt_conv_Cons add.commute)
qed simp

lemma next_loop:
  assumes ok: "bms_ok (Some s)" and "k \<le> nwords s" "b \<le> 32 * k + 31"
    and "\<And>j. j < 32 \<Longrightarrow> bit m j \<longleftrightarrow> b \<le> 32 * k + j"
    and "\<And>x. x \<in> members (Some s) \<Longrightarrow> b \<le> x \<Longrightarrow> k \<le> x div 32"
  shows "\<exists>m'. for_loop (\<lambda>wordnum mask. do {
            w \<leftarrow> arr_get (words s) wordnum;
            let w = w AND mask;
            if w \<noteq> 0 then map_option Inl (rightmost_pos w wordnum)
            else Some (Inr (NOT 0)) }) [k..<nwords s] m =
    Some (if \<exists>x\<in>members (Some s). b \<le> x then Inl (int (LEAST x. x \<in> members (Some s) \<and> b \<le> x)) else Inr m')"
  using assms(2-)
proof (induction "nwords s - k" arbitrary: k m)
  case 0
  have "\<not> (\<exists>x\<in>members (Some s). b \<le> x)"
  proof
    assume "\<exists>x\<in>members (Some s). b \<le> x"
    then obtain x where x: "x \<in> members (Some s)" "b \<le> x" by blast
    then have "nwords s \<le> x div 32" using 0 by fastforce
    then show False using members_less [OF ok x(1)] by (simp add: less_mult_imp_div_less not_le [symmetric])
  qed
  then show ?case using 0 by simp
next
  case (Suc d)
  let ?M = "members (Some s)"
  have k: "k < nwords s" using Suc.hyps(2) by simp
  then have upt: "[k..<nwords s] = k # [Suc k..<nwords s]" by (simp add: upt_conv_Cons)
  have w: "arr_get (words s) k = Some (wd (Some s) k)" "k < 2 ^ 26"
    using k ok bms_okD(3) [OF ok] by (simp_all add: wd_Some bms_okD)
  show ?case
  proof (cases "wd (Some s) k AND m = 0")
    case False
    then obtain p where p: "low_bit (wd (Some s) k AND m) p" using low_bit_exists by blast
    have "b \<le> x \<Longrightarrow> x \<in> ?M \<Longrightarrow> k \<le> x div 32" for x using Suc.prems(4) by blast
    note least = least_member [OF p Suc.prems(3) this]
    have "(LEAST x. x \<in> ?M \<and> b \<le> x) = 32 * k + p"
      using least by (intro Least_equality) auto
    moreover have "\<exists>x\<in>?M. b \<le> x" using least(1) by blast
    ultimately show ?thesis using False w rightmost_pos_eq [OF p] by (simp add: upt Let_def)
  next
    case True
    have later: "Suc k \<le> x div 32" if "x \<in> ?M" "b \<le> x" for x
    proof (rule ccontr)
      assume "\<not> Suc k \<le> x div 32"
      then have x: "x div 32 = k" using Suc.prems(4) [OF that] by simp
      then have "32 * k + x mod 32 = x" by auto
      then have "bit (wd (Some s) k AND m) (x mod 32)"
        using that x Suc.prems(3) [of "x mod 32"] by (simp add: members_def bit_and_iff)
      then show False using True by simp
    qed
    have bits: "bit (NOT 0 :: u32) j \<longleftrightarrow> b \<le> 32 * Suc k + j" if "j < 32" for j
      using that Suc.prems(2) by (simp add: bit_not_iff)
    obtain m' where "for_loop (\<lambda>wordnum mask. do {
            w \<leftarrow> arr_get (words s) wordnum;
            let w = w AND mask;
            if w \<noteq> 0 then map_option Inl (rightmost_pos w wordnum)
            else Some (Inr (NOT 0)) }) [Suc k..<nwords s] (NOT 0) =
      Some (if \<exists>x\<in>?M. b \<le> x then Inl (int (LEAST x. x \<in> ?M \<and> b \<le> x)) else Inr m')"
      using Suc.hyps(1) [of "Suc k" "NOT 0"] Suc.hyps(2) k Suc.prems(2) bits later by fastforce
    then show ?thesis using True w by (simp add: upt Let_def)
  qed
qed

lemma bms_next_member_eq:
  assumes "bms_ok a" "b < 2 ^ 31"
  shows "bms_next_member a (int b - 1) =
    Some (if \<exists>x\<in>members a. b \<le> x then int (LEAST x. x \<in> members a \<and> b \<le> x) else -2)"
proof (cases a)
  case (Some s)
  have ok: "bms_ok (Some s)" using assms Some by simp
  let ?k = "b div 32" and ?m = "push_bit (b mod 32) (NOT 0) :: u32"
  let ?body = "\<lambda>wordnum mask. do {
            w \<leftarrow> arr_get (words s) wordnum;
            let w = w AND mask;
            if w \<noteq> 0 then map_option Inl (rightmost_pos w wordnum)
            else Some (Inr (NOT 0)) }"
  have pos: "k \<le> x div 32" if "b \<le> x" "k \<le> b div 32" for k x
    using that div_le_mono [of b x 32] by simp
  have run: "bms_next_member a (int b - 1) =
      loop_then (for_loop ?body [?k..<nwords s] ?m) (\<lambda>_. Some (-2))"
    using assms(2) by (simp add: bms_next_member_def Some upto_int_upt for_loop_map Let_def cong: if_cong)
  show ?thesis
  proof (cases "?k \<le> nwords s")
    case True
    have "b = 32 * ?k + b mod 32" by simp
    then have "b \<le> 32 * ?k + 31" "\<And>j. b \<le> 32 * ?k + j \<longleftrightarrow> b mod 32 \<le> j" by linarith+
    then have "\<exists>m'. for_loop ?body [?k..<nwords s] ?m =
      Some (if \<exists>x\<in>members (Some s). b \<le> x then Inl (int (LEAST x. x \<in> members (Some s) \<and> b \<le> x)) else Inr m')"
      using pos by (intro next_loop [OF ok True]) (auto simp: bit_push_bit_iff bit_not_iff bit_mask_iff)
    then show ?thesis unfolding run by (auto simp: Some)
  next
    case False
    have "\<not> (\<exists>x\<in>members (Some s). b \<le> x)"
    proof
      assume "\<exists>x\<in>members (Some s). b \<le> x"
      then obtain x where x: "x \<in> members (Some s)" "b \<le> x" by blast
      then have "nwords s \<le> x div 32" using pos [OF x(2), of "nwords s"] False by simp
      then show False using members_less [OF ok x(1)] by (simp add: less_mult_imp_div_less not_le [symmetric])
    qed
    then show ?thesis unfolding run using False by (simp add: Some)
  qed
qed (simp add: bms_next_member_def)

lemma high_bit_exists: "w \<noteq> 0 \<Longrightarrow> \<exists>p. high_bit w p"
proof -
  assume "w \<noteq> 0"
  then obtain j where "bit w j" by (auto simp: bit_eq_iff)
  then have ne: "{j. bit w j} \<noteq> {}" by blast
  have "high_bit w (Max {j. bit w j})"
    unfolding high_bit_def using Max_in [OF finite_bits ne] Max_ge [OF finite_bits, of _ w]
    by (auto simp: not_le [symmetric] simp del: not_le)
  then show ?thesis by blast
qed

lemma high_bit_less: "high_bit w p \<Longrightarrow> p < 32"
  using bit_imp_le_length [of w p] by (simp add: high_bit_def)

lemma drop_bit_high_bit: "high_bit w p \<Longrightarrow> drop_bit k w = 0 \<longleftrightarrow> p < k"
proof -
  assume h: "high_bit w p"
  show ?thesis
  proof
    assume "drop_bit k w = 0"
    then have "\<not> bit (drop_bit k w) (p - k)" by simp
    then show "p < k" using h by (cases "k \<le> p") (simp_all add: bit_drop_bit_eq high_bit_def)
  next
    assume "p < k"
    then show "drop_bit k w = 0" using h by (intro bit_eqI) (simp add: bit_drop_bit_eq high_bit_def)
  qed
qed

lemma find_shift_eq:
  assumes "high_bit w p" "k \<le> 3" "p < 8 * k + 8"
  shows "find_shift w (8 * int k) = Some (int (8 * (p div 8)))"
  using assms
proof (induction k)
  case 0
  then have "drop_bit 0 w \<noteq> 0" "p div 8 = 0" using drop_bit_high_bit [of w p 0] by simp_all
  then show ?case by (subst find_shift.simps) simp
next
  case (Suc k)
  have eq: "8 * int (Suc k) - 8 = 8 * int k" "nat (8 * int (Suc k)) = 8 * Suc k" by simp_all
  show ?case
  proof (cases "p < 8 * Suc k")
    case True
    then show ?thesis
      using Suc drop_bit_high_bit [OF Suc.prems(1), of "8 * Suc k"]
      by (subst find_shift.simps) (simp only: eq, simp)
  next
    case False
    then have "p div 8 = Suc k" using Suc.prems(3) by (intro div_nat_eqI) simp_all
    then show ?thesis
      using Suc.prems(2) False drop_bit_high_bit [OF Suc.prems(1), of "8 * Suc k"]
      by (subst find_shift.simps) (simp only: eq, simp)
  qed
qed

lemma leftmost_pos_eq:
  assumes "high_bit w p"
  shows "\<exists>v. arr_get leftmost_one_pos (unat (drop_bit (8 * (p div 8)) w AND 255)) = Some v \<and>
    8 * (p div 8) + unat v = p"
proof -
  let ?k = "8 * (p div 8)" and ?w = "drop_bit (8 * (p div 8)) w"
  let ?b = "uint (?w AND 255)" and ?v = "leftmost_one_pos ! unat (?w AND 255)"
  have bits: "bit ?b j \<longleftrightarrow> j < 8 \<and> bit w (?k + j)" for j
    by (simp add: bit_low_byte bit_drop_bit_eq)
  have pm: "?k + p mod 8 = p" "p mod 8 < 8" by simp_all
  then have "bit ?b (p mod 8)" using assms by (simp add: bits high_bit_def)
  then have "?b \<noteq> 0" by auto
  then have v: "?b div 2 ^ unat ?v = 1"
    using table_nth(1) [OF leftmost_one_pos_table low_byte_less, of ?w] by (simp flip: unat_eq_nat_uint)
  have bv: "bit ?b (unat ?v + j) \<longleftrightarrow> j = 0" for j
  proof -
    have "bit ?b (unat ?v + j) \<longleftrightarrow> bit (drop_bit (unat ?v) ?b) j" by (simp add: bit_drop_bit_eq)
    also have "\<dots> \<longleftrightarrow> j = 0" unfolding drop_bit_eq_div [of _ ?b] v by (simp add: bit_1_iff)
    finally show ?thesis .
  qed
  have "unat ?v = p mod 8"
  proof (rule antisym)
    have "unat ?v < 8 \<and> bit w (?k + unat ?v)" using bv [of 0] bits [of "unat ?v"] by simp
    then show "unat ?v \<le> p mod 8" using assms pm by (metis high_bit_def nat_add_left_cancel_less not_le)
    show "p mod 8 \<le> unat ?v"
      using bv [of "p mod 8 - unat ?v"] \<open>bit ?b (p mod 8)\<close> by (cases "unat ?v \<le> p mod 8") simp_all
  qed
  then show ?thesis
    using table_nth(2) [OF leftmost_one_pos_table low_byte_less] low_byte_less pm by auto
qed

text \<open>The body of the loop of \<open>bms_prev_member\<close> at a word with bits under the mask.\<close>

lemma prev_step:
  assumes "high_bit w p" "k < 2 ^ 26"
  shows "do {
      result \<leftarrow> int32 (int k * 32);
      shift \<leftarrow> find_shift w 24;
      pos \<leftarrow> arr_get leftmost_one_pos (unat (drop_bit (nat shift) w AND 255));
      result \<leftarrow> int32 (result + (shift + uint pos));
      Some (Inl result) } = Some (Inl (int (32 * k + p)))"
proof -
  have p: "p < 32" using high_bit_less [OF assms(1)] .
  obtain v where v: "arr_get leftmost_one_pos (unat (drop_bit (8 * (p div 8)) w AND 255)) = Some v"
    "8 * (p div 8) + unat v = p" using leftmost_pos_eq [OF assms(1)] by blast
  have shift: "find_shift w 24 = Some (int (8 * (p div 8)))"
    using find_shift_eq [OF assms(1), of 3] p by simp
  have "int (8 * (p div 8)) + uint v = int p"
    unfolding uint_nat by (simp only: v(2) flip: of_nat_add)
  then have "int k * 32 + (int (8 * (p div 8)) + uint v) = int (32 * k + p)" by simp
  moreover have "int32 (int k * 32) = Some (int k * 32)" "int32 (int (32 * k + p)) = Some (int (32 * k + p))"
    using assms(2) p by (simp_all add: int32_def)
  ultimately show ?thesis using shift v(1) by (simp only: bind.bind_lunit nat_int)
qed

lemma greatest_member:
  assumes high: "high_bit (wd a i AND m) p" "\<And>j. j < 32 \<Longrightarrow> bit m j \<longleftrightarrow> 32 * i + j \<le> c"
    and above: "\<And>x. x \<in> members a \<Longrightarrow> x \<le> c \<Longrightarrow> x div 32 \<le> i"
  shows "32 * i + p \<in> members a \<and> 32 * i + p \<le> c" "\<And>y. y \<in> members a \<Longrightarrow> y \<le> c \<Longrightarrow> y \<le> 32 * i + p"
proof -
  have p: "p < 32" using high_bit_less [OF high(1)] .
  show "32 * i + p \<in> members a \<and> 32 * i + p \<le> c"
    using high(1) high(2) [OF p] p by (simp add: high_bit_def bit_and_iff members_def)
  fix y assume y: "y \<in> members a" "y \<le> c"
  show "y \<le> 32 * i + p"
  proof (cases "y div 32 = i")
    case True
    then have "32 * i + y mod 32 = y" by auto
    then have "bit (wd a i AND m) (y mod 32)"
      using y high(2) [of "y mod 32"] True by (simp add: members_def bit_and_iff)
    then have "y mod 32 \<le> p" using high(1) by (metis high_bit_def not_le)
    then show ?thesis using \<open>32 * i + y mod 32 = y\<close> by linarith
  next
    case False
    with above [OF y] have "y div 32 < i" by simp
    then have "y < 32 * i" by (simp add: div_less_iff_less_mult mult.commute)
    then show ?thesis by simp
  qed
qed

lemma prev_loop:
  assumes ok: "bms_ok (Some s)" and "k \<le> nwords s" "32 * k \<le> c + 32"
    and "\<And>j. j < 32 \<Longrightarrow> bit m j \<longleftrightarrow> 32 * k + j \<le> c + 32"
    and "\<And>x. x \<in> members (Some s) \<Longrightarrow> x \<le> c \<Longrightarrow> x div 32 < k"
  defines "body \<equiv> \<lambda>wordnum mask. do {
              w \<leftarrow> arr_get (words s) wordnum;
              let w = w AND mask;
              if w \<noteq> 0 then do {
                result \<leftarrow> int32 (int wordnum * 32);
                shift \<leftarrow> find_shift w 24;
                pos \<leftarrow> arr_get leftmost_one_pos (unat (drop_bit (nat shift) w AND 255));
                result \<leftarrow> int32 (result + (shift + uint pos));
                Some (Inl result) }
              else Some (Inr (NOT 0)) }"
  shows "\<exists>m'. for_loop body (rev [0..<k]) m =
    Some (if \<exists>x\<in>members (Some s). x \<le> c then Inl (int (Max {x \<in> members (Some s). x \<le> c})) else Inr m')"
  using assms(2-5)
proof (induction k arbitrary: m)
  case 0
  then show ?case by auto
next
  case (Suc k m)
  let ?M = "members (Some s)"
  have w: "arr_get (words s) k = Some (wd (Some s) k)" "k < 2 ^ 26"
    using Suc.prems(1) ok bms_okD(3) [OF ok] by (simp_all add: wd_Some bms_okD)
  have bits: "\<And>j. j < 32 \<Longrightarrow> bit m j \<longleftrightarrow> 32 * k + j \<le> c"
    and le: "\<And>x. x \<in> ?M \<Longrightarrow> x \<le> c \<Longrightarrow> x div 32 \<le> k"
    using Suc.prems(3,4) by (simp_all add: less_Suc_eq_le)
  show ?case
  proof (cases "wd (Some s) k AND m = 0")
    case False
    then obtain p where p: "high_bit (wd (Some s) k AND m) p" using high_bit_exists by blast
    note greatest = greatest_member [OF p bits le]
    have "Max {x \<in> ?M. x \<le> c} = 32 * k + p"
      using greatest finite_members [OF ok] by (intro Max_eqI) auto
    moreover have "\<exists>x\<in>?M. x \<le> c" using greatest(1) by blast
    ultimately show ?thesis using False w prev_step [OF p w(2)] by (simp add: body_def Let_def)
  next
    case True
    have earlier: "x div 32 < k" if "x \<in> ?M" "x \<le> c" for x
    proof (rule ccontr)
      assume "\<not> x div 32 < k"
      then have x: "x div 32 = k" using le [OF that] by simp
      then have "32 * k + x mod 32 = x" by (metis word_position)
      then have "bit (wd (Some s) k AND m) (x mod 32)"
        using that x bits [of "x mod 32"] by (simp add: members_def bit_and_iff)
      then show False using True by simp
    qed
    have "\<exists>m'. for_loop body (rev [0..<k]) (NOT 0) =
      Some (if \<exists>x\<in>?M. x \<le> c then Inl (int (Max {x \<in> ?M. x \<le> c})) else Inr m')"
      using Suc.prems(1,2) earlier by (intro Suc.IH) (auto simp: bit_not_iff)
    moreover have "for_loop body (rev [0..<Suc k]) m = for_loop body (rev [0..<k]) (NOT 0)"
      using True w by (simp add: body_def Let_def)
    ultimately show ?thesis by simp
  qed
qed

lemma prev_run:
  assumes ok: "bms_ok (Some s)" and c: "c < 32 * nwords s"
  shows "do {
         mask \<leftarrow> shr (NOT 0) (32 - (BITNUM (int c) + 1));
         loop_then
           (for_loop (\<lambda>wordnum mask. do {
              w \<leftarrow> arr_get_int (words s) wordnum;
              let w = w AND mask;
              if w \<noteq> 0 then do {
                result \<leftarrow> int32 (wordnum * 32);
                shift \<leftarrow> find_shift w 24;
                pos \<leftarrow> arr_get leftmost_one_pos (unat (drop_bit (nat shift) w AND 255));
                result \<leftarrow> int32 (result + (shift + uint pos));
                Some (Inl result) }
              else Some (Inr (NOT 0)) }) (rev [0..WORDNUM (int c)]) mask)
           (\<lambda>_. Some (-2)) } =
    Some (if \<exists>x\<in>members (Some s). x \<le> c then int (Max {x \<in> members (Some s). x \<le> c}) else -2)"
    (is "?l = ?r")
proof -
  let ?k = "Suc (c div 32)" and ?m = "drop_bit (31 - c mod 32) (NOT 0) :: u32"
  let ?body = "\<lambda>wordnum mask. do {
              w \<leftarrow> arr_get (words s) wordnum;
              let w = w AND mask;
              if w \<noteq> 0 then do {
                result \<leftarrow> int32 (int wordnum * 32);
                shift \<leftarrow> find_shift w 24;
                pos \<leftarrow> arr_get leftmost_one_pos (unat (drop_bit (nat shift) w AND 255));
                result \<leftarrow> int32 (result + (shift + uint pos));
                Some (Inl result) }
              else Some (Inr (NOT 0)) }"
  have list: "rev [0..int (c div 32)] = map int (rev [0..<?k])"
    using upto_int_upt [of 0 ?k] by (simp add: rev_map)
  have run: "?l = loop_then (for_loop ?body (rev [0..<?k]) ?m) (\<lambda>_. Some (-2))"
    unfolding BITNUM_int WORDNUM_int list for_loop_map shr_umask by simp
  have "c = 32 * (c div 32) + c mod 32" by simp
  then have "32 * ?k \<le> c + 32" "\<And>j. 32 * ?k + j \<le> c + 32 \<longleftrightarrow> j \<le> c mod 32"
    unfolding mult_Suc_right by linarith+
  moreover have "?k \<le> nwords s" using c by (simp add: Suc_le_eq less_mult_imp_div_less mult.commute)
  moreover have "x div 32 < ?k" if "x \<le> c" for x using that by (simp add: div_le_mono le_imp_less_Suc)
  ultimately have "\<exists>m'. for_loop ?body (rev [0..<?k]) ?m =
      Some (if \<exists>x\<in>members (Some s). x \<le> c then Inl (int (Max {x \<in> members (Some s). x \<le> c})) else Inr m')"
    by (intro prev_loop [OF ok]) (auto simp: bit_mask_iff)
  then show ?thesis unfolding run by auto
qed

lemma bms_prev_member_eq:
  assumes "bms_ok (Some s)" "0 < q" "q \<le> 32 * nwords s" "q < 2 ^ 31"
  shows "bms_prev_member (Some s) (int q) =
    Some (if \<exists>x\<in>members (Some s). x < q then int (Max {x \<in> members (Some s). x < q}) else -2)"
proof -
  obtain c where q: "q = Suc c" using assms(2) by (cases q) simp_all
  have "int32 (int q - 1) = Some (int c)" using assms(4) q by (simp add: int32_def)
  then show ?thesis
    using prev_run [OF assms(1), of c] assms(3) q
    by (simp only: bms_prev_member_def option.case bind.bind_lunit) (simp add: less_Suc_eq_le)
qed

lemma bms_prev_member_start:
  assumes ok: "bms_ok (Some s)" and "nwords s < 2 ^ 26"
  shows "bms_prev_member (Some s) (-1) =
    Some (if members (Some s) = {} then -2 else int (Max (members (Some s))))"
proof -
  let ?c = "32 * nwords s - 1"
  have n: "1 \<le> nwords s" using bms_okD(2) [OF ok] .
  have "int32 (int (nwords s) * 32) = Some (int (nwords s) * 32)" using assms(2) by (simp add: int32_def)
  moreover have "int (nwords s) * 32 - 1 = int ?c" using n by simp
  moreover have "x \<le> ?c" if "x \<in> members (Some s)" for x using members_less [OF ok that] by simp
  then have "{x \<in> members (Some s). x \<le> ?c} = members (Some s)"
    "(\<exists>x\<in>members (Some s). x \<le> ?c) \<longleftrightarrow> members (Some s) \<noteq> {}" by auto
  ultimately show ?thesis
    using prev_run [OF ok, of ?c] n
    by (simp only: bms_prev_member_def option.case bind.bind_lunit) simp
qed

end
