(* ===== verification/Bitmapset_Correct.thy ===== *)
theory Bitmapset_Correct
  imports Bitmapset_Iteration Hashfunc_Correct
begin

text \<open>
  Comparison, hashing and iteration of bitmap sets, the contract \<open>set_ops\<close> that three groups of
  operations satisfy, the sets that programs can build, and the properties of the component.
\<close>

section \<open>Definitions\<close>

text \<open>The order of \<open>bms_compare\<close>: the highest member of one set only decides.\<close>

definition set_compare :: "nat set \<Rightarrow> nat set \<Rightarrow> int" where
  "set_compare A B = (if A = B then 0 else if Max ((A - B) \<union> (B - A)) \<in> A then 1 else -1)"

text \<open>The outcome of \<open>bms_subset_compare\<close> from what each side has extra.\<close>

definition comparison :: "bool \<Rightarrow> bool \<Rightarrow> BMS_Comparison" where
  "comparison x y = (if x then (if y then BMS_DIFFERENT else BMS_SUBSET2)
     else if y then BMS_SUBSET1 else BMS_EQUAL)"

definition compare_step :: "u32 \<Rightarrow> u32 \<Rightarrow> BMS_Comparison \<Rightarrow> BMS_Comparison + BMS_Comparison" where
  "compare_step v w result = (case subset_note (v AND NOT w \<noteq> 0) BMS_SUBSET1 BMS_SUBSET2 result of
     Inl v \<Rightarrow> Inl v
   | Inr result \<Rightarrow> subset_note (w AND NOT v \<noteq> 0) BMS_SUBSET2 BMS_SUBSET1 result)"

definition compare_result :: "bool \<Rightarrow> bool \<Rightarrow> BMS_Comparison + BMS_Comparison" where
  "compare_result x y = (if x \<and> y then Inl BMS_DIFFERENT else Inr (comparison x y))"

text \<open>The hash as a function of the words up to the last nonzero one.\<close>

definition hash_words :: "bool \<Rightarrow> (nat \<Rightarrow> u32) \<Rightarrow> u32" where
  "hash_words be f =
     (if \<forall>i. f i = 0 then 0
      else let n = Suc (Max {i. f i \<noteq> 0}) in
        snd (snd (final (hash_spec be (concat (map (bytes32 be) (map f [0..<n]))) (hash_init (n * 4))))))"

text \<open>
  The values a program can obtain from the null pointer by calls that return, with the set each is
  meant to be.  An \<open>int\<close> argument is below \<open>2 ^ 31\<close>.
\<close>

inductive built :: "bms \<Rightarrow> nat set \<Rightarrow> bool" where
  null: "built None {}"
| singleton: "x < 2 ^ 31 \<Longrightarrow> bms_make_singleton (int x) = Some (Inr c) \<Longrightarrow> built c {x}"
| add_member: "built a A \<Longrightarrow> x < 2 ^ 31 \<Longrightarrow> bms_add_member a (int x) = Some (Inr c) \<Longrightarrow> built c (insert x A)"
| del_member: "built a A \<Longrightarrow> bms_del_member a (int x) = Some (Inr c) \<Longrightarrow> built c (A - {x})"
| add_range: "built a A \<Longrightarrow> l \<le> u \<Longrightarrow> u < 2 ^ 31 \<Longrightarrow> bms_add_range a (int l) (int u) = Some (Inr c) \<Longrightarrow>
    built c (A \<union> {l..u})"
| union: "built a A \<Longrightarrow> built b B \<Longrightarrow> f \<in> {bms_union, bms_add_members, bms_join} \<Longrightarrow> f a b = Some c \<Longrightarrow>
    built c (A \<union> B)"
| inter: "built a A \<Longrightarrow> built b B \<Longrightarrow> f \<in> {bms_intersect, bms_int_members} \<Longrightarrow> f a b = Some c \<Longrightarrow> built c (A \<inter> B)"
| diff: "built a A \<Longrightarrow> built b B \<Longrightarrow> f \<in> {bms_difference, bms_del_members} \<Longrightarrow> f a b = Some c \<Longrightarrow> built c (A - B)"
| first: "built a A \<Longrightarrow> A \<noteq> {} \<Longrightarrow> bms_first_member a = Some (x, c) \<Longrightarrow> built c (A - {nat x})"

section \<open>Orders on sets\<close>

lemma word_less_high_bit:
  fixes x y :: u32
  assumes "high_bit (x XOR y) p"
  shows "y < x \<longleftrightarrow> bit x p"
proof -
  have less: "y < x" if "bit x p" "\<not> bit y p" "\<And>j. p < j \<Longrightarrow> bit x j = bit y j" for x y :: u32
  proof -
    have "drop_bit (Suc p) (unat x) = drop_bit (Suc p) (unat y)"
      using that(3) by (intro bit_eqI) (simp add: bit_drop_bit_eq bit_unsigned_iff)
    moreover have "drop_bit p n = 2 * drop_bit (Suc p) n + of_bool (bit n p)" for n :: nat
      by (simp add: drop_bit_eq_div bit_iff_odd power_Suc2 div_mult2_eq del: power_Suc)
    ultimately have "drop_bit p (unat y) < drop_bit p (unat x)"
      using that(1,2) by (simp add: bit_unsigned_iff)
    then have "unat y < unat x"
      unfolding drop_bit_eq_div by (metis div_le_mono not_le)
    then show ?thesis by (simp add: word_less_nat_alt)
  qed
  have "bit x p \<noteq> bit y p" "\<And>j. p < j \<Longrightarrow> bit x j = bit y j"
    using assms by (auto simp: high_bit_def bit_xor_iff)
  then show ?thesis using less [of x y] less [of y x] by (metis less_asym)
qed

lemma set_compare_words:
  assumes i: "wd a i \<noteq> wd b i" and above: "\<And>j. i < j \<Longrightarrow> wd a j = wd b j"
    and fin: "finite (members a)" "finite (members b)"
  shows "set_compare (members a) (members b) = (if wd b i < wd a i then 1 else -1)"
proof -
  let ?D = "(members a - members b) \<union> (members b - members a)"
  have "wd a i XOR wd b i \<noteq> 0" using i by (simp add: word_eq_iff_bits bit_xor_iff)
  then obtain p where p: "high_bit (wd a i XOR wd b i) p" using high_bit_exists by blast
  have p32: "p < 32" using high_bit_less [OF p] .
  have D: "x \<in> ?D \<longleftrightarrow> bit (wd a (x div 32)) (x mod 32) \<noteq> bit (wd b (x div 32)) (x mod 32)" for x
    by (auto simp: members_def)
  have "Max ?D = 32 * i + p"
  proof (rule Max_eqI)
    show "32 * i + p \<in> ?D" unfolding D using p p32 by (simp add: high_bit_def bit_xor_iff)
    fix y assume "y \<in> ?D"
    then have y: "bit (wd a (y div 32) XOR wd b (y div 32)) (y mod 32)" unfolding D by (simp add: bit_xor_iff)
    then have "y div 32 \<le> i" using above [of "y div 32"] by (cases "i < y div 32") simp_all
    moreover have "y mod 32 \<le> p" if "y div 32 = i" using p y that by (metis high_bit_def not_le)
    ultimately show "y \<le> 32 * i + p" unfolding le_div_mod [of y] using p32 by auto
  qed (use fin in simp)
  moreover have "members a \<noteq> members b" using i members_eq_iff by blast
  ultimately show ?thesis
    using word_less_high_bit [OF p] p32 by (simp add: set_compare_def members_def)
qed


lemma set_compare_empty_left: "set_compare {} B = (if B = {} then 0 else -1)"
  by (simp add: set_compare_def)

lemma set_compare_empty_right: "finite A \<Longrightarrow> set_compare A {} = (if A = {} then 0 else 1)"
  using Max_in [of A] by (simp add: set_compare_def)

lemma finite_differing: "bms_ok a \<Longrightarrow> bms_ok b \<Longrightarrow> finite {i. wd a i \<noteq> wd b i}"
  by (rule finite_subset [of _ "{..<max (case_option 0 nwords a) (case_option 0 nwords b)}"])
    (auto simp: wd_def not_le split: option.splits if_splits)

lemma set_compare_Max:
  assumes ok: "bms_ok a" "bms_ok b" and i: "wd a i \<noteq> wd b i"
  defines "m \<equiv> Max {i. wd a i \<noteq> wd b i}"
  shows "i \<le> m" "wd a m \<noteq> wd b m"
    "set_compare (members a) (members b) = (if wd b m < wd a m then 1 else -1)"
proof -
  let ?D = "{i. wd a i \<noteq> wd b i}"
  have fin: "finite ?D" using ok by (rule finite_differing)
  show "i \<le> m" using i fin by (simp add: m_def)
  have "m \<in> ?D" unfolding m_def using fin i by (intro Max_in) auto
  then show m: "wd a m \<noteq> wd b m" by simp
  have "wd a j = wd b j" if "m < j" for j using that Max_ge [OF fin, of j] by (auto simp: m_def)
  then show "set_compare (members a) (members b) = (if wd b m < wd a m then 1 else -1)"
    using m ok by (intro set_compare_words) (simp_all add: finite_members)
qed

lemma bms_compare_eq:
  assumes "bms_ok a" "bms_ok b"
  shows "bms_compare a b = Some (set_compare (members a) (members b))"
proof (cases a; cases b)
  fix s t assume ab: "a = Some s" "b = Some t"
  note len = assms [unfolded ab, THEN bms_okD(1)]
  define n where "n = min (nwords s) (nwords t)"
  then have n: "n \<le> nwords s" "n \<le> nwords t" "n = nwords s \<or> n = nwords t" by (auto simp: min_def)
  let ?D = "{i. wd a i \<noteq> wd b i}"
  let ?S = "{i. i < n \<and> wd a i \<noteq> wd b i}"
  have loop: "for_loop (\<lambda>i _. do {
       aw \<leftarrow> arr_get (words s) i; bw \<leftarrow> arr_get (words t) i;
       Some (if aw \<noteq> bw then Inl (if aw > bw then 1 else -1 :: int) else Inr ()) }) (rev [0..<n]) () =
     Some (if \<exists>i<n. wd a i \<noteq> wd b i then Inl (if wd b (Max ?S) < wd a (Max ?S) then 1 else -1) else Inr ())"
    by (rule for_loop_search_down) (use len ab n in \<open>simp add: wd_Some\<close>)
  have run: "bms_compare a b = Some (
      if \<exists>i. n \<le> i \<and> i < nwords s \<and> wd a i \<noteq> 0 then 1
      else if \<exists>i. n \<le> i \<and> i < nwords t \<and> wd b i \<noteq> 0 then -1
      else if \<exists>i<n. wd a i \<noteq> wd b i then (if wd b (Max ?S) < wd a (Max ?S) then 1 else -1) else 0)"
    unfolding bms_compare_def ab prod.case option.case Let_def n_def [symmetric]
    by (simp only: scan_words1 [OF len(1) order_refl] scan_words1 [OF len(2) order_refl] loop [unfolded ab]
        loop_then_search) (simp only: if_distrib [of Some])
  note max = set_compare_Max [OF assms]
  show ?thesis
  proof (cases "\<exists>i. n \<le> i \<and> i < nwords s \<and> wd a i \<noteq> 0")
    case True
    then obtain i where i: "n \<le> i" "i < nwords s" "wd a i \<noteq> 0" by blast
    then have zero: "wd b j = 0" if "i \<le> j" for j using that ab n by (auto simp: wd_high)
    have "wd a i \<noteq> wd b i" using i zero by simp
    note m = max [OF this]
    have "set_compare (members a) (members b) = 1" using m zero [OF m(1)] by (simp add: word_neq_0_conv)
    then show ?thesis using True by (simp add: run)
  next
    case a: False
    show ?thesis
    proof (cases "\<exists>i. n \<le> i \<and> i < nwords t \<and> wd b i \<noteq> 0")
      case True
      then obtain i where i: "n \<le> i" "i < nwords t" "wd b i \<noteq> 0" by blast
      then have zero: "wd a j = 0" if "i \<le> j" for j using that ab n by (auto simp: wd_high)
      have "wd a i \<noteq> wd b i" using i zero by simp
      note m = max [OF this]
      have "set_compare (members a) (members b) = -1" using m zero [OF m(1)] by simp
      then show ?thesis using a True by (simp add: run)
    next
      case b: False
      have "wd a i = wd b i" if "n \<le> i" for i
        using a b that ab by (metis not_le wd_high)
      then have S: "?S = ?D" by (auto simp: not_le [symmetric])
      show ?thesis
      proof (cases "\<exists>i<n. wd a i \<noteq> wd b i")
        case True
        then obtain i where i: "wd a i \<noteq> wd b i" by blast
        show ?thesis unfolding run if_not_P [OF a] if_not_P [OF b] if_P [OF True] S
          by (simp only: max(3) [OF i])
      next
        case False
        then have "?S = {}" by auto
        then have "members a = members b" using S members_eq_iff [of a b] by auto
        then show ?thesis unfolding run if_not_P [OF a] if_not_P [OF b] if_not_P [OF False]
          by (simp add: set_compare_def)
      qed
    qed
  qed
qed (use assms in \<open>simp_all add: bms_compare_def bms_is_empty_eq set_compare_empty_left
    set_compare_empty_right finite_members\<close>)

lemma compare_step_comparison:
  "\<not> (x \<and> y) \<Longrightarrow> compare_step v w (comparison x y) =
    compare_result (x \<or> v AND NOT w \<noteq> 0) (y \<or> w AND NOT v \<noteq> 0)"
  by (auto simp: compare_step_def compare_result_def comparison_def subset_note_def)

lemma compare_loop:
  assumes "\<And>i r. i \<in> set xs \<Longrightarrow> f i r = Some (compare_step (wd a i) (wd b i) r)" "\<not> (x \<and> y)"
  shows "for_loop f xs (comparison x y) =
    Some (compare_result (x \<or> (\<exists>i\<in>set xs. wd a i AND NOT (wd b i) \<noteq> 0))
      (y \<or> (\<exists>i\<in>set xs. wd b i AND NOT (wd a i) \<noteq> 0)))"
  using assms
proof (induction xs arbitrary: x y)
  case Nil
  then show ?case by (auto simp: compare_result_def)
next
  case (Cons i xs)
  let ?x = "x \<or> wd a i AND NOT (wd b i) \<noteq> 0" and ?y = "y \<or> wd b i AND NOT (wd a i) \<noteq> 0"
  have step: "f i (comparison x y) = Some (compare_result ?x ?y)"
    using Cons.prems by (simp add: compare_step_comparison)
  show ?case
  proof (cases "?x \<and> ?y")
    case True
    then show ?thesis by (simp add: step compare_result_def disj_assoc) blast
  next
    case False
    have "for_loop f (i # xs) (comparison x y) = for_loop f xs (comparison ?x ?y)"
      using False by (simp only: for_loop.simps step compare_result_def if_False bind.bind_lunit sum.case)
    then show ?thesis using Cons.IH [of ?x ?y] Cons.prems(1) False by (simp add: disj_assoc)
  qed
qed

lemma compare_step_zero:
  "compare_step v 0 r = subset_note (v \<noteq> 0) BMS_SUBSET1 BMS_SUBSET2 r"
  "compare_step 0 w r = subset_note (w \<noteq> 0) BMS_SUBSET2 BMS_SUBSET1 r"
  by (simp_all add: compare_step_def subset_note_def split: sum.split)

lemma loop_then_compare_result: "loop_then (Some (compare_result x y)) Some = Some (comparison x y)"
  by (simp add: compare_result_def comparison_def)


lemma loop_then_compare_more:
  assumes "\<not> (x \<and> y) \<Longrightarrow> k (comparison x y) = Some (comparison (x \<or> x') (y \<or> y'))"
  shows "loop_then (Some (compare_result x y)) k = Some (comparison (x \<or> x') (y \<or> y'))"
  using assms by (auto simp: compare_result_def comparison_def)

lemma ex_split_index:
  assumes "\<And>i. N \<le> i \<Longrightarrow> \<not> P i"
  shows "(\<exists>i :: nat. P i) \<longleftrightarrow> (\<exists>i\<in>set [0..<n]. P i) \<or> (\<exists>i\<in>set [n..<N]. P i)"
proof -
  have "i \<in> set [0..<n] \<or> i \<in> set [n..<N]" if "P i" for i
    using that assms [of i] by (cases "N \<le> i") auto
  then show ?thesis by blast
qed

lemma bms_subset_compare_eq:
  assumes "bms_ok a" "bms_ok b"
  shows "bms_subset_compare a b =
    Some (comparison (\<not> members a \<subseteq> members b) (\<not> members b \<subseteq> members a))"
proof (cases a; cases b)
  fix s t assume ab: "a = Some s" "b = Some t"
  note len = assms [unfolded ab, THEN bms_okD(1)]
  define n where "n = min (nwords s) (nwords t)"
  have n: "n \<le> nwords s" "n \<le> nwords t" by (simp_all add: n_def)
  let ?P = "\<lambda>i. wd a i AND NOT (wd b i) \<noteq> 0" and ?Q = "\<lambda>i. wd b i AND NOT (wd a i) \<noteq> 0"
  let ?ex = "\<lambda>P m k. \<exists>i\<in>set [m..<k]. P i"
  let ?step = "\<lambda>i result. do {
     aword \<leftarrow> arr_get (words s) i; bword \<leftarrow> arr_get (words t) i;
     Some (case subset_note (aword AND NOT bword \<noteq> 0) BMS_SUBSET1 BMS_SUBSET2 result of
             Inl v \<Rightarrow> Inl v
           | Inr result \<Rightarrow> subset_note (bword AND NOT aword \<noteq> 0) BMS_SUBSET2 BMS_SUBSET1 result) }"
  let ?left = "\<lambda>i result. do { x \<leftarrow> arr_get (words s) i;
     Some (subset_note (x \<noteq> 0) BMS_SUBSET1 BMS_SUBSET2 result) }"
  let ?right = "\<lambda>i result. do { y \<leftarrow> arr_get (words t) i;
     Some (subset_note (y \<noteq> 0) BMS_SUBSET2 BMS_SUBSET1 result) }"
  have common: "for_loop ?step [0..<n] BMS_EQUAL = Some (compare_result (?ex ?P 0 n) (?ex ?Q 0 n))"
    using compare_loop [of "[0..<n]" ?step a b False False] n len ab
    by (simp add: comparison_def compare_step_def wd_Some)
  have more: "for_loop ?left [n..<nwords s] (comparison x y) =
        Some (compare_result (x \<or> ?ex ?P n (nwords s)) (y \<or> ?ex ?Q n (nwords s)))"
      if "n = nwords t" "\<not> (x \<and> y)" for x y
    by (rule compare_loop) (use that n len ab in \<open>auto simp: compare_step_zero wd_Some\<close>)
  have more': "for_loop ?right [n..<nwords t] (comparison x y) =
        Some (compare_result (x \<or> ?ex ?P n (nwords t)) (y \<or> ?ex ?Q n (nwords t)))"
      if "n = nwords s" "\<not> (x \<and> y)" for x y
    by (rule compare_loop) (use that n len ab in \<open>auto simp: compare_step_zero wd_Some\<close>)
  have ex: "\<not> members a \<subseteq> members b \<longleftrightarrow> ?ex ?P 0 n \<or> ?ex ?P n N"
    "\<not> members b \<subseteq> members a \<longleftrightarrow> ?ex ?Q 0 n \<or> ?ex ?Q n N"
    if "nwords s \<le> N" "nwords t \<le> N" for N
    unfolding members_subset_iff not_all using that ab
    by (intro ex_split_index; simp add: wd_high)+
  note run = bms_subset_compare_def ab prod.case option.case Let_def n_def [symmetric] common [unfolded ab]
  consider "nwords s > nwords t" | "nwords s < nwords t" | "nwords s = nwords t" by linarith
  then show ?thesis
  proof cases
    case st: 1
    then have nt: "n = nwords t" by (simp add: n_def)
    show ?thesis
      unfolding ex [OF order_refl less_imp_le [OF st]] unfolding run
    proof (rule loop_then_compare_more, goal_cases)
      case 1
      show ?case by (simp only: st if_True more [unfolded ab, OF nt 1] loop_then_compare_result)
    qed
  next
    case st: 2
    then have ns: "n = nwords s" and nst: "\<not> nwords t < nwords s" by (simp_all add: n_def)
    show ?thesis
      unfolding ex [OF less_imp_le [OF st] order_refl] unfolding run
    proof (rule loop_then_compare_more, goal_cases)
      case 1
      show ?case
        by (simp only: st nst if_True if_False more' [unfolded ab, OF ns 1] loop_then_compare_result)
    qed
  next
    case st: 3
    then have ns: "n = nwords s" by (simp add: n_def)
    show ?thesis
      unfolding ex [of "nwords s", OF order_refl eq_imp_le [OF st [symmetric]]] unfolding run
      by (rule loop_then_compare_more) (simp add: st ns)
  qed
qed (use assms in \<open>auto simp: bms_subset_compare_def bms_is_empty_eq comparison_def\<close>)

section \<open>Hashing\<close>

lemma take_concat_bytes32:
  "take (n * 4) (concat (map (bytes32 be) ws)) = concat (map (bytes32 be) (take n ws))"
proof (induction n arbitrary: ws)
  case (Suc n)
  then show ?case by (cases ws) simp_all
qed simp

lemma length_concat_bytes32: "length (concat (map (bytes32 be) ws)) = length ws * 4"
  by (induction ws) simp_all

lemma take_words: "length (words s) = nwords s \<Longrightarrow> n \<le> nwords s \<Longrightarrow> take n (words s) = map (wd (Some s)) [0..<n]"
  by (rule nth_equalityI) (simp_all add: wd_Some)

lemma bms_hash_value_eq:
  assumes "bms_ok a"
  shows "bms_hash_value be a = Some (hash_words be (wd a))"
proof (cases a)
  case (Some s)
  have ok: "length (words s) = nwords s" using assms Some by (simp add: bms_okD)
  let ?S = "{i. i < nwords s \<and> wd a i \<noteq> 0}"
  have S: "?S = {i. wd a i \<noteq> 0}" unfolding Some by (auto simp: wd_Some)
  have loop: "for_loop (\<lambda>i _. do { w \<leftarrow> arr_get (words s) i; Some (if w \<noteq> 0 then Inl (int i) else Inr ()) })
      (rev [0..<nwords s]) () = Some (if \<exists>i<nwords s. wd a i \<noteq> 0 then Inl (int (Max ?S)) else Inr ())"
    by (rule for_loop_search_down) (use ok in \<open>simp add: Some wd_Some\<close>)
  show ?thesis
  proof (cases "?S = {}")
    case True
    then have "\<not> (\<exists>i<nwords s. wd a i \<noteq> 0)" "\<forall>i. wd a i = 0" using S by auto
    then show ?thesis using loop by (simp add: bms_hash_value_def Some hash_words_def)
  next
    case False
    then have ex: "\<exists>i<nwords s. wd a i \<noteq> 0" "\<not> (\<forall>i. wd a i = 0)" using S by auto
    let ?n = "Suc (Max ?S)"
    have "Max ?S \<in> ?S" using False by (intro Max_in) auto
    then have n: "?n \<le> nwords s" by simp
    have words: "take ?n (words s) = map (wd a) [0..<?n]"
      using take_words [OF ok n] by (simp only: Some)
    have "hash_any be True (concat (map (bytes32 be) (words s))) (?n * 4) =
        Some (snd (snd (final (hash_spec be (concat (map (bytes32 be) (map (wd a) [0..<?n]))) (hash_init (?n * 4))))))"
      using n ok by (subst hash_any_eq) (simp_all only: take_concat_bytes32 words length_concat_bytes32, simp)
    moreover have "bms_hash_value be a = hash_any be True (concat (map (bytes32 be) (words s))) (?n * 4)"
    proof -
      have "nat (int (Max ?S) + 1) = ?n" by simp
      then show ?thesis
        unfolding bms_hash_value_def Some option.case loop [unfolded Some] if_P [OF ex(1) [unfolded Some]]
        by simp
    qed
    moreover have "hash_words be (wd a) =
        snd (snd (final (hash_spec be (concat (map (bytes32 be) (map (wd a) [0..<?n]))) (hash_init (?n * 4)))))"
      unfolding hash_words_def if_not_P [OF ex(2)] Let_def S [symmetric] ..
    ultimately show ?thesis by simp
  qed
qed (simp add: bms_hash_value_def hash_words_def)

section \<open>The iteration patterns\<close>

lemma bms_iterate_from:
  assumes "bms_ok a" "\<And>x. x \<in> members a \<Longrightarrow> Suc x < 2 ^ 31" "b < 2 ^ 31"
  shows "bms_iterate a (int b - 1) = Some (map int (sorted_list_of_set {x \<in> members a. b \<le> x}))"
  using assms(3)
proof (induction "card {x \<in> members a. b \<le> x}" arbitrary: b rule: less_induct)
  case less
  let ?S = "{x \<in> members a. b \<le> x}"
  have fin: "finite ?S" using finite_members [OF assms(1)] by simp
  show ?case
  proof (cases "?S = {}")
    case True
    then have "bms_next_member a (int b - 1) = Some (-2)"
      using bms_next_member_eq [OF assms(1) less.prems] by auto
    then show ?thesis unfolding True by (subst bms_iterate.simps) simp
  next
    case False
    define x where "x = (LEAST x. x \<in> members a \<and> b \<le> x)"
    from False obtain y where "y \<in> members a \<and> b \<le> y" by blast
    then have x: "x \<in> members a \<and> b \<le> x" unfolding x_def by (rule LeastI)
    have least: "x \<le> y" if "y \<in> members a" "b \<le> y" for y
      unfolding x_def using that by (intro Least_le conjI)
    have min: "Min ?S = x" using fin x least by (intro Min_eqI) auto
    have rest: "{y \<in> members a. Suc x \<le> y} = ?S - {x}"
    proof (rule set_eqI)
      fix y
      have "Suc x \<le> y \<longleftrightarrow> b \<le> y \<and> y \<noteq> x" if "y \<in> members a"
        using x least [OF that] by linarith
      then show "y \<in> {y \<in> members a. Suc x \<le> y} \<longleftrightarrow> y \<in> ?S - {x}" by blast
    qed
    have "card {y \<in> members a. Suc x \<le> y} < card ?S"
      unfolding rest using x fin by (intro psubset_card_mono) auto
    moreover have "Suc x < 2 ^ 31" using assms(2) x by blast
    ultimately have "bms_iterate a (int (Suc x) - 1) = Some (map int (sorted_list_of_set (?S - {x})))"
      using less.hyps [of "Suc x"] unfolding rest by blast
    moreover have "bms_next_member a (int b - 1) = Some (int x)"
      using bms_next_member_eq [OF assms(1) less.prems] x unfolding x_def [symmetric] by auto
    moreover have "sorted_list_of_set ?S = x # sorted_list_of_set (?S - {x})"
      using sorted_list_of_set_nonempty [OF fin False] min by simp
    ultimately show ?thesis by (subst bms_iterate.simps) simp
  qed
qed

lemma bms_drain_all:
  assumes "bms_ok a"
  shows "bms_drain a = Some (map int (sorted_list_of_set (members a)))"
  using assms
proof (induction "card (members a)" arbitrary: a rule: less_induct)
  case less
  show ?case
  proof (cases "members a = {}")
    case True
    then show ?thesis using bms_first_member_eq [OF less.prems] by (subst bms_drain.simps) simp
  next
    case False
    then obtain c where c: "bms_first_member a = Some (int (Min (members a)), c)" "bms_ok c"
      "members c = members a - {Min (members a)}" using bms_first_member_eq [OF less.prems] by blast
    have fin: "finite (members a)" using finite_members [OF less.prems] .
    have "card (members c) < card (members a)"
      unfolding c(3) using fin False by (intro psubset_card_mono) (auto dest: Min_in)
    then have "bms_drain c = Some (map int (sorted_list_of_set (members c)))"
      using less.hyps c(2) by blast
    then show ?thesis
      using c(1) sorted_list_of_set_nonempty [OF fin False] by (subst bms_drain.simps) (simp add: c(3))
  qed
qed

section \<open>The set contract\<close>

text \<open>
  What a client relies on: union, intersection and difference of represented sets, and a test for
  logical equality.  The laws below are about what the test reports on results of the operations.
\<close>

locale set_ops =
  fixes inv :: "'s \<Rightarrow> bool"
    and elems :: "'s \<Rightarrow> nat set"
    and un :: "'s \<Rightarrow> 's \<Rightarrow> 's option"
    and it :: "'s \<Rightarrow> 's \<Rightarrow> 's option"
    and df :: "'s \<Rightarrow> 's \<Rightarrow> 's option"
    and eq :: "'s \<Rightarrow> 's \<Rightarrow> bool option"
  assumes un: "inv a \<Longrightarrow> inv b \<Longrightarrow> \<exists>c. un a b = Some c \<and> inv c \<and> elems c = elems a \<union> elems b"
    and it: "inv a \<Longrightarrow> inv b \<Longrightarrow> \<exists>c. it a b = Some c \<and> inv c \<and> elems c = elems a \<inter> elems b"
    and df: "inv a \<Longrightarrow> inv b \<Longrightarrow> \<exists>c. df a b = Some c \<and> inv c \<and> elems c = elems a - elems b"
    and eq: "inv a \<Longrightarrow> inv b \<Longrightarrow> eq a b = Some (elems a = elems b)"
begin

lemma unE:
  assumes "inv a" "inv b"
  obtains c where "un a b = Some c" "inv c" "elems c = elems a \<union> elems b"
  using un [OF assms] by blast

lemma itE:
  assumes "inv a" "inv b"
  obtains c where "it a b = Some c" "inv c" "elems c = elems a \<inter> elems b"
  using it [OF assms] by blast

lemma dfE:
  assumes "inv a" "inv b"
  obtains c where "df a b = Some c" "inv c" "elems c = elems a - elems b"
  using df [OF assms] by blast

lemma it_distrib:
  assumes "inv a" "inv b" "inv c"
  shows "do { u \<leftarrow> un b c; l \<leftarrow> it a u; x \<leftarrow> it a b; y \<leftarrow> it a c; r \<leftarrow> un x y; eq l r } = Some True"
proof -
  obtain u where u: "un b c = Some u" "inv u" "elems u = elems b \<union> elems c" by (rule unE [OF assms(2,3)])
  obtain l where l: "it a u = Some l" "inv l" "elems l = elems a \<inter> elems u" by (rule itE [OF assms(1) u(2)])
  obtain x where x: "it a b = Some x" "inv x" "elems x = elems a \<inter> elems b" by (rule itE [OF assms(1,2)])
  obtain y where y: "it a c = Some y" "inv y" "elems y = elems a \<inter> elems c" by (rule itE [OF assms(1,3)])
  obtain r where r: "un x y = Some r" "inv r" "elems r = elems x \<union> elems y" by (rule unE [OF x(2) y(2)])
  show ?thesis using u l x y r eq [OF l(2) r(2)] by (simp add: Int_Un_distrib)
qed

lemma df_union:
  assumes "inv a" "inv b" "inv c"
  shows "do { u \<leftarrow> un b c; l \<leftarrow> df a u; x \<leftarrow> df a b; r \<leftarrow> df x c; eq l r } = Some True"
proof -
  obtain u where u: "un b c = Some u" "inv u" "elems u = elems b \<union> elems c" by (rule unE [OF assms(2,3)])
  obtain l where l: "df a u = Some l" "inv l" "elems l = elems a - elems u" by (rule dfE [OF assms(1) u(2)])
  obtain x where x: "df a b = Some x" "inv x" "elems x = elems a - elems b" by (rule dfE [OF assms(1,2)])
  obtain r where r: "df x c = Some r" "inv r" "elems r = elems x - elems c" by (rule dfE [OF x(2) assms(3)])
  have "elems l = elems r" using u l x r by auto
  then show ?thesis using u l x r eq [OF l(2) r(2)] by simp
qed

lemma partition:
  assumes "inv a" "inv b"
  shows "do { x \<leftarrow> df a b; y \<leftarrow> it a b; u \<leftarrow> un x y; eq u a } = Some True"
proof -
  obtain x where x: "df a b = Some x" "inv x" "elems x = elems a - elems b" by (rule dfE [OF assms])
  obtain y where y: "it a b = Some y" "inv y" "elems y = elems a \<inter> elems b" by (rule itE [OF assms])
  obtain u where u: "un x y = Some u" "inv u" "elems u = elems x \<union> elems y" by (rule unE [OF x(2) y(2)])
  have "elems u = elems a" using x y u by auto
  then show ?thesis using x y u eq [OF u(2) assms(1)] by simp
qed

end

lemmas bms_op_ok = bms_union_ok bms_intersect_ok bms_difference_ok bms_add_members_ok
  bms_int_members_ok bms_del_members_ok bms_join_ok

interpretation fresh: set_ops bms_ok members bms_union bms_intersect bms_difference bms_equal
  by unfold_locales (simp_all only: bms_op_ok bms_equal_eq)

interpretation recycled: set_ops bms_ok members bms_add_members bms_int_members bms_del_members bms_equal
  by unfold_locales (simp_all only: bms_op_ok bms_equal_eq)

interpretation joined: set_ops bms_ok members bms_join bms_int_members bms_del_members bms_equal
  by unfold_locales (simp_all only: bms_op_ok bms_equal_eq)

section \<open>Sets built by the operations\<close>

lemma built_ok: "built a A \<Longrightarrow> bms_ok a \<and> members a = A"
proof (induction rule: built.induct)
  case (singleton x c)
  then show ?case using bms_make_singleton_ok [of x] by auto
next
  case (add_member a A x c)
  then show ?case using bms_add_member_ok [of a x] by auto
next
  case (del_member a A x c)
  then show ?case using bms_del_member_ok [of a x] by auto
next
  case (add_range a A l u c)
  then show ?case using bms_add_range_ok [of a l u] by auto
next
  case (union a A b B f c)
  then show ?case using bms_union_ok [of a b] bms_add_members_ok [of a b] bms_join_ok [of a b] by auto
next
  case (inter a A b B f c)
  then show ?case using bms_intersect_ok [of a b] bms_int_members_ok [of a b] by auto
next
  case (diff a A b B f c)
  then show ?case using bms_difference_ok [of a b] bms_del_members_ok [of a b] by auto
next
  case (first a A x c)
  then show ?case using bms_first_member_eq [of a] by auto
qed simp

section \<open>Examples\<close>

lemma members_filter:
  "members (Some s) = set (filter (\<lambda>x. bit (words s ! (x div 32)) (x mod 32)) [0..<32 * nwords s])"
  by (auto simp: members_def wd_def)

lemma example_members:
  "members (Some \<lparr>nwords = 2, words = [5, 2]\<rparr>) = {0, 2, 33}" "members (Some \<lparr>nwords = 2, words = [0, 2]\<rparr>) = {33}"
  "members (Some \<lparr>nwords = 1, words = [4]\<rparr>) = {2}"
  unfolding members_filter by code_simp+

section \<open>Properties\<close>

text \<open>
  C32. Every value that the operations build from the null pointer is well formed (as many words as
  it says, at least one and at most \<open>2 ^ 26\<close>) and denotes exactly the set its history says.
\<close>

theorem bms_built_invariant:
  assumes "built a A"
  shows "bms_ok a \<and> members a = A"
  using assms by (rule built_ok)

theorem bms_built_invariant_witness:
  "\<exists>c. bms_make_singleton 40 = Some (Inr c) \<and> bms_ok c \<and> members c = {40}"
proof -
  obtain c where c: "bms_make_singleton (int 40) = Some (Inr c)"
    using bms_make_singleton_ok [of 40] by auto
  then have "built c {40}" by (intro built.singleton) simp_all
  then show ?thesis using bms_built_invariant [of c "{40}"] c by auto
qed

text \<open>
  C31. On well-formed arguments the set operations, fresh and recycling, stay inside their arrays,
  return a well-formed set and compute union, intersection and difference.
\<close>

theorem bms_operations_refine_sets:
  assumes "bms_ok a" and "bms_ok b"
  shows "(\<forall>f\<in>{bms_union, bms_add_members, bms_join}.
        \<exists>c. f a b = Some c \<and> bms_ok c \<and> members c = members a \<union> members b) \<and>
      (\<forall>f\<in>{bms_intersect, bms_int_members}.
        \<exists>c. f a b = Some c \<and> bms_ok c \<and> members c = members a \<inter> members b) \<and>
      (\<forall>f\<in>{bms_difference, bms_del_members}.
        \<exists>c. f a b = Some c \<and> bms_ok c \<and> members c = members a - members b) \<and>
      bms_copy a = Some a"
  using assms bms_op_ok [OF assms] by (simp add: bms_copy_eq)

theorem bms_operations_refine_sets_witness:
  "\<exists>c. bms_union (Some \<lparr>nwords = 1, words = [5]\<rparr>) (Some \<lparr>nwords = 2, words = [2, 1]\<rparr>) = Some c \<and> bms_ok c"
  using bms_operations_refine_sets [of "Some \<lparr>nwords = 1, words = [5]\<rparr>" "Some \<lparr>nwords = 2, words = [2, 1]\<rparr>"]
  by (auto simp: bms_ok_def)

text \<open>
  \<open>bms_equal\<close> confirms the laws of sets on the results of the operations: distributivity, repeated
  difference, and a set as the union of its parts inside and outside another, with the fresh
  operations as well as with the recycling ones.
\<close>

lemma bms_set_laws:
  assumes "bms_ok a" and "bms_ok b" and "bms_ok c"
  shows "do { u \<leftarrow> bms_union b c; l \<leftarrow> bms_intersect a u; x \<leftarrow> bms_intersect a b; y \<leftarrow> bms_intersect a c;
           r \<leftarrow> bms_union x y; bms_equal l r } = Some True \<and>
      do { u \<leftarrow> bms_join b c; l \<leftarrow> bms_del_members a u; x \<leftarrow> bms_del_members a b; r \<leftarrow> bms_del_members x c;
           bms_equal l r } = Some True \<and>
      do { x \<leftarrow> bms_del_members a b; y \<leftarrow> bms_int_members a b; u \<leftarrow> bms_add_members x y;
           bms_equal u a } = Some True"
  using fresh.it_distrib [OF assms] joined.df_union [OF assms] recycled.partition [OF assms(1,2)]
  by blast

text \<open>
  C35. A single member or a range is added or removed as a set says, membership afterwards is tested
  correctly, and no call leaves its array, for every member an \<open>int\<close> can hold.  A negative member
  raises the error and nothing else happens; a range whose upper end is below its lower end changes nothing, without
  further checks.
\<close>

theorem bms_member_operations:
  assumes "bms_ok a" and "x < 2 ^ 31" and "l \<le> u" and "u < 2 ^ 31" and "z < 0"
  shows "(\<exists>c. bms_add_member a (int x) = Some (Inr c) \<and> bms_ok c \<and> members c = insert x (members a) \<and>
          bms_is_member (int x) c = Some (Inr True)) \<and>
      (\<exists>c. bms_del_member a (int x) = Some (Inr c) \<and> bms_ok c \<and> members c = members a - {x} \<and>
          bms_is_member (int x) c = Some (Inr False)) \<and>
      (\<exists>c. bms_add_range a (int l) (int u) = Some (Inr c) \<and> bms_ok c \<and> members c = members a \<union> {l..u}) \<and>
      bms_is_member (int x) a = Some (Inr (x \<in> members a)) \<and>
      bms_add_member a z = Some (Inl negative_member) \<and> bms_del_member a z = Some (Inl negative_member) \<and>
      bms_is_member z a = Some (Inl negative_member) \<and> bms_make_singleton z = Some (Inl negative_member) \<and>
      bms_add_range a z (int u) = Some (Inl negative_member) \<and>
      (\<forall>lower upper. upper < lower \<longrightarrow> bms_add_range a lower upper = Some (Inr a))"
proof -
  have "bms_add_range a z (int u) = Some (Inl negative_member)" using bms_negative(5) [OF assms(5), of "int u" a] assms(5) by simp
  moreover have "\<forall>lower upper. upper < lower \<longrightarrow> bms_add_range a lower upper = Some (Inr a)" by (simp add: bms_add_range_def)
  ultimately show ?thesis
    using bms_negative(1-4) [OF assms(5)] bms_add_member_ok [OF assms(1,2)] bms_del_member_ok [OF assms(1), of x]
      bms_add_range_ok [OF assms(1,3,4)] bms_is_member_eq [OF assms(1), of x]
    by (auto simp: bms_is_member_eq)
qed

theorem bms_member_operations_witness:
  "\<exists>c. bms_add_range None 30 (70 :: int) = Some (Inr c) \<and> members c = {30..70}"
  using bms_member_operations [of None 3 30 70 "-1"] by auto

text \<open>
  C33. The tests decide what their comments say about the represented sets, whatever the
  representation: equality, subset, overlap, nonempty difference, emptiness, the four-way subset
  comparison, overlap with a list, and the number of members up to two.  \<open>bms_compare\<close> lets the
  highest member that only one set has decide.
\<close>

theorem bms_tests_decide:
  assumes "bms_ok a" and "bms_ok b"
  shows "bms_equal a b = Some (members a = members b) \<and>
      bms_is_subset a b = Some (members a \<subseteq> members b) \<and>
      bms_overlap a b = Some (members a \<inter> members b \<noteq> {}) \<and>
      bms_nonempty_difference a b = Some (members a - members b \<noteq> {}) \<and>
      bms_is_empty a = Some (members a = {}) \<and>
      bms_subset_compare a b = Some (comparison (\<not> members a \<subseteq> members b) (\<not> members b \<subseteq> members a)) \<and>
      bms_overlap_list a (map int ns) = Some (Inr (members a \<inter> set ns \<noteq> {})) \<and>
      bms_membership a = Some (if card (members a) = 0 then BMS_EMPTY_SET
        else if card (members a) = 1 then BMS_SINGLETON else BMS_MULTIPLE) \<and>
      bms_compare a b = Some (if members a = members b then 0
        else if Max ((members a - members b) \<union> (members b - members a)) \<in> members a then 1 else -1)"
  using bms_compare_eq [OF assms, unfolded set_compare_def] assms by (simp add: bms_equal_eq bms_is_subset_eq bms_overlap_eq bms_nonempty_difference_eq
      bms_is_empty_eq bms_subset_compare_eq bms_overlap_list_eq bms_membership_eq)

theorem bms_tests_decide_witness:
  "bms_is_subset (Some \<lparr>nwords = 1, words = [4]\<rparr>) (Some \<lparr>nwords = 2, words = [5, 2]\<rparr>) = Some True \<and>
   bms_overlap (Some \<lparr>nwords = 1, words = [4]\<rparr>) (Some \<lparr>nwords = 2, words = [0, 2]\<rparr>) = Some False"
  using bms_tests_decide [of "Some \<lparr>nwords = 1, words = [4]\<rparr>" "Some \<lparr>nwords = 2, words = [5, 2]\<rparr>" "[]"]
    bms_tests_decide [of "Some \<lparr>nwords = 1, words = [4]\<rparr>" "Some \<lparr>nwords = 2, words = [0, 2]\<rparr>" "[]"]
  by (simp add: example_members bms_ok_def del: One_nat_def)

text \<open>
  C36. \<open>bms_num_members\<close> returns the number of members without overflow as long as an \<open>int\<close> can hold it,
  and the sole member is found exactly when there is one.
\<close>

theorem bms_counts:
  assumes "bms_ok a" and "card (members a) < 2 ^ 31"
  shows "bms_num_members a = Some (int (card (members a))) \<and>
      bms_get_singleton_member a m =
        Some (if \<exists>x. members a = {x} then (True, int (the_elem (members a))) else (False, m)) \<and>
      bms_singleton_member a =
        Some (if members a = {} then Inl ''bitmapset is empty''
              else if \<exists>x. members a = {x} then Inr (int (the_elem (members a)))
              else Inl ''bitmapset has multiple members'')"
  by (simp only: bms_num_members_eq [OF assms] bms_get_singleton_member_eq [OF assms(1)]
      bms_singleton_member_eq [OF assms(1)] simp_thms)

theorem bms_counts_witness:
  "bms_num_members (Some \<lparr>nwords = 2, words = [5, 2]\<rparr>) = Some 3 \<and>
   bms_singleton_member (Some \<lparr>nwords = 2, words = [5, 2]\<rparr>) = Some (Inl ''bitmapset has multiple members'') \<and>
   bms_get_singleton_member (Some \<lparr>nwords = 2, words = [0, 2]\<rparr>) (- 7) = Some (True, 33)"
  using bms_counts [of "Some \<lparr>nwords = 2, words = [5, 2]\<rparr>" 0] bms_counts [of "Some \<lparr>nwords = 2, words = [0, 2]\<rparr>" "- 7"]
  by (simp add: example_members bms_ok_def)

text \<open>
  C34. The documented loop \<open>x = -1; while ((x = bms_next_member(a, x)) >= 0)\<close> ends and visits every
  member once in increasing order; the one condition is that no member is the greatest \<open>int\<close>.  The
  destructive loop \<open>while ((x = bms_first_member(a)) >= 0)\<close> does the same without that condition.
\<close>

theorem bms_iteration_terminates:
  assumes "bms_ok a"
  shows "((\<forall>x\<in>members a. x < 2 ^ 31 - 1) \<longrightarrow> bms_iterate a (-1) = Some (map int (sorted_list_of_set (members a)))) \<and>
    bms_drain a = Some (map int (sorted_list_of_set (members a)))"
  using bms_iterate_from [of a 0] bms_drain_all [of a] assms by auto

theorem bms_iteration_terminates_witness:
  "bms_iterate (Some \<lparr>nwords = 2, words = [5, 2]\<rparr>) (-1) = Some [0, 2, 33] \<and>
   bms_drain (Some \<lparr>nwords = 2, words = [5, 2]\<rparr>) = Some [0, 2, 33]"
proof -
  have "sorted_list_of_set {0, 2, 33} = [0, 2, 33 :: nat]" by simp
  then show ?thesis
    using bms_iteration_terminates [of "Some \<lparr>nwords = 2, words = [5, 2]\<rparr>"] by (simp add: example_members bms_ok_def)
qed

text \<open>
  C37. \<open>bms_prev_member\<close> returns the greatest member below the given bit, or -2, and with -1 the greatest
  of all, as long as the bit is at most one above the last bit of the array.
\<close>

theorem bms_prev_member_greatest:
  assumes "bms_ok (Some s)" and "nwords s < 2 ^ 26" and "0 < q" and "q \<le> 32 * nwords s"
  shows "bms_prev_member (Some s) (int q) =
      Some (if \<exists>x\<in>members (Some s). x < q then int (Max {x \<in> members (Some s). x < q}) else -2) \<and>
    bms_prev_member (Some s) (-1) =
      Some (if members (Some s) = {} then -2 else int (Max (members (Some s))))"
  using bms_prev_member_eq [OF assms(1,3,4)] bms_prev_member_start [OF assms(1,2)] assms(2,4) by simp

theorem bms_prev_member_greatest_witness:
  "bms_prev_member (Some \<lparr>nwords = 2, words = [5, 2]\<rparr>) 33 = Some 2 \<and>
   bms_prev_member (Some \<lparr>nwords = 2, words = [5, 2]\<rparr>) (- 1) = Some 33"
proof -
  have "{x \<in> {0, 2, 33}. x < 33} = {0, 2 :: nat}" by auto
  then show ?thesis
    using bms_prev_member_greatest [of "\<lparr>nwords = 2, words = [5, 2]\<rparr>" 33] by (simp add: example_members bms_ok_def)
qed

text \<open>
  C38. Two sets that \<open>bms_equal\<close> calls equal have the same hash value, also when they have different
  numbers of words.
\<close>

theorem bms_hash_respects_equality:
  assumes "bms_ok a" and "bms_ok b" and "bms_equal a b = Some True"
  shows "\<exists>h. bms_hash_value be a = Some h \<and> bms_hash_value be b = Some h"
proof -
  have "wd a = wd b"
    using assms bms_equal_eq [OF assms(1,2)] members_eq_iff [of a b] by (simp add: fun_eq_iff)
  then show ?thesis using bms_hash_value_eq assms(1,2) by simp
qed

theorem bms_hash_respects_equality_witness:
  "\<exists>h. bms_hash_value True None = Some h \<and> bms_hash_value True (Some \<lparr>nwords = 1, words = [0]\<rparr>) = Some h"
proof -
  have "bms_equal None (Some \<lparr>nwords = 1, words = [0]\<rparr>) = Some True"
    by (simp add: bms_equal_def bms_is_empty_def scan_def)
  then show ?thesis using bms_hash_respects_equality [of None "Some \<lparr>nwords = 1, words = [0]\<rparr>" True]
    by (simp add: bms_ok_def)
qed

end
