(* ===== verification/CRC32C.thy ===== *)
theory CRC32C
  imports CRC32C_Tables Machine_Words
begin

text \<open>
  Model of \<open>other/postgresql-11.1/src/port/pg_crc32c_sb8.c\<close> and of the macros of
  \<open>include/port/pg_crc32c.h\<close> that use it.  The data is an array of bytes that starts at address \<open>addr\<close>;
  only its last two bits matter.  On a big-endian machine the running value is kept in reverse byte
  order.
\<close>

section \<open>The code\<close>

definition table_get :: "bool \<Rightarrow> nat \<Rightarrow> u8 \<Rightarrow> u32 option" where
  "table_get be k i = do { t \<leftarrow> arr_get (pg_crc32c_table be) k; arr_get t (unat i) }"

definition CRC8 :: "bool \<Rightarrow> u32 \<Rightarrow> u8 \<Rightarrow> u32 option" where
  "CRC8 be crc x =
     (if be then do {
        v \<leftarrow> table_get be 0 (ucast ((drop_bit 24 crc XOR ucast x) AND 0xFF));
        Some (v XOR push_bit 8 crc) }
      else do {
        v \<leftarrow> table_get be 0 (ucast ((crc XOR ucast x) AND 0xFF));
        Some (v XOR drop_bit 8 crc) })"

text \<open>The three loops; \<open>p\<close> is the offset of the pointer in the data.\<close>

function crc_head :: "bool \<Rightarrow> nat \<Rightarrow> u8 list \<Rightarrow> nat \<Rightarrow> nat \<Rightarrow> u32 \<Rightarrow> (nat \<times> nat \<times> u32) option" where
  "crc_head be addr dat p len crc =
     (if len > 0 \<and> (addr + p) mod 4 \<noteq> 0 then do {
        x \<leftarrow> arr_get dat p;
        crc \<leftarrow> CRC8 be crc x;
        crc_head be addr dat (p + 1) (len - 1) crc }
      else Some (p, len, crc))"
  by pat_completeness auto
termination by (relation "measure (\<lambda>(_, _, _, _, len, _). len)") auto

definition crc_word_pair :: "bool \<Rightarrow> u32 \<Rightarrow> u32 \<Rightarrow> u32 option" where
  "crc_word_pair be a b = do {
     let byte = (\<lambda>(w :: u32) n. ucast (drop_bit n w) :: u8);
     let (c0, c1, c2, c3) =
       (if be then (byte b 0, byte b 8, byte b 16, byte b 24) else (byte b 24, byte b 16, byte b 8, byte b 0));
     let (c4, c5, c6, c7) =
       (if be then (byte a 0, byte a 8, byte a 16, byte a 24) else (byte a 24, byte a 16, byte a 8, byte a 0));
     t0 \<leftarrow> table_get be 0 c0; t1 \<leftarrow> table_get be 1 c1;
     t2 \<leftarrow> table_get be 2 c2; t3 \<leftarrow> table_get be 3 c3;
     t4 \<leftarrow> table_get be 4 c4; t5 \<leftarrow> table_get be 5 c5;
     t6 \<leftarrow> table_get be 6 c6; t7 \<leftarrow> table_get be 7 c7;
     Some (t0 XOR t1 XOR t2 XOR t3 XOR t4 XOR t5 XOR t6 XOR t7) }"

function crc_words :: "bool \<Rightarrow> u8 list \<Rightarrow> nat \<Rightarrow> nat \<Rightarrow> u32 \<Rightarrow> (nat \<times> nat \<times> u32) option" where
  "crc_words be dat p len crc =
     (if len \<ge> 8 then do {
        a \<leftarrow> fetch be dat p;
        b \<leftarrow> fetch be dat (p + 4);
        crc \<leftarrow> crc_word_pair be (a XOR crc) b;
        crc_words be dat (p + 8) (len - 8) crc }
      else Some (p, len, crc))"
  by pat_completeness auto
termination by (relation "measure (\<lambda>(_, _, _, len, _). len)") auto

function crc_tail :: "bool \<Rightarrow> u8 list \<Rightarrow> nat \<Rightarrow> nat \<Rightarrow> u32 \<Rightarrow> u32 option" where
  "crc_tail be dat p len crc =
     (if len > 0 then do {
        x \<leftarrow> arr_get dat p;
        crc \<leftarrow> CRC8 be crc x;
        crc_tail be dat (p + 1) (len - 1) crc }
      else Some crc)"
  by pat_completeness auto
termination by (relation "measure (\<lambda>(_, _, _, len, _). len)") auto

declare crc_head.simps [simp del] crc_words.simps [simp del] crc_tail.simps [simp del]

definition pg_comp_crc32c_sb8 :: "bool \<Rightarrow> nat \<Rightarrow> u32 \<Rightarrow> u8 list \<Rightarrow> nat \<Rightarrow> u32 option" where
  "pg_comp_crc32c_sb8 be addr crc dat len = do {
     (p, len, crc) \<leftarrow> crc_head be addr dat 0 len crc;
     (p, len, crc) \<leftarrow> crc_words be dat p len crc;
     crc_tail be dat p len crc }"

definition pg_bswap32 :: "u32 \<Rightarrow> u32" where
  "pg_bswap32 x =
     (push_bit 24 x AND 0xff000000) OR (push_bit 8 x AND 0x00ff0000) OR
     (drop_bit 8 x AND 0x0000ff00) OR (drop_bit 24 x AND 0x000000ff)"

definition INIT_CRC32C :: u32 where "INIT_CRC32C = 0xFFFFFFFF"

definition COMP_CRC32C :: "bool \<Rightarrow> nat \<Rightarrow> u32 \<Rightarrow> u8 list \<Rightarrow> nat \<Rightarrow> u32 option" where
  "COMP_CRC32C be addr crc dat len = pg_comp_crc32c_sb8 be addr crc dat len"

definition FIN_CRC32C :: "bool \<Rightarrow> u32 \<Rightarrow> u32" where
  "FIN_CRC32C be crc = (if be then pg_bswap32 crc XOR 0xFFFFFFFF else crc XOR 0xFFFFFFFF)"

definition EQ_CRC32C :: "u32 \<Rightarrow> u32 \<Rightarrow> bool" where "EQ_CRC32C c1 c2 \<longleftrightarrow> c1 = c2"

end
