(* ===== verification/CRC32C_Reference.thy ===== *)
theory CRC32C_Reference
  imports CRC32C
begin

text \<open>
  CRC-32C defined bit by bit, the algebra of its shift register, and the proof that the sixteen tables
  of \<open>pg_crc32c_sb8.c\<close> hold what they should: entry \<open>i\<close> of table \<open>k\<close> is the byte \<open>i\<close> shifted \<open>8 * (k + 1)\<close>
  times, in reverse byte order on a big-endian machine.
\<close>

section \<open>Reference definition\<close>

text \<open>
  CRC-32C bit by bit: the register is shifted right, and the reflected Castagnoli polynomial is added
  when a one falls out.
\<close>

definition crc_shift :: "u32 \<Rightarrow> u32" where
  "crc_shift x = drop_bit 1 x XOR (if bit x 0 then 0x82F63B78 else 0)"

definition crc_byte :: "u32 \<Rightarrow> u8 \<Rightarrow> u32" where
  "crc_byte c b = (crc_shift ^^ 8) (c XOR ucast b)"

definition crc32c :: "u32 \<Rightarrow> u8 list \<Rightarrow> u32" where
  "crc32c c bs = fold (\<lambda>b c. crc_byte c b) bs c"

text \<open>All sums of the given words, in the order of the binary numbers that choose them.\<close>

fun span :: "u32 list \<Rightarrow> u32 list" where
  "span [] = [0]"
| "span (b # bs) = (let r = span bs in r @ map ((XOR) b) r)"

text \<open>The powers of two below 256, and what blocks of eight shifts make of them.\<close>

fun pow_basis :: "nat \<Rightarrow> u32 list" where
  "pow_basis 0 = [0x00000080, 0x00000040, 0x00000020, 0x00000010, 0x00000008, 0x00000004, 0x00000002, 0x00000001]"
| "pow_basis (Suc k) = map (crc_shift ^^ 8) (pow_basis k)"

text \<open>The running value as it is kept: in reverse byte order on a big-endian machine.\<close>

definition register :: "bool \<Rightarrow> u32 \<Rightarrow> u32" where
  "register be c = (if be then pg_bswap32 c else c)"

section \<open>Linear maps on words\<close>

lemma of_nat_add_xor:
  assumes "n < 32" "i < 2 ^ n"
  shows "(of_nat (2 ^ n + i) :: u32) = push_bit n 1 XOR of_nat i"
proof -
  have "take_bit n (of_nat i :: u32) = of_nat i"
    using assms(2) by (simp add: take_bit_of_nat take_bit_nat_eq_self)
  then have low: "j < n" if "bit (of_nat i :: u32) j" for j
    using that by (metis bit_take_bit_iff)
  have "(push_bit n 1 :: u32) AND of_nat i = 0"
    using low [of n] by (auto intro!: bit_eqI simp: bit_and_iff bit_exp_iff)
  then have "push_bit n 1 + of_nat i = (push_bit n 1 :: u32) OR of_nat i" by (rule disjunctive_add_eq_or)
  moreover have "(push_bit n 1 :: u32) OR of_nat i = push_bit n 1 XOR of_nat i"
    using low [of n] by (auto intro!: bit_eqI simp: bit_or_iff bit_xor_iff bit_exp_iff)
  ultimately show ?thesis by simp
qed

lemma upt_double: "[0..<m + m] = [0..<m] @ map (\<lambda>i. m + i) [0..<m]" for m :: nat
  by (rule nth_equalityI) (auto simp: nth_append)

text \<open>
  A map that respects exclusive or is known from its values at the powers of two, and a table of its
  values is their span.
\<close>

locale xor_linear =
  fixes f :: "u32 \<Rightarrow> u32"
  assumes f_xor: "f (x XOR y) = f x XOR f y"
begin

lemma f_0: "f 0 = 0"
  using f_xor [of 0 0] by simp

lemma span_linear:
  assumes "n \<le> 32"
  shows "span (map (\<lambda>j. f (push_bit j 1)) (rev [0..<n])) = map (\<lambda>i. f (of_nat i)) [0..<2 ^ n]"
  using assms
proof (induction n)
  case 0
  then show ?case by (simp add: f_0)
next
  case (Suc n)
  have split: "[0..<2 ^ Suc n] = [0..<2 ^ n] @ map (\<lambda>i. 2 ^ n + i) [0..<2 ^ n :: nat]"
    unfolding power_Suc mult_2 by (rule upt_double)
  have "f (of_nat (2 ^ n + i)) = f (push_bit n 1) XOR f (of_nat i)" if "i < 2 ^ n" for i
    using Suc.prems that of_nat_add_xor [of n i] f_xor by simp
  then have upper: "map (\<lambda>i. f (of_nat (2 ^ n + i))) [0..<2 ^ n] =
      map ((XOR) (f (push_bit n 1))) (map (\<lambda>i. f (of_nat i)) [0..<2 ^ n])"
    by simp
  have "span (map (\<lambda>j. f (push_bit j 1)) (rev [0..<Suc n])) =
      map (\<lambda>i. f (of_nat i)) [0..<2 ^ n] @ map ((XOR) (f (push_bit n 1))) (map (\<lambda>i. f (of_nat i)) [0..<2 ^ n])"
    using Suc by (simp add: Let_def)
  then show ?case unfolding split map_append upper [symmetric] by (simp only: map_map comp_def)
qed

lemma span_entry:
  assumes "xs = map f (map (\<lambda>j. push_bit j 1) (rev [0..<8]))"
  shows "arr_get (span xs) (unat (i :: u8)) = Some (f (ucast i))"
proof -
  have "span xs = map (\<lambda>i. f (of_nat i)) [0..<2 ^ 8]"
    unfolding assms map_map comp_def by (rule span_linear) simp
  moreover have "unat i < 2 ^ 8" using unsigned_less [of i, where ?'a = nat] by simp
  ultimately show ?thesis by (simp add: arr_get_def)
qed

end

section \<open>Linearity\<close>

lemma crc_shift_xor: "crc_shift (x XOR y) = crc_shift x XOR crc_shift y"
  by (auto simp: crc_shift_def drop_bit_xor bit_xor_iff ac_simps)

lemma shifts_xor: "(crc_shift ^^ n) (x XOR y) = (crc_shift ^^ n) x XOR (crc_shift ^^ n) y"
  by (induction n) (simp_all add: crc_shift_xor)

lemma crc_shift_push_bit: "\<not> bit y 31 \<Longrightarrow> crc_shift (push_bit 1 y) = y"
proof -
  assume "\<not> bit y 31"
  then have high: "bit y n \<Longrightarrow> n < 31" for n
    using bit_imp_le_length [of y n] by (cases "n = 31") auto
  have "drop_bit 1 (push_bit 1 y) = y"
    using high by (intro bit_word_eqI) (auto simp: bit_drop_bit_eq bit_push_bit_iff simp del: push_bit_Suc)
  moreover have "\<not> bit (push_bit 1 y) 0" by (simp add: bit_push_bit_iff del: push_bit_Suc)
  ultimately show ?thesis by (simp add: crc_shift_def)
qed

lemma shifts_push_bit:
  assumes "n \<le> 32" "\<And>j. 32 - n \<le> j \<Longrightarrow> \<not> bit y j"
  shows "(crc_shift ^^ n) (push_bit n y) = y"
  using assms
proof (induction n)
  case (Suc n)
  have "\<not> bit (push_bit n y) 31" using Suc.prems by (auto simp: bit_push_bit_iff)
  then have "crc_shift (push_bit (Suc n) y) = push_bit n y"
    using crc_shift_push_bit [of "push_bit n y"] by (simp add: push_bit_push_bit)
  moreover have "(crc_shift ^^ n) (push_bit n y) = y" using Suc by simp
  ultimately show ?case unfolding funpow_Suc_right o_apply by (simp only:)
qed simp

lemma pow_basis_eq: "pow_basis k = map (\<lambda>j. (crc_shift ^^ (8 * k)) (push_bit j 1)) (rev [0..<8])"
proof (induction k)
  case 0
  show ?case by (simp add: upt_rec)
next
  case (Suc k)
  then show ?case by (simp add: funpow_add)
qed

section \<open>Byte order\<close>

lemma swap_masks:
  "(0xff000000 :: u32) = push_bit 24 (mask 8)" "(0x00ff0000 :: u32) = push_bit 16 (mask 8)"
  "(0x0000ff00 :: u32) = push_bit 8 (mask 8)" "(0x000000ff :: u32) = mask 8"
  by (simp_all add: mask_eq_exp_minus_1 push_bit_eq_mult)

lemma bit_bswap32:
  "bit (pg_bswap32 x) n \<longleftrightarrow>
    (if n < 8 then bit x (n + 24) else if n < 16 then bit x (n + 8)
     else if n < 24 then bit x (n - 8) else n < 32 \<and> bit x (n - 24))"
proof -
  have "n < 8 \<or> 8 \<le> n \<and> n < 16 \<or> 16 \<le> n \<and> n < 24 \<or> 24 \<le> n" by auto
  then show ?thesis
    unfolding pg_bswap32_def swap_masks
    by (elim disjE) (auto simp: bit_and_iff bit_or_iff bit_push_bit_iff bit_drop_bit_eq bit_mask_iff add.commute)
qed

lemma bswap32_xor: "pg_bswap32 (x XOR y) = pg_bswap32 x XOR pg_bswap32 y"
  by (rule bit_word_eqI) (simp add: bit_bswap32 bit_xor_iff)

lemma register_xor: "register be (x XOR y) = register be x XOR register be y"
  by (simp add: register_def bswap32_xor)

lemma bswap32_bswap32 [simp]: "pg_bswap32 (pg_bswap32 x) = x"
proof (rule bit_word_eqI)
  fix n assume "n < LENGTH(32)"
  then have "n < 8 \<or> 8 \<le> n \<and> n < 16 \<or> 16 \<le> n \<and> n < 24 \<or> 24 \<le> n \<and> n < 32" by auto
  then show "bit (pg_bswap32 (pg_bswap32 x)) n \<longleftrightarrow> bit x n" by (elim disjE) (auto simp: bit_bswap32)
qed

lemma bswap32_bytes:
  "(ucast (pg_bswap32 x) :: u8) = ucast (drop_bit 24 x)"
  "(ucast (drop_bit 8 (pg_bswap32 x)) :: u8) = ucast (drop_bit 16 x)"
  "(ucast (drop_bit 16 (pg_bswap32 x)) :: u8) = ucast (drop_bit 8 x)"
  "(ucast (drop_bit 24 (pg_bswap32 x)) :: u8) = ucast x"
  by (rule bit_word_eqI; simp add: bit_bswap32 bit_ucast_iff bit_drop_bit_eq add.commute)+

lemma push_bit_bswap32: "push_bit 8 (pg_bswap32 x) = pg_bswap32 (drop_bit 8 x)"
proof (rule bit_word_eqI)
  fix n assume "n < LENGTH(32)"
  then have "n < 8 \<or> 8 \<le> n \<and> n < 16 \<or> 16 \<le> n \<and> n < 24 \<or> 24 \<le> n \<and> n < 32" by auto
  then show "bit (push_bit 8 (pg_bswap32 x)) n \<longleftrightarrow> bit (pg_bswap32 (drop_bit 8 x)) n"
    by (elim disjE) (auto simp: bit_bswap32 bit_push_bit_iff bit_drop_bit_eq add.commute dest: bit_imp_le_length)
qed

lemma word_at_register: "word_at be bs = register be (word_at False bs)"
proof -
  have "word_at True bs = pg_bswap32 (word_at False bs)"
  proof (rule bit_word_eqI)
    fix n assume "n < LENGTH(32)"
    then have "n < 8 \<or> 8 \<le> n \<and> n < 16 \<or> 16 \<le> n \<and> n < 24 \<or> 24 \<le> n \<and> n < 32" by auto
    then show "bit (word_at True bs) n \<longleftrightarrow> bit (pg_bswap32 (word_at False bs)) n"
      by (elim disjE) (auto simp: word_at_def word_of_bytes_def bit_bswap32 bit_or_iff bit_push_bit_iff bit_ucast_iff
          dest: bit_u8)
  qed
  then show ?thesis by (cases be) (simp_all add: register_def)
qed

interpretation shifts: xor_linear "crc_shift ^^ n" for n
  by unfold_locales (rule shifts_xor)

interpretation swapped: xor_linear "\<lambda>x. pg_bswap32 ((crc_shift ^^ n) x)" for n
  by unfold_locales (simp only: shifts_xor bswap32_xor)

section \<open>The tables\<close>

text \<open>Each table is the span of its entries at the powers of two.\<close>

lemma table_le_0_span: "table_le_0 = span
  [0x82F63B78, 0x417B1DBC, 0x20BD8EDE, 0x105EC76F, 0x8AD958CF, 0xC79A971F, 0xE13B70F7, 0xF26B8303]"
  by (simp add: table_le_0_def Let_def)

lemma table_le_1_span: "table_le_1 = span
  [0xFBC3FAF9, 0xFF17C604, 0x7F8BE302, 0x3FC5F181, 0x9D14C3B8, 0x4E8A61DC, 0x274530EE, 0x13A29877]"
  by (simp add: table_le_1_def Let_def)

lemma table_le_2_span: "table_le_2 = span
  [0x8B277743, 0xC76580D9, 0xE144FB14, 0x70A27D8A, 0x38513EC5, 0x9EDEA41A, 0x4F6F520D, 0xA541927E]"
  by (simp add: table_le_2_def Let_def)

lemma table_le_3_span: "table_le_3 = span
  [0x52A0C93F, 0xABA65FE7, 0xD725148B, 0xE964B13D, 0xF64463E6, 0x7B2231F3, 0xBF672381, 0xDD45AAB8]"
  by (simp add: table_le_3_def Let_def)

lemma table_le_4_span: "table_le_4 = span
  [0x6EA2D55C, 0x37516AAE, 0x1BA8B557, 0x8F2261D3, 0xC5670B91, 0xE045BEB0, 0x7022DF58, 0x38116FAC]"
  by (simp add: table_le_4_def Let_def)

lemma table_le_5_span: "table_le_5 = span
  [0x1C08B7D6, 0x0E045BEB, 0x85F4168D, 0xC00C303E, 0x6006181F, 0xB2F53777, 0xDB8CA0C3, 0xEF306B19]"
  by (simp add: table_le_5_def Let_def)

lemma table_le_6_span: "table_le_6 = span
  [0xF56E0EF4, 0x7AB7077A, 0x3D5B83BD, 0x9C5BFAA6, 0x4E2DFD53, 0xA5E0C5D1, 0xD0065990, 0x68032CC8]"
  by (simp add: table_le_6_def Let_def)

lemma table_le_7_span: "table_le_7 = span
  [0x34019664, 0x1A00CB32, 0x0D006599, 0x847609B4, 0x423B04DA, 0x211D826D, 0x9278FA4E, 0x493C7D27]"
  by (simp add: table_le_7_def Let_def)

lemma table_be_0_span: "table_be_0 = span
  [0x783BF682, 0xBC1D7B41, 0xDE8EBD20, 0x6FC75E10, 0xCF58D98A, 0x1F979AC7, 0xF7703BE1, 0x03836BF2]"
  by (simp add: table_be_0_def Let_def)

lemma table_be_1_span: "table_be_1 = span
  [0xF9FAC3FB, 0x04C617FF, 0x02E38B7F, 0x81F1C53F, 0xB8C3149D, 0xDC618A4E, 0xEE304527, 0x7798A213]"
  by (simp add: table_be_1_def Let_def)

lemma table_be_2_span: "table_be_2 = span
  [0x4377278B, 0xD98065C7, 0x14FB44E1, 0x8A7DA270, 0xC53E5138, 0x1AA4DE9E, 0x0D526F4F, 0x7E9241A5]"
  by (simp add: table_be_2_def Let_def)

lemma table_be_3_span: "table_be_3 = span
  [0x3FC9A052, 0xE75FA6AB, 0x8B1425D7, 0x3DB164E9, 0xE66344F6, 0xF331227B, 0x812367BF, 0xB8AA45DD]"
  by (simp add: table_be_3_def Let_def)

lemma table_be_4_span: "table_be_4 = span
  [0x5CD5A26E, 0xAE6A5137, 0x57B5A81B, 0xD361228F, 0x910B67C5, 0xB0BE45E0, 0x58DF2270, 0xAC6F1138]"
  by (simp add: table_be_4_def Let_def)

lemma table_be_5_span: "table_be_5 = span
  [0xD6B7081C, 0xEB5B040E, 0x8D16F485, 0x3E300CC0, 0x1F180660, 0x7737F5B2, 0xC3A08CDB, 0x196B30EF]"
  by (simp add: table_be_5_def Let_def)

lemma table_be_6_span: "table_be_6 = span
  [0xF40E6EF5, 0x7A07B77A, 0xBD835B3D, 0xA6FA5B9C, 0x53FD2D4E, 0xD1C5E0A5, 0x905906D0, 0xC82C0368]"
  by (simp add: table_be_6_def Let_def)

lemma table_be_7_span: "table_be_7 = span
  [0x64960134, 0x32CB001A, 0x9965000D, 0xB4097684, 0xDA043B42, 0x6D821D21, 0x4EFA7892, 0x277D3C49]"
  by (simp add: table_be_7_def Let_def)

text \<open>The entries at the powers of two are what eight more shifts make of those of the table before.\<close>

lemma funpow_8: "(f ^^ 8) x = f (f (f (f (f (f (f (f x)))))))"
  by (simp add: eval_nat_numeral)

lemma shift_basis_0:
  "(crc_shift ^^ 8) 0x00000080 = 0x82F63B78"
  "(crc_shift ^^ 8) 0x00000040 = 0x417B1DBC"
  "(crc_shift ^^ 8) 0x00000020 = 0x20BD8EDE"
  "(crc_shift ^^ 8) 0x00000010 = 0x105EC76F"
  "(crc_shift ^^ 8) 0x00000008 = 0x8AD958CF"
  "(crc_shift ^^ 8) 0x00000004 = 0xC79A971F"
  "(crc_shift ^^ 8) 0x00000002 = 0xE13B70F7"
  "(crc_shift ^^ 8) 0x00000001 = 0xF26B8303"
  by (simp_all only: funpow_8) (simp_all add: crc_shift_def)

lemma shift_basis_1:
  "(crc_shift ^^ 8) 0x82F63B78 = 0xFBC3FAF9"
  "(crc_shift ^^ 8) 0x417B1DBC = 0xFF17C604"
  "(crc_shift ^^ 8) 0x20BD8EDE = 0x7F8BE302"
  "(crc_shift ^^ 8) 0x105EC76F = 0x3FC5F181"
  "(crc_shift ^^ 8) 0x8AD958CF = 0x9D14C3B8"
  "(crc_shift ^^ 8) 0xC79A971F = 0x4E8A61DC"
  "(crc_shift ^^ 8) 0xE13B70F7 = 0x274530EE"
  "(crc_shift ^^ 8) 0xF26B8303 = 0x13A29877"
  by (simp_all only: funpow_8) (simp_all add: crc_shift_def)

lemma shift_basis_2:
  "(crc_shift ^^ 8) 0xFBC3FAF9 = 0x8B277743"
  "(crc_shift ^^ 8) 0xFF17C604 = 0xC76580D9"
  "(crc_shift ^^ 8) 0x7F8BE302 = 0xE144FB14"
  "(crc_shift ^^ 8) 0x3FC5F181 = 0x70A27D8A"
  "(crc_shift ^^ 8) 0x9D14C3B8 = 0x38513EC5"
  "(crc_shift ^^ 8) 0x4E8A61DC = 0x9EDEA41A"
  "(crc_shift ^^ 8) 0x274530EE = 0x4F6F520D"
  "(crc_shift ^^ 8) 0x13A29877 = 0xA541927E"
  by (simp_all only: funpow_8) (simp_all add: crc_shift_def)

lemma shift_basis_3:
  "(crc_shift ^^ 8) 0x8B277743 = 0x52A0C93F"
  "(crc_shift ^^ 8) 0xC76580D9 = 0xABA65FE7"
  "(crc_shift ^^ 8) 0xE144FB14 = 0xD725148B"
  "(crc_shift ^^ 8) 0x70A27D8A = 0xE964B13D"
  "(crc_shift ^^ 8) 0x38513EC5 = 0xF64463E6"
  "(crc_shift ^^ 8) 0x9EDEA41A = 0x7B2231F3"
  "(crc_shift ^^ 8) 0x4F6F520D = 0xBF672381"
  "(crc_shift ^^ 8) 0xA541927E = 0xDD45AAB8"
  by (simp_all only: funpow_8) (simp_all add: crc_shift_def)

lemma shift_basis_4:
  "(crc_shift ^^ 8) 0x52A0C93F = 0x6EA2D55C"
  "(crc_shift ^^ 8) 0xABA65FE7 = 0x37516AAE"
  "(crc_shift ^^ 8) 0xD725148B = 0x1BA8B557"
  "(crc_shift ^^ 8) 0xE964B13D = 0x8F2261D3"
  "(crc_shift ^^ 8) 0xF64463E6 = 0xC5670B91"
  "(crc_shift ^^ 8) 0x7B2231F3 = 0xE045BEB0"
  "(crc_shift ^^ 8) 0xBF672381 = 0x7022DF58"
  "(crc_shift ^^ 8) 0xDD45AAB8 = 0x38116FAC"
  by (simp_all only: funpow_8) (simp_all add: crc_shift_def)

lemma shift_basis_5:
  "(crc_shift ^^ 8) 0x6EA2D55C = 0x1C08B7D6"
  "(crc_shift ^^ 8) 0x37516AAE = 0x0E045BEB"
  "(crc_shift ^^ 8) 0x1BA8B557 = 0x85F4168D"
  "(crc_shift ^^ 8) 0x8F2261D3 = 0xC00C303E"
  "(crc_shift ^^ 8) 0xC5670B91 = 0x6006181F"
  "(crc_shift ^^ 8) 0xE045BEB0 = 0xB2F53777"
  "(crc_shift ^^ 8) 0x7022DF58 = 0xDB8CA0C3"
  "(crc_shift ^^ 8) 0x38116FAC = 0xEF306B19"
  by (simp_all only: funpow_8) (simp_all add: crc_shift_def)

lemma shift_basis_6:
  "(crc_shift ^^ 8) 0x1C08B7D6 = 0xF56E0EF4"
  "(crc_shift ^^ 8) 0x0E045BEB = 0x7AB7077A"
  "(crc_shift ^^ 8) 0x85F4168D = 0x3D5B83BD"
  "(crc_shift ^^ 8) 0xC00C303E = 0x9C5BFAA6"
  "(crc_shift ^^ 8) 0x6006181F = 0x4E2DFD53"
  "(crc_shift ^^ 8) 0xB2F53777 = 0xA5E0C5D1"
  "(crc_shift ^^ 8) 0xDB8CA0C3 = 0xD0065990"
  "(crc_shift ^^ 8) 0xEF306B19 = 0x68032CC8"
  by (simp_all only: funpow_8) (simp_all add: crc_shift_def)

lemma shift_basis_7:
  "(crc_shift ^^ 8) 0xF56E0EF4 = 0x34019664"
  "(crc_shift ^^ 8) 0x7AB7077A = 0x1A00CB32"
  "(crc_shift ^^ 8) 0x3D5B83BD = 0x0D006599"
  "(crc_shift ^^ 8) 0x9C5BFAA6 = 0x847609B4"
  "(crc_shift ^^ 8) 0x4E2DFD53 = 0x423B04DA"
  "(crc_shift ^^ 8) 0xA5E0C5D1 = 0x211D826D"
  "(crc_shift ^^ 8) 0xD0065990 = 0x9278FA4E"
  "(crc_shift ^^ 8) 0x68032CC8 = 0x493C7D27"
  by (simp_all only: funpow_8) (simp_all add: crc_shift_def)

lemma swap_basis:
  "pg_bswap32 0x82F63B78 = 0x783BF682"
  "pg_bswap32 0x417B1DBC = 0xBC1D7B41"
  "pg_bswap32 0x20BD8EDE = 0xDE8EBD20"
  "pg_bswap32 0x105EC76F = 0x6FC75E10"
  "pg_bswap32 0x8AD958CF = 0xCF58D98A"
  "pg_bswap32 0xC79A971F = 0x1F979AC7"
  "pg_bswap32 0xE13B70F7 = 0xF7703BE1"
  "pg_bswap32 0xF26B8303 = 0x03836BF2"
  "pg_bswap32 0xFBC3FAF9 = 0xF9FAC3FB"
  "pg_bswap32 0xFF17C604 = 0x04C617FF"
  "pg_bswap32 0x7F8BE302 = 0x02E38B7F"
  "pg_bswap32 0x3FC5F181 = 0x81F1C53F"
  "pg_bswap32 0x9D14C3B8 = 0xB8C3149D"
  "pg_bswap32 0x4E8A61DC = 0xDC618A4E"
  "pg_bswap32 0x274530EE = 0xEE304527"
  "pg_bswap32 0x13A29877 = 0x7798A213"
  "pg_bswap32 0x8B277743 = 0x4377278B"
  "pg_bswap32 0xC76580D9 = 0xD98065C7"
  "pg_bswap32 0xE144FB14 = 0x14FB44E1"
  "pg_bswap32 0x70A27D8A = 0x8A7DA270"
  "pg_bswap32 0x38513EC5 = 0xC53E5138"
  "pg_bswap32 0x9EDEA41A = 0x1AA4DE9E"
  "pg_bswap32 0x4F6F520D = 0x0D526F4F"
  "pg_bswap32 0xA541927E = 0x7E9241A5"
  "pg_bswap32 0x52A0C93F = 0x3FC9A052"
  "pg_bswap32 0xABA65FE7 = 0xE75FA6AB"
  "pg_bswap32 0xD725148B = 0x8B1425D7"
  "pg_bswap32 0xE964B13D = 0x3DB164E9"
  "pg_bswap32 0xF64463E6 = 0xE66344F6"
  "pg_bswap32 0x7B2231F3 = 0xF331227B"
  "pg_bswap32 0xBF672381 = 0x812367BF"
  "pg_bswap32 0xDD45AAB8 = 0xB8AA45DD"
  "pg_bswap32 0x6EA2D55C = 0x5CD5A26E"
  "pg_bswap32 0x37516AAE = 0xAE6A5137"
  "pg_bswap32 0x1BA8B557 = 0x57B5A81B"
  "pg_bswap32 0x8F2261D3 = 0xD361228F"
  "pg_bswap32 0xC5670B91 = 0x910B67C5"
  "pg_bswap32 0xE045BEB0 = 0xB0BE45E0"
  "pg_bswap32 0x7022DF58 = 0x58DF2270"
  "pg_bswap32 0x38116FAC = 0xAC6F1138"
  "pg_bswap32 0x1C08B7D6 = 0xD6B7081C"
  "pg_bswap32 0x0E045BEB = 0xEB5B040E"
  "pg_bswap32 0x85F4168D = 0x8D16F485"
  "pg_bswap32 0xC00C303E = 0x3E300CC0"
  "pg_bswap32 0x6006181F = 0x1F180660"
  "pg_bswap32 0xB2F53777 = 0x7737F5B2"
  "pg_bswap32 0xDB8CA0C3 = 0xC3A08CDB"
  "pg_bswap32 0xEF306B19 = 0x196B30EF"
  "pg_bswap32 0xF56E0EF4 = 0xF40E6EF5"
  "pg_bswap32 0x7AB7077A = 0x7A07B77A"
  "pg_bswap32 0x3D5B83BD = 0xBD835B3D"
  "pg_bswap32 0x9C5BFAA6 = 0xA6FA5B9C"
  "pg_bswap32 0x4E2DFD53 = 0x53FD2D4E"
  "pg_bswap32 0xA5E0C5D1 = 0xD1C5E0A5"
  "pg_bswap32 0xD0065990 = 0x905906D0"
  "pg_bswap32 0x68032CC8 = 0xC82C0368"
  "pg_bswap32 0x34019664 = 0x64960134"
  "pg_bswap32 0x1A00CB32 = 0x32CB001A"
  "pg_bswap32 0x0D006599 = 0x9965000D"
  "pg_bswap32 0x847609B4 = 0xB4097684"
  "pg_bswap32 0x423B04DA = 0xDA043B42"
  "pg_bswap32 0x211D826D = 0x6D821D21"
  "pg_bswap32 0x9278FA4E = 0x4EFA7892"
  "pg_bswap32 0x493C7D27 = 0x277D3C49"
  by (simp_all add: pg_bswap32_def)

lemma pow_basis_1: "pow_basis (Suc 0) =
  [0x82F63B78, 0x417B1DBC, 0x20BD8EDE, 0x105EC76F, 0x8AD958CF, 0xC79A971F, 0xE13B70F7, 0xF26B8303]"
  by (subst pow_basis.simps(2)) (simp only: pow_basis.simps(1) list.map shift_basis_0)

lemma pow_basis_2: "pow_basis (Suc (Suc 0)) =
  [0xFBC3FAF9, 0xFF17C604, 0x7F8BE302, 0x3FC5F181, 0x9D14C3B8, 0x4E8A61DC, 0x274530EE, 0x13A29877]"
  by (subst pow_basis.simps(2)) (simp only: pow_basis_1 list.map shift_basis_1)

lemma pow_basis_3: "pow_basis (Suc (Suc (Suc 0))) =
  [0x8B277743, 0xC76580D9, 0xE144FB14, 0x70A27D8A, 0x38513EC5, 0x9EDEA41A, 0x4F6F520D, 0xA541927E]"
  by (subst pow_basis.simps(2)) (simp only: pow_basis_2 list.map shift_basis_2)

lemma pow_basis_4: "pow_basis (Suc (Suc (Suc (Suc 0)))) =
  [0x52A0C93F, 0xABA65FE7, 0xD725148B, 0xE964B13D, 0xF64463E6, 0x7B2231F3, 0xBF672381, 0xDD45AAB8]"
  by (subst pow_basis.simps(2)) (simp only: pow_basis_3 list.map shift_basis_3)

lemma pow_basis_5: "pow_basis (Suc (Suc (Suc (Suc (Suc 0))))) =
  [0x6EA2D55C, 0x37516AAE, 0x1BA8B557, 0x8F2261D3, 0xC5670B91, 0xE045BEB0, 0x7022DF58, 0x38116FAC]"
  by (subst pow_basis.simps(2)) (simp only: pow_basis_4 list.map shift_basis_4)

lemma pow_basis_6: "pow_basis (Suc (Suc (Suc (Suc (Suc (Suc 0)))))) =
  [0x1C08B7D6, 0x0E045BEB, 0x85F4168D, 0xC00C303E, 0x6006181F, 0xB2F53777, 0xDB8CA0C3, 0xEF306B19]"
  by (subst pow_basis.simps(2)) (simp only: pow_basis_5 list.map shift_basis_5)

lemma pow_basis_7: "pow_basis (Suc (Suc (Suc (Suc (Suc (Suc (Suc 0))))))) =
  [0xF56E0EF4, 0x7AB7077A, 0x3D5B83BD, 0x9C5BFAA6, 0x4E2DFD53, 0xA5E0C5D1, 0xD0065990, 0x68032CC8]"
  by (subst pow_basis.simps(2)) (simp only: pow_basis_6 list.map shift_basis_6)

lemma pow_basis_8: "pow_basis (Suc (Suc (Suc (Suc (Suc (Suc (Suc (Suc 0)))))))) =
  [0x34019664, 0x1A00CB32, 0x0D006599, 0x847609B4, 0x423B04DA, 0x211D826D, 0x9278FA4E, 0x493C7D27]"
  by (subst pow_basis.simps(2)) (simp only: pow_basis_7 list.map shift_basis_7)

lemma tables_le:
  "table_le_0 = span (pow_basis (Suc 0))"
  "table_le_1 = span (pow_basis (Suc (Suc 0)))"
  "table_le_2 = span (pow_basis (Suc (Suc (Suc 0))))"
  "table_le_3 = span (pow_basis (Suc (Suc (Suc (Suc 0)))))"
  "table_le_4 = span (pow_basis (Suc (Suc (Suc (Suc (Suc 0))))))"
  "table_le_5 = span (pow_basis (Suc (Suc (Suc (Suc (Suc (Suc 0)))))))"
  "table_le_6 = span (pow_basis (Suc (Suc (Suc (Suc (Suc (Suc (Suc 0))))))))"
  "table_le_7 = span (pow_basis (Suc (Suc (Suc (Suc (Suc (Suc (Suc (Suc 0)))))))))"
  by (simp_all only: table_le_0_span pow_basis_1 table_le_1_span pow_basis_2 table_le_2_span pow_basis_3 table_le_3_span pow_basis_4 table_le_4_span pow_basis_5 table_le_5_span pow_basis_6 table_le_6_span pow_basis_7 table_le_7_span pow_basis_8)

lemma tables_be:
  "table_be_0 = span (map pg_bswap32 (pow_basis (Suc 0)))"
  "table_be_1 = span (map pg_bswap32 (pow_basis (Suc (Suc 0))))"
  "table_be_2 = span (map pg_bswap32 (pow_basis (Suc (Suc (Suc 0)))))"
  "table_be_3 = span (map pg_bswap32 (pow_basis (Suc (Suc (Suc (Suc 0))))))"
  "table_be_4 = span (map pg_bswap32 (pow_basis (Suc (Suc (Suc (Suc (Suc 0)))))))"
  "table_be_5 = span (map pg_bswap32 (pow_basis (Suc (Suc (Suc (Suc (Suc (Suc 0))))))))"
  "table_be_6 = span (map pg_bswap32 (pow_basis (Suc (Suc (Suc (Suc (Suc (Suc (Suc 0)))))))))"
  "table_be_7 = span (map pg_bswap32 (pow_basis (Suc (Suc (Suc (Suc (Suc (Suc (Suc (Suc 0))))))))))"
  by (simp_all only: table_be_0_span pow_basis_1 table_be_1_span pow_basis_2 table_be_2_span pow_basis_3 table_be_3_span pow_basis_4 table_be_4_span pow_basis_5 table_be_5_span pow_basis_6 table_be_6_span pow_basis_7 table_be_7_span pow_basis_8 list.map swap_basis)

section \<open>Table look-ups\<close>

lemma span_basis: "arr_get (span (pow_basis k)) (unat (i :: u8)) = Some ((crc_shift ^^ (8 * k)) (ucast i))"
  by (rule shifts.span_entry) (simp only: pow_basis_eq map_map comp_def)

lemma span_swapped_basis:
  "arr_get (span (map pg_bswap32 (pow_basis k))) (unat (i :: u8)) =
    Some (pg_bswap32 ((crc_shift ^^ (8 * k)) (ucast i)))"
  by (rule swapped.span_entry) (simp only: pow_basis_eq map_map comp_def)

lemma table_get_eq:
  assumes "k < 8"
  shows "table_get be k i = Some (register be ((crc_shift ^^ (8 * Suc k)) (ucast i)))"
proof -
  have "k = 0 \<or> k = 1 \<or> k = 2 \<or> k = 3 \<or> k = 4 \<or> k = 5 \<or> k = 6 \<or> k = 7" using assms by auto
  moreover have "arr_get (pg_crc32c_table False) k = Some (span (pow_basis (Suc k)))"
    using calculation
    by (elim disjE) (simp_all add: pg_crc32c_table_def arr_get_def tables_le eval_nat_numeral del: pow_basis.simps)
  moreover have "arr_get (pg_crc32c_table True) k = Some (span (map pg_bswap32 (pow_basis (Suc k))))"
    using calculation(1)
    by (elim disjE) (simp_all add: pg_crc32c_table_def arr_get_def tables_be eval_nat_numeral del: pow_basis.simps)
  ultimately show ?thesis
    using span_basis [of "Suc k" i] span_swapped_basis [of "Suc k" i]
    by (cases be) (simp_all add: table_get_def register_def del: pow_basis.simps)
qed

section \<open>Shifting whole bytes\<close>

lemma shifts_shift: "m \<le> n \<Longrightarrow> m \<le> 32 \<Longrightarrow> (\<And>j. 32 - m \<le> j \<Longrightarrow> \<not> bit y j) \<Longrightarrow>
    (crc_shift ^^ n) (push_bit m y) = (crc_shift ^^ (n - m)) y"
  using shifts_push_bit [of m y] funpow_add [of "n - m" m crc_shift] by simp

lemma no_high_bits: "32 - m \<le> j \<Longrightarrow> m \<le> 24 \<Longrightarrow> \<not> bit (ucast (b :: u8) :: u32) j"
  by (auto simp: bit_ucast_iff dest: bit_u8)

lemma shifts_byte: "m \<le> n \<Longrightarrow> m \<le> 24 \<Longrightarrow>
    (crc_shift ^^ n) (push_bit m (ucast (b :: u8))) = (crc_shift ^^ (n - m)) (ucast b)"
  by (rule shifts_shift) (auto dest: no_high_bits)

lemma word_bytes: "w = word_of_bytes False (ucast w) (ucast (drop_bit 8 w)) (ucast (drop_bit 16 w)) (ucast (drop_bit 24 w))"
  using word_at_bytes32 [of False w] by (simp add: word_at_def bytes32_def upt_rec)

lemma word_of_bytes_xor: "word_of_bytes False b0 b1 b2 b3 =
    ucast b0 XOR push_bit 8 (ucast b1) XOR push_bit 16 (ucast b2) XOR push_bit 24 (ucast b3)"
proof (rule bit_word_eqI)
  fix n assume "n < LENGTH(32)"
  then have "n < 8 \<or> 8 \<le> n \<and> n < 16 \<or> 16 \<le> n \<and> n < 24 \<or> 24 \<le> n \<and> n < 32" by auto
  then show "bit (word_of_bytes False b0 b1 b2 b3) n \<longleftrightarrow>
      bit (ucast b0 XOR push_bit 8 (ucast b1) XOR push_bit 16 (ucast b2) XOR push_bit 24 (ucast b3) :: u32) n"
    by (elim disjE) (auto simp: word_of_bytes_def bit_or_iff bit_xor_iff bit_push_bit_iff bit_ucast_iff dest: bit_u8)
qed

lemma shifts_word: "32 \<le> n \<Longrightarrow> (crc_shift ^^ n) (word_of_bytes False b0 b1 b2 b3) =
    (crc_shift ^^ n) (ucast b0) XOR (crc_shift ^^ (n - 8)) (ucast b1) XOR
    (crc_shift ^^ (n - 16)) (ucast b2) XOR (crc_shift ^^ (n - 24)) (ucast b3)"
  by (simp add: word_of_bytes_xor shifts_xor shifts_byte)

lemma shifts_split_byte: "(crc_shift ^^ 8) y = (crc_shift ^^ 8) (ucast (ucast y :: u8)) XOR drop_bit 8 y"
proof -
  have "y = ucast (ucast y :: u8) XOR push_bit 8 (drop_bit 8 y)"
    by (rule bit_word_eqI) (auto simp: bit_xor_iff bit_ucast_iff bit_push_bit_iff bit_drop_bit_eq)
  then have "(crc_shift ^^ 8) y = (crc_shift ^^ 8) (ucast (ucast y :: u8) XOR push_bit 8 (drop_bit 8 y))" by simp
  also have "(crc_shift ^^ 8) (push_bit 8 (drop_bit 8 y)) = drop_bit 8 y"
    by (rule shifts_push_bit) (auto simp: bit_drop_bit_eq dest: bit_imp_le_length)
  then have "(crc_shift ^^ 8) (ucast (ucast y :: u8) XOR push_bit 8 (drop_bit 8 y)) =
      (crc_shift ^^ 8) (ucast (ucast y :: u8)) XOR drop_bit 8 y"
    unfolding shifts_xor by (simp only:)
  finally show ?thesis .
qed

lemma crc_bytes_4: "crc32c c [b0, b1, b2, b3] = (crc_shift ^^ 32) (c XOR word_of_bytes False b0 b1 b2 b3)"
proof -
  have add: "(crc_shift ^^ 8) ((crc_shift ^^ n) x XOR ucast b) = (crc_shift ^^ (n + 8)) (x XOR push_bit n (ucast b))"
    if "n \<le> 24" for n x and b :: u8
  proof -
    have "(crc_shift ^^ (n + 8)) (push_bit n (ucast b)) = (crc_shift ^^ 8) (ucast b)"
      using that shifts_byte [of n "n + 8" b] by simp
    then show ?thesis by (simp add: shifts_xor) (simp add: funpow_add add.commute [of n])
  qed
  show ?thesis
    by (simp add: crc32c_def crc_byte_def add word_of_bytes_xor xor.assoc)
qed

end
