(* ===== verification/CRC32C_Correct.thy ===== *)
theory CRC32C_Correct
  imports CRC32C_Reference
begin

text \<open>
  \<open>pg_comp_crc32c_sb8\<close> computes CRC-32C for every alignment and byte order, the checksum does not depend
  on how the data is cut into pieces, and it detects every change confined to four consecutive bytes.
\<close>

section \<open>Checksum of data in pieces\<close>

text \<open>
  The way the macros are used: \<open>INIT_CRC32C\<close>, one \<open>COMP_CRC32C\<close> for each piece (its address, its memory and
  the length asked for), \<open>FIN_CRC32C\<close>.
\<close>

definition crc_pieces :: "bool \<Rightarrow> (nat \<times> u8 list \<times> nat) list \<Rightarrow> u32 option" where
  "crc_pieces be ps = do {
     crc \<leftarrow> foldM (\<lambda>(addr, dat, len) crc. COMP_CRC32C be addr crc dat len) ps INIT_CRC32C;
     Some (FIN_CRC32C be crc) }"

definition crc_input :: "(nat \<times> u8 list \<times> nat) list \<Rightarrow> u8 list" where
  "crc_input ps = concat (map (\<lambda>(_, dat, len). take len dat) ps)"

section \<open>The tables\<close>

lemma table_entries:
  "table_get be 0 i = Some (register be ((crc_shift ^^ 8) (ucast i)))"
  "table_get be 1 i = Some (register be ((crc_shift ^^ 16) (ucast i)))"
  "table_get be 2 i = Some (register be ((crc_shift ^^ 24) (ucast i)))"
  "table_get be 3 i = Some (register be ((crc_shift ^^ 32) (ucast i)))"
  "table_get be 4 i = Some (register be ((crc_shift ^^ 40) (ucast i)))"
  "table_get be 5 i = Some (register be ((crc_shift ^^ 48) (ucast i)))"
  "table_get be 6 i = Some (register be ((crc_shift ^^ 56) (ucast i)))"
  "table_get be 7 i = Some (register be ((crc_shift ^^ 64) (ucast i)))"
  using table_get_eq [of _ be i] by simp_all

section \<open>One step of each loop\<close>

lemma CRC8_eq: "CRC8 be (register be c) x = Some (register be (crc_byte c x))"
proof -
  have low: "(ucast (y AND 0xFF) :: u8) = ucast y" for y :: u32
    unfolding swap_masks by (rule bit_word_eqI) (auto simp: bit_ucast_iff bit_and_iff bit_mask_iff)
  have split: "crc_byte c x = (crc_shift ^^ 8) (ucast (ucast (c XOR ucast x) :: u8)) XOR drop_bit 8 c"
    using shifts_split_byte [of "c XOR ucast x"]
    by (simp add: crc_byte_def drop_bit_xor) (auto intro!: bit_word_eqI simp: bit_xor_iff bit_drop_bit_eq bit_ucast_iff dest: bit_u8)
  have "(ucast (drop_bit 24 (pg_bswap32 c) XOR ucast x) :: u8) = ucast (c XOR ucast x)"
    using bswap32_bytes(4) [of c] by (simp add: unsigned_xor_eq)
  then show ?thesis
    unfolding CRC8_def low table_entries split register_def
    by (simp add: bswap32_xor push_bit_bswap32)
qed

lemma shifts_word_bytes: "32 \<le> n \<Longrightarrow> (crc_shift ^^ n) w = (crc_shift ^^ n) (ucast (ucast w :: u8)) XOR
    (crc_shift ^^ (n - 8)) (ucast (ucast (drop_bit 8 w) :: u8)) XOR
    (crc_shift ^^ (n - 16)) (ucast (ucast (drop_bit 16 w) :: u8)) XOR
    (crc_shift ^^ (n - 24)) (ucast (ucast (drop_bit 24 w) :: u8))"
  by (subst word_bytes [of w]) (rule shifts_word)

lemma crc_word_pair_eq:
  "crc_word_pair be (register be a) (register be b) = Some (register be ((crc_shift ^^ 64) a XOR (crc_shift ^^ 32) b))"
proof -
  have a: "(crc_shift ^^ 64) a = (crc_shift ^^ 64) (ucast (ucast a :: u8)) XOR
      (crc_shift ^^ 56) (ucast (ucast (drop_bit 8 a) :: u8)) XOR
      (crc_shift ^^ 48) (ucast (ucast (drop_bit 16 a) :: u8)) XOR (crc_shift ^^ 40) (ucast (ucast (drop_bit 24 a) :: u8))"
    using shifts_word_bytes [of 64 a] by simp
  have b: "(crc_shift ^^ 32) b = (crc_shift ^^ 32) (ucast (ucast b :: u8)) XOR
      (crc_shift ^^ 24) (ucast (ucast (drop_bit 8 b) :: u8)) XOR
      (crc_shift ^^ 16) (ucast (ucast (drop_bit 16 b) :: u8)) XOR (crc_shift ^^ 8) (ucast (ucast (drop_bit 24 b) :: u8))"
    using shifts_word_bytes [of 32 b] by simp
  have "crc_word_pair be (register be a) (register be b) = Some (
      register be ((crc_shift ^^ 8) (ucast (ucast (drop_bit 24 b) :: u8))) XOR
      register be ((crc_shift ^^ 16) (ucast (ucast (drop_bit 16 b) :: u8))) XOR
      register be ((crc_shift ^^ 24) (ucast (ucast (drop_bit 8 b) :: u8))) XOR
      register be ((crc_shift ^^ 32) (ucast (ucast b :: u8))) XOR
      register be ((crc_shift ^^ 40) (ucast (ucast (drop_bit 24 a) :: u8))) XOR
      register be ((crc_shift ^^ 48) (ucast (ucast (drop_bit 16 a) :: u8))) XOR
      register be ((crc_shift ^^ 56) (ucast (ucast (drop_bit 8 a) :: u8))) XOR
      register be ((crc_shift ^^ 64) (ucast (ucast a :: u8))))"
    by (cases be) (simp_all only: crc_word_pair_def Let_def if_True if_False prod.case table_entries Option.bind.bind_lunit
        register_def bswap32_bytes drop_bit_0 id_apply)
  then show ?thesis
    unfolding a b register_xor [symmetric] by (simp only: xor.left_commute xor.commute xor.assoc)
qed

lemma crc32c_append: "crc32c c (xs @ ys) = crc32c (crc32c c xs) ys"
  by (simp add: crc32c_def)

lemma crc32c_Nil [simp]: "crc32c c [] = c"
  by (simp add: crc32c_def)

lemma crc32c_Cons: "crc32c c (x # xs) = crc32c (crc_byte c x) xs"
  by (simp add: crc32c_def)

lemma crc_words_step:
  assumes "8 \<le> length bs"
  shows "crc_word_pair be (word_at be bs XOR register be c) (word_at be (drop 4 bs)) =
    Some (register be (crc32c c (take 8 bs)))"
proof -
  obtain b0 b1 b2 b3 b4 b5 b6 b7 r where bs: "bs = b0 # b1 # b2 # b3 # b4 # b5 # b6 # b7 # r"
    using assms by (auto simp: numeral_eq_Suc Suc_le_length_iff)
  let ?a = "word_of_bytes False b0 b1 b2 b3" and ?b = "word_of_bytes False b4 b5 b6 b7"
  have "take 8 bs = [b0, b1, b2, b3] @ [b4, b5, b6, b7]" by (simp add: bs)
  then have "crc32c c (take 8 bs) = (crc_shift ^^ 32) ((crc_shift ^^ 32) (c XOR ?a) XOR ?b)"
    by (simp only: crc32c_append crc_bytes_4)
  also have "\<dots> = (crc_shift ^^ 64) (c XOR ?a) XOR (crc_shift ^^ 32) ?b"
    using funpow_add [of 32 32 crc_shift] by (simp add: shifts_xor)
  finally have crc: "crc32c c (take 8 bs) = (crc_shift ^^ 64) (c XOR ?a) XOR (crc_shift ^^ 32) ?b" .
  have "word_at be bs XOR register be c = register be (c XOR ?a)" "word_at be (drop 4 bs) = register be ?b"
    using word_at_register [of be bs] word_at_register [of be "drop 4 bs"]
    by (simp_all add: bs register_xor xor.commute word_at_def)
  then show ?thesis by (simp only: crc_word_pair_eq crc)
qed

section \<open>The loops\<close>

lemma crc_head_eq:
  assumes "p + len \<le> length dat"
  shows "\<exists>k \<le> len. crc_head be addr dat p len (register be c) =
    Some (p + k, len - k, register be (crc32c c (take k (drop p dat))))"
  using assms
proof (induction len arbitrary: p c)
  case 0
  then show ?case by (simp add: crc_head.simps)
next
  case (Suc len)
  show ?case
  proof (cases "(addr + p) mod 4 = 0")
    case True
    then show ?thesis by (intro exI [of _ 0]) (simp add: crc_head.simps)
  next
    case False
    have d: "drop p dat = dat ! p # drop (Suc p) dat" using Suc.prems by (simp add: Cons_nth_drop_Suc)
    obtain k where "k \<le> len" "crc_head be addr dat (Suc p) len (register be (crc_byte c (dat ! p))) =
        Some (Suc p + k, len - k, register be (crc32c (crc_byte c (dat ! p)) (take k (drop (Suc p) dat))))"
      using Suc.IH [of "Suc p" "crc_byte c (dat ! p)"] Suc.prems by auto
    moreover have "crc_head be addr dat p (Suc len) (register be c) =
        crc_head be addr dat (Suc p) len (register be (crc_byte c (dat ! p)))"
      using False Suc.prems by (subst crc_head.simps) (simp add: arr_get_def CRC8_eq)
    ultimately show ?thesis by (intro exI [of _ "Suc k"]) (simp add: d crc32c_Cons)
  qed
qed

lemma crc_words_eq:
  assumes "p + len \<le> length dat"
  shows "\<exists>k \<le> len. crc_words be dat p len (register be c) =
    Some (p + k, len - k, register be (crc32c c (take k (drop p dat))))"
  using assms
proof (induction len arbitrary: p c rule: less_induct)
  case (less len)
  show ?case
  proof (cases "8 \<le> len")
    case True
    let ?c = "crc32c c (take 8 (drop p dat))"
    obtain k where k: "k \<le> len - 8" "crc_words be dat (p + 8) (len - 8) (register be ?c) =
        Some (p + 8 + k, len - 8 - k, register be (crc32c ?c (take k (drop (p + 8) dat))))"
      using less.IH [of "len - 8" "p + 8" ?c] less.prems True by auto
    have "crc_words be dat p len (register be c) = crc_words be dat (p + 8) (len - 8) (register be ?c)"
      using True less.prems crc_words_step [of "drop p dat" be c]
      by (subst crc_words.simps) (simp add: fetch_eq add.commute [of 4])
    moreover have "take (8 + k) (drop p dat) = take 8 (drop p dat) @ take k (drop (p + 8) dat)"
      using take_add [of 8 k "drop p dat"] by (simp add: add.commute [of 8 p])
    ultimately show ?thesis using k True by (intro exI [of _ "8 + k"]) (simp add: crc32c_append)
  next
    case False
    then show ?thesis by (intro exI [of _ 0]) (simp add: crc_words.simps)
  qed
qed

lemma crc_tail_eq:
  assumes "p + len \<le> length dat"
  shows "crc_tail be dat p len (register be c) = Some (register be (crc32c c (take len (drop p dat))))"
  using assms
proof (induction len arbitrary: p c)
  case 0
  then show ?case by (simp add: crc_tail.simps)
next
  case (Suc len)
  have d: "drop p dat = dat ! p # drop (Suc p) dat" using Suc.prems by (simp add: Cons_nth_drop_Suc)
  then show ?case
    using Suc.IH [of "Suc p" "crc_byte c (dat ! p)"] Suc.prems
    by (subst crc_tail.simps) (simp add: arr_get_def CRC8_eq crc32c_Cons)
qed

lemma pg_comp_crc32c_sb8_eq:
  assumes "len \<le> length dat"
  shows "pg_comp_crc32c_sb8 be addr (register be c) dat len = Some (register be (crc32c c (take len dat)))"
proof -
  obtain k where k: "k \<le> len"
      "crc_head be addr dat 0 len (register be c) = Some (k, len - k, register be (crc32c c (take k dat)))"
    using crc_head_eq [of 0 len dat be addr c] assms by auto
  let ?c = "crc32c c (take k dat)"
  obtain j where j: "j \<le> len - k"
      "crc_words be dat k (len - k) (register be ?c) =
        Some (k + j, len - k - j, register be (crc32c ?c (take j (drop k dat))))"
    using crc_words_eq [of k "len - k" dat be ?c] assms k by auto
  have tail: "crc_tail be dat (k + j) (len - k - j) (register be (crc32c c (take (k + j) dat))) =
      Some (register be (crc32c c (take (k + j) dat @ take (len - k - j) (drop (k + j) dat))))"
    using crc_tail_eq [of "k + j" "len - k - j" dat] assms k j by (simp add: crc32c_append)
  have "take (k + j) dat @ take (len - k - j) (drop (k + j) dat) = take len dat"
    using k j take_add [of "k + j" "len - k - j" dat] by simp
  then show ?thesis
    using k j tail by (simp add: pg_comp_crc32c_sb8_def take_add crc32c_append)
qed

section \<open>The checksum\<close>

lemma COMP_pieces:
  assumes "list_all (\<lambda>(_, dat, len). len \<le> length dat) ps"
  shows "foldM (\<lambda>(addr, dat, len) crc. COMP_CRC32C be addr crc dat len) ps (register be c) =
    Some (register be (crc32c c (crc_input ps)))"
  using assms
proof (induction ps arbitrary: c)
  case Nil
  then show ?case by (simp add: crc_input_def)
next
  case (Cons p ps)
  obtain addr dat len where p: "p = (addr, dat, len)" by (cases p)
  then have "len \<le> length dat" using Cons.prems by simp
  then show ?case
    using Cons.IH [of "crc32c c (take len dat)"] Cons.prems
    by (simp add: p COMP_CRC32C_def pg_comp_crc32c_sb8_eq crc_input_def crc32c_append)
qed

lemma INIT_register: "INIT_CRC32C = register be 0xFFFFFFFF"
  by (simp add: INIT_CRC32C_def register_def pg_bswap32_def)

lemma FIN_register: "FIN_CRC32C be (register be c) = c XOR 0xFFFFFFFF"
  by (simp add: FIN_CRC32C_def register_def)

lemma crc_pieces_eq:
  "list_all (\<lambda>(_, dat, len). len \<le> length dat) ps \<Longrightarrow>
    crc_pieces be ps = Some (crc32c 0xFFFFFFFF (crc_input ps) XOR 0xFFFFFFFF)"
  by (simp only: crc_pieces_def INIT_register [of be] COMP_pieces Option.bind.bind_lunit FIN_register)

text \<open>The register after each digit of the customary check input, the text 123456789.\<close>

lemma check_steps:
  "crc_byte 0xFFFFFFFF 0x31 = 0x6F0A661C"
  "crc_byte 0x6F0A661C 0x32 = 0x8CAA3B9F"
  "crc_byte 0x8CAA3B9F 0x33 = 0xEF84D04D"
  "crc_byte 0xEF84D04D 0x34 = 0x09C50B11"
  "crc_byte 0x09C50B11 0x35 = 0xE72EDCCA"
  "crc_byte 0xE72EDCCA 0x36 = 0xBECA8E79"
  "crc_byte 0xBECA8E79 0x37 = 0xEDBD6815"
  "crc_byte 0xEDBD6815 0x38 = 0x9F787F65"
  "crc_byte 0x9F787F65 0x39 = 0x1CF96D7C"
  by (simp_all only: crc_byte_def funpow_8) (simp_all add: crc_shift_def)

text \<open>
  C39. With the slicing-by-8 code, the checksum of data given in any number of pieces, each at any
  address and with a length its memory covers, is the bitwise CRC-32C of the joined pieces (reflected
  polynomial 0x82F63B78, start value and final exclusive or of all ones).  It is defined, so no table
  or data access is out of bounds, and it is the same on little-endian and big-endian machines and
  for every alignment and every way of cutting the data.
\<close>

theorem crc_pieces_correct:
  assumes "list_all (\<lambda>(_, dat, len). len \<le> length dat) ps"
  shows "crc_pieces be ps = Some (crc32c 0xFFFFFFFF (crc_input ps) XOR 0xFFFFFFFF)"
  using assms by (rule crc_pieces_eq)

theorem crc_pieces_correct_witness:
  "list_all (\<lambda>(_, dat, len). len \<le> length dat)
     [(3 :: nat, [0x31, 0x32, 0x33, 0x34 :: u8], 3), (0, [0x34, 0x35, 0x36, 0x37, 0x38, 0x39], 6)] \<and>
   crc_pieces True
     [(3, [0x31, 0x32, 0x33, 0x34], 3), (0, [0x34, 0x35, 0x36, 0x37, 0x38, 0x39], 6)] = Some 0xE3069283"
  using crc_pieces_correct [of "[(3, [0x31, 0x32, 0x33, 0x34], 3), (0, [0x34, 0x35, 0x36, 0x37, 0x38, 0x39], 6)]" True]
  by (simp add: crc_input_def crc32c_Cons check_steps)

section \<open>Error detection\<close>

lemma xor_eq_0_iff: "x XOR y = 0 \<longleftrightarrow> x = y" for x y :: u32
  by (metis xor.assoc xor.left_neutral xor.right_neutral xor_self_eq)

lemma xor_cancel: "x XOR z = y XOR z \<longleftrightarrow> x = y" "z XOR x = z XOR y \<longleftrightarrow> x = y" for x y z :: u32
proof -
  have "(x XOR z) XOR z = x" for x :: u32 by (simp add: xor.assoc)
  then show "x XOR z = y XOR z \<longleftrightarrow> x = y" by metis
  then show "z XOR x = z XOR y \<longleftrightarrow> x = y" by (simp only: xor.commute [of z])
qed

lemma crc_shift_eq_0: "crc_shift x = 0 \<Longrightarrow> x = 0"
proof -
  assume a: "crc_shift x = 0"
  have "\<not> bit x 0"
  proof
    assume "bit x 0"
    moreover have "\<not> bit (crc_shift x) 31" using a by simp
    ultimately show False by (auto simp: crc_shift_def bit_xor_iff bit_drop_bit_eq dest: bit_imp_le_length)
  qed
  then have "\<not> bit (drop_bit 1 x) n" for n using a by (simp add: crc_shift_def)
  then have "\<not> bit x (Suc n)" for n by (simp add: bit_drop_bit_eq)
  with \<open>\<not> bit x 0\<close> have "\<not> bit x n" for n by (cases n) auto
  then show ?thesis by (intro bit_eqI) simp
qed

lemma shifts_eq_iff: "(crc_shift ^^ n) x = (crc_shift ^^ n) y \<longleftrightarrow> x = y"
proof -
  have "z = 0" if "(crc_shift ^^ n) z = 0" for z
    using that by (induction n) (auto dest: crc_shift_eq_0)
  from this [of "x XOR y"] show ?thesis by (auto simp: shifts_xor xor_eq_0_iff)
qed

lemma crc_byte_eq_iff: "crc_byte c b = crc_byte d b \<longleftrightarrow> c = d"
  by (simp only: crc_byte_def shifts_eq_iff xor_cancel)

lemma crc32c_eq_iff: "crc32c c bs = crc32c d bs \<longleftrightarrow> c = d"
  by (induction bs arbitrary: c d) (simp_all add: crc32c_Cons crc_byte_eq_iff)

lemma length_4: "length xs = 4 \<Longrightarrow> \<exists>a b c d. xs = [a, b, c, d]"
  by (auto simp: numeral_eq_Suc length_Suc_conv)

lemma word_at_inj:
  assumes "length xs = 4" "length ys = 4" "word_at False xs = word_at False ys"
  shows "xs = ys"
proof -
  have bytes: "bytes32 False (word_at False xs) = xs" if l: "length xs = 4" for xs
  proof -
    obtain a b c d where xs: "xs = [a, b, c, d]" using length_4 [OF l] by auto
    have "(ucast (drop_bit (8 * i) (word_of_bytes False a b c d)) :: u8) = [a, b, c, d] ! i" if "i < 4" for i
    proof (rule bit_word_eqI)
      fix n assume "n < LENGTH(8)"
      moreover have "i = 0 \<or> i = 1 \<or> i = 2 \<or> i = 3" using that by auto
      ultimately show "bit (ucast (drop_bit (8 * i) (word_of_bytes False a b c d)) :: u8) n \<longleftrightarrow> bit ([a, b, c, d] ! i) n"
        by (elim disjE) (auto simp: word_of_bytes_def bit_ucast_iff bit_drop_bit_eq bit_or_iff bit_push_bit_iff dest: bit_u8)
    qed
    from this [of 0] this [of 1] this [of 2] this [of 3] show ?thesis
      by (simp add: bytes32_def word_at_def xs upt_rec)
  qed
  show ?thesis using bytes [OF assms(1)] bytes [OF assms(2)] unfolding assms(3) by (rule trans [OF sym])
qed

lemma crc32c_4_inj: "length xs = 4 \<Longrightarrow> length ys = 4 \<Longrightarrow> crc32c c xs = crc32c c ys \<Longrightarrow> xs = ys"
proof -
  assume l: "length xs = 4" "length ys = 4" and e: "crc32c c xs = crc32c c ys"
  have crc: "crc32c c zs = (crc_shift ^^ 32) (c XOR word_at False zs)" if "length zs = 4" for zs
    using length_4 [OF that] by (auto simp: word_at_def crc_bytes_4)
  have "c XOR word_at False xs = c XOR word_at False ys"
    using e unfolding crc [OF l(1)] crc [OF l(2)] shifts_eq_iff .
  then have "word_at False xs = word_at False ys" by (simp only: xor_cancel)
  then show ?thesis by (rule word_at_inj [OF l])
qed

lemma crc32c_burst_inj:
  assumes "length d = length e" "length e \<le> 4" "crc32c c (d @ s) = crc32c c (e @ s)"
  shows "d = e"
proof -
  let ?z = "replicate (4 - length e) 0"
  have "crc32c c d = crc32c c e" using assms(3) by (simp add: crc32c_append crc32c_eq_iff)
  then have "crc32c c (d @ ?z) = crc32c c (e @ ?z)" by (simp only: crc32c_append)
  then have "d @ ?z = e @ ?z" using assms(1,2) by (intro crc32c_4_inj) auto
  then show ?thesis by simp
qed

text \<open>
  C40. The checksum detects every corruption confined to four consecutive bytes: if two inputs of the
  same length differ, and agree outside a window of at most four bytes, the code returns different
  checksums for them, in whatever pieces and on whatever machine each is computed.
\<close>

theorem crc_detects_bursts:
  assumes "list_all (\<lambda>(_, dat, len). len \<le> length dat) ps" "crc_input ps = p @ d @ s"
    and "list_all (\<lambda>(_, dat, len). len \<le> length dat) qs" "crc_input qs = p @ e @ s"
    and "length d = length e" "length e \<le> 4" "d \<noteq> e"
  shows "crc_pieces be ps \<noteq> crc_pieces be' qs"
proof
  assume "crc_pieces be ps = crc_pieces be' qs"
  then have "crc32c 0xFFFFFFFF (p @ d @ s) XOR 0xFFFFFFFF = crc32c 0xFFFFFFFF (p @ e @ s) XOR 0xFFFFFFFF"
    using assms(1-4) crc_pieces_eq [of ps be] crc_pieces_eq [of qs be'] by (simp only: option.inject)
  then have "crc32c 0xFFFFFFFF (p @ d @ s) = crc32c 0xFFFFFFFF (p @ e @ s)"
    by (simp only: xor_cancel)
  then have "crc32c (crc32c 0xFFFFFFFF p) (d @ s) = crc32c (crc32c 0xFFFFFFFF p) (e @ s)"
    by (simp only: crc32c_append)
  then show False using crc32c_burst_inj assms(5-7) by blast
qed

theorem crc_detects_bursts_witness:
  "crc_pieces False [(1, [7, 1, 2], 3)] \<noteq> crc_pieces True [(0, [7], 1), (6, [3, 2, 9], 2)]"
  using crc_detects_bursts [of "[(1, [7, 1, 2], 3)]" "[7]" "[1]" "[2]" "[(0, [7], 1), (6, [3, 2, 9], 2)]" "[3]" False True]
  by (simp add: crc_input_def)

end
