(* ===== verification/Spec2Isabelle.thy ===== *)
theory Spec2Isabelle
  imports Thread_Pool_Correct Chat_Server_Correct MD5_Correct PG_MD5_Correct DES_Correct SM4_Correct Heap_Sort Calculator Hashfunc_Correct Bitmapset_Correct CRC32C_Correct
begin

text \<open>
  The repository collects a Windows chat server with a thread pool (\<open>hatchNet-V100R001C01\<close>), a utility library and
  tools (\<open>hatch\<close>), small programs (\<open>other/testCode\<close>, \<open>test\<close>, \<open>boost_test\<close>), the start of a file server (\<open>dfs\<close>), Java
  programs (\<open>java\<close>) and a copy of PostgreSQL 11.1 (\<open>other/postgresql-11.1\<close>).  They are separate; the interactions
  that matter for their correctness are inside a part (threads and callers of the pool, pieces of a stream and their
  digest, recycled arguments of the set operations) or between two implementations of one contract (the two MD5
  codes, the hash of an \<open>int\<close> and of its bytes, \<open>bms_hash_value\<close> on top of \<open>hash_any\<close>).

  \<^bold>\<open>How C is modelled.\<close>  A function of the source is a HOL function of the same name on explicit values.  An array is
  a list, and every access is checked: the result \<open>None\<close> stands for an access out of bounds, another undefined
  operation, or a run that does not end; so a theorem that says \<open>Some\<close> also says that the code returns and stays
  inside its arrays.  The one exception is the overlapping \<open>memcpy\<close> of \<open>DES_ROL\<close>, which is undefined in C and is taken
  as \<open>memmove\<close>.  Unsigned integers are words of their width and wrap around; signed arithmetic is on \<open>int\<close> through
  \<open>int32\<close>, which is undefined on overflow.  Errors the code reports are values.  A counting loop is \<open>foldM\<close> over its
  index values, a loop with an early return is \<open>for_loop\<close>, a loop whose end is not evident is \<open>partial_function\<close>;
  no definition uses fuel.  Concurrency is a step relation whose steps are the operations on shared objects.

  \<^bold>\<open>Theories.\<close>
  \<^item> \<open>Prelude\<close>: checked arrays, loops, blocks of a list, and the locale \<open>block_transform\<close>, the contract between a
    streaming digest and its compression function.  \<open>Machine_Words\<close>: words in byte memory for both byte orders.
  \<^item> \<open>Thread_Pool\<close>, \<open>Thread_Pool_Correct\<close>: \<open>CHatchThreadSimplePool\<close> of \<open>hatchThreadPool.cpp\<close>.  The record \<open>simple_pool\<close> has
    the members of the class; \<open>hatchThreadProc\<close> is one operation of a pool thread, \<open>call_step\<close> one operation of a thread
    in \<open>hatchPush\<close> or \<open>hatchEnd\<close>, \<open>reachable\<close> what any interleaving gives after \<open>hatchInitialize\<close>.  Shown: mutual
    exclusion, no wasted wake-up, first in first out, every runner started once, all work finished, an orderly end.
  \<^item> \<open>Chat_Server\<close>, \<open>Chat_Server_Correct\<close>: the server of \<open>hatchNet-V100R001C01\<close>.  The record \<open>chat_server\<close> has the globals
    of \<open>hatchGlobal.cpp\<close> and a heap of messages; the operations are those of \<open>CHatchUserList\<close>, \<open>CHatchMsgList\<close> and
    \<open>CHatchProtocolServer\<close>, and \<open>packet_recv\<close>, \<open>packet_proc\<close>, \<open>packet_send\<close> are one round of the three loops.  The locale
    \<open>message_list\<close> is the contract of the bounded queues.  Shown: an invariant under all interleavings of rounds, the
    refinement of a directory of users, first in first out, and the faults of the code.  Leaving a critical section
    that is not held is \<open>None\<close>, so every update or logout of a user in the list is one of the faults.
  \<^item> \<open>MD5\<close>, \<open>MD5_Correct\<close>: \<open>hatch/src/utility/md5\<close>.  The streaming code computes the RFC 1321 digest for every way of cutting
    the message; the unrolled rounds equal the tables of the RFC; the loop runs on for one input length.
  \<^item> \<open>PG_MD5\<close>, \<open>PG_MD5_Correct\<close>: PostgreSQL's \<open>common/md5.c\<close>, with its padded copy and the password format.
  \<^item> \<open>DES\<close>, \<open>DES_Correct\<close>: \<open>hatch/DataEncryptionStandard\<close>, on files as byte lists with position and end-of-file flag.  The
    locale \<open>feistel_network\<close> gives decryption from the shape of the rounds; shown are the round trips of blocks and
    files, the complementation property, and what happens at file lengths divisible by eight.
  \<^item> \<open>SM4\<close>, \<open>SM4_Correct\<close>: the block cipher of \<open>java/spider/src/core/security/sm4/Sm4.java\<close>, with Java exceptions as
    \<open>None\<close>.  The locale \<open>reversible_rounds\<close> of \<open>Prelude\<close>, which the Feistel network of DES extends, gives decryption;
    shown are the recurrences of the standard, the round trip of messages, and what is lost of an incomplete block.
  \<^item> \<open>Heap_Sort\<close>: both sorts of \<open>other/testCode/Sort\<close> terminate, stay in bounds and sort.
  \<^item> \<open>Calculator\<close>: \<open>calculate\<close> of \<open>testFullFile/compute.cpp\<close> evaluates sums of products of digits.
  \<^item> \<open>Hashfunc\<close>, \<open>Hashfunc_Correct\<close>: \<open>access/hash/hashfunc.c\<close>.  All code paths of \<open>hash_any\<close> and of \<open>hash_any_extended\<close>
    equal one reference hash; equal numbers of different types, integers and floating-point, hash alike.
  \<^item> \<open>Bitmapset\<close>, \<open>Bitmapset_Sets\<close>, \<open>Bitmapset_Iteration\<close>, \<open>Bitmapset_Correct\<close>: \<open>nodes/bitmapset.c\<close>.  The operations refine
    finite sets (locale \<open>set_ops\<close>, interpreted for the copying and the recycling operations); tests, counts,
    iteration and hash decide what they document.
  \<^item> \<open>CRC32C_Tables\<close>, \<open>CRC32C\<close>, \<open>CRC32C_Reference\<close>, \<open>CRC32C_Correct\<close>: \<open>port/pg_crc32c_sb8.c\<close> with its sixteen tables.  The
    tables are spans of linear maps (locale \<open>xor_linear\<close>); the checksum is CRC-32C on both byte orders and for every
    alignment, and detects every change within four consecutive bytes.

  \<^bold>\<open>Bounds.\<close>  The theorems hold for all inputs of the C types, except that a single MD5 input is shorter than
  \<open>2^32 - 64\<close> (hatch) or \<open>2^32 - 136\<close> bytes (PostgreSQL), where the 32-bit lengths would wrap around, and bitmap sets
  stay below the member \<open>2^31 - 1\<close> where the code overflows; \<open>HeapSort2\<close> sorts arrays of up to \<open>2^30\<close> elements, beyond
  which \<open>2*i+1\<close> overflows, and SM4 messages are shorter than \<open>2^31 - 16\<close>.  What happens beyond is stated as a property
  or a finding.

  \<^bold>\<open>Not modelled.\<close>  The rest of \<open>hatchNet-V100R001C01\<close> is window, socket, timer and log code that forwards to the Windows
  API, and the client protocol, which the configuration \<open>SERVICES_TYPE\<close> 0 never instantiates; \<open>hatch/file_mng\<close>, \<open>dfs\<close>,
  \<open>boost_test\<close> and the remaining programs of \<open>other/testCode\<close> and \<open>test\<close> are drivers around system calls or third-party
  libraries; \<open>sqlite3_split\<close> holds pieces of SQLite as data for a splitting tool; \<open>yylex\<close> and the parsers of PostgreSQL
  are generated.  The rest of PostgreSQL (some 2.4 million lines) is beyond this development: its parts depend on
  shared memory, catalogs and process state.  The other Java programs work on files, databases and grid services, and
  the string functions of \<open>Sm4.java\<close> call a cipher of the Java library.
\<close>

section \<open>Two implementations of one digest\<close>

text \<open>
  C12. The two MD5 implementations agree: for every message shorter than \<open>2^32 - 136\<close> bytes and every way of cutting
  it into pieces, the streaming code of hatch (\<open>MD5Init\<close>, \<open>MD5Update\<close>, \<open>MD5Final\<close>) and the one-shot code of
  PostgreSQL (\<open>pg_md5_binary\<close>) both return and give the same 16 bytes, provided the memory for the padded copy can
  be had.
\<close>

theorem md5_implementations_agree:
  assumes malloc: "\<And>k b. malloc k = Some b \<Longrightarrow> length b = k"
    and memory: "malloc (length (rfc_pad (concat pieces))) \<noteq> None"
    and "length (ctx_count c) = 2" "length (ctx_state c) = 4" "length (ctx_buffer c) = 64"
    and "length digest = 16" "length outbuf = 16" "length (concat pieces) + 136 < 2 ^ 32"
  shows "\<exists>c' c'' r. MD5_feed (MD5Init c) pieces = Some c' \<and> MD5Final c' digest = Some (c'', r) \<and>
    pg_md5_binary malloc (Some (concat pieces)) (length (concat pieces)) outbuf = Some (True, r)"
proof -
  let ?m = "concat pieces"
  have "length p \<le> length ?m" if "p \<in> set pieces" for p
    using that by (auto simp: length_concat intro: member_le_sum_list)
  then have "\<forall>p \<in> set pieces. length p + 64 < 2 ^ 32" using assms(8) by fastforce
  then obtain c' c'' where "MD5_feed (MD5Init c) pieces = Some c'" "MD5Final c' digest = Some (c'', rfc_md5 ?m)"
    using MD5_feed_repr [OF MD5Init_repr [OF assms(3-5)]] MD5Final_eq [OF _ assms(6)] by force
  moreover obtain ret where ret: "malloc (length (rfc_pad ?m)) = Some ret" using memory by auto
  have n: "unat (of_nat (length ?m) :: u32) = length ?m" using assms(8) by (simp add: unat_of_nat)
  then have "pg_md5_binary malloc (Some ?m) (length ?m) outbuf = Some (True, rfc_md5 ?m)"
    unfolding pg_md5_binary_def using assms(7,8) ret malloc [OF ret]
    by (intro calculateDigest_eq [where ret = ret]) simp_all
  ultimately show ?thesis by blast
qed

theorem md5_implementations_agree_witness:
  "\<exists>c' c'' r. MD5_feed (MD5Init \<lparr>ctx_count = [0, 0], ctx_state = replicate 4 0, ctx_buffer = replicate 64 0\<rparr>)
      [[0x61], [0x62, 0x63]] = Some c' \<and> MD5Final c' (replicate 16 0) = Some (c'', r) \<and>
    pg_md5_binary (\<lambda>k. if k < 100 then Some (replicate k 7) else None) (Some [0x61, 0x62, 0x63])
      (length [0x61 :: u8, 0x62, 0x63]) (replicate 16 0) =
      Some (True, r)"
proof -
  let ?malloc = "\<lambda>k. if k < 100 then Some (replicate k 7) else None :: u8 list option"
  have "length b = k" if "?malloc k = Some b" for k b using that by (auto split: if_splits)
  then show ?thesis
    using md5_implementations_agree [of ?malloc "[[0x61], [0x62, 0x63]]"
        "\<lparr>ctx_count = [0, 0], ctx_state = replicate 4 0, ctx_buffer = replicate 64 0\<rparr>" "replicate 16 0" "replicate 16 0"]
    by (simp add: length_rfc_pad)
qed

end
